theory Spec2Isabelle
  imports Main "HOL-Library.Word"
begin

text \<open>
  A model of the embedded HTTP server module \<open>components/http_server/http_server.cpp\<close>:
  the static asset resolver and streamer, the request handlers, and the start/stop
  life cycle with its worker task. The module's functions are translated one by one and
  keep their names; what the module calls in ESP-IDF and FreeRTOS (the server engine,
  the LittleFS driver, the filesystem, task creation, waits) appears as arguments that
  give the results of those calls. The definitions come first, the properties after.
\<close>

section \<open>Static asset resolver (LittleFS file serving)\<close>

text \<open>
  The filesystem is an association list from full paths to file contents:
  \<open>fopen(p, "rb")\<close> succeeds exactly when the list has an entry for \<open>p\<close>. A C string that may be a null
  pointer is a \<open>string option\<close>.
\<close>

type_synonym vfs = "(string \<times> string) list"

text \<open>\<open>resolve_fs_base\<close>: the mount base from the build-time configuration string.\<close>

definition kDefaultFsBase :: string where
  "kDefaultFsBase = ''/littlefs''"

definition resolve_fs_base :: "string \<Rightarrow> string" where
  "resolve_fs_base cfg =
     (if cfg = [] then kDefaultFsBase
      else if hd cfg \<noteq> CHR ''/'' then ''/'' @ cfg
      else cfg)"

text \<open>\<open>std::string_view::find(needle)\<close>: the first position where the needle starts.\<close>

fun sv_find :: "string \<Rightarrow> string \<Rightarrow> nat option" where
  "sv_find [] pat = (if pat = [] then Some 0 else None)"
| "sv_find (c # cs) pat =
     (if take (length pat) (c # cs) = pat then Some 0
      else map_option Suc (sv_find cs pat))"

definition has_dotdot :: "string \<Rightarrow> bool" where
  "has_dotdot uri = (sv_find uri ''..'' \<noteq> None)"

definition ends_with :: "string \<Rightarrow> string \<Rightarrow> bool" where
  "ends_with s suffix =
     (length s \<ge> length suffix \<and> drop (length s - length suffix) s = suffix)"

definition content_type_for_path :: "string \<Rightarrow> string" where
  "content_type_for_path path_no_gz =
     (if ends_with path_no_gz ''.htm'' \<or> ends_with path_no_gz ''.html''
        then ''text/html; charset=utf-8''
      else if ends_with path_no_gz ''.css'' then ''text/css; charset=utf-8''
      else if ends_with path_no_gz ''.js'' then ''application/javascript; charset=utf-8''
      else if ends_with path_no_gz ''.json'' then ''application/json; charset=utf-8''
      else if ends_with path_no_gz ''.svg'' then ''image/svg+xml''
      else if ends_with path_no_gz ''.png'' then ''image/png''
      else if ends_with path_no_gz ''.jpg'' \<or> ends_with path_no_gz ''.jpeg''
        then ''image/jpeg''
      else if ends_with path_no_gz ''.gif'' then ''image/gif''
      else if ends_with path_no_gz ''.ico'' then ''image/x-icon''
      else if ends_with path_no_gz ''.woff2'' then ''font/woff2''
      else if ends_with path_no_gz ''.woff'' then ''font/woff''
      else if ends_with path_no_gz ''.ttf'' then ''font/ttf''
      else if ends_with path_no_gz ''.map'' then ''application/json; charset=utf-8''
      else ''text/plain; charset=utf-8'')"

definition file_exists :: "vfs \<Rightarrow> string \<Rightarrow> bool" where
  "file_exists fs full_path = (map_of fs full_path \<noteq> None)"

text \<open>
  The three out-parameters of \<open>resolve_fs_path\<close>; the function's \<open>false\<close> (with the
  out-parameters cleared) is \<open>None\<close>.
\<close>

record resolved =
  out_full_path :: string
  out_ctype :: string
  out_is_gz :: bool

text \<open>Lines 406-415: a trailing separator and the bare root get the index default.\<close>

definition index_default :: "string \<Rightarrow> string" where
  "index_default uri =
     (let logical = (if uri \<noteq> [] \<and> last uri = CHR ''/'' then uri @ ''index.html'' else uri)
      in if logical = ''/'' then ''/index.html'' else logical)"

text \<open>Lines 417-421: a requested \<open>.gz\<close> suffix is cut off.\<close>

definition strip_gz :: "string \<Rightarrow> string" where
  "strip_gz logical =
     (if ends_with logical ''.gz'' \<and> length logical > 3
      then take (length logical - 3) logical else logical)"

definition logical_path :: "string \<Rightarrow> string" where
  "logical_path uri = strip_gz (index_default uri)"

text \<open>Lines 432-455: the candidate vector.\<close>

definition candidates_of :: "string \<Rightarrow> string list" where
  "candidates_of logical =
     (if ends_with logical ''.html'' then
        (let alt = take (length logical - 5) logical @ ''.htm''
         in if alt \<noteq> logical then [logical, alt] else [logical])
      else if ends_with logical ''.htm'' then
        (let alt = take (length logical - 4) logical @ ''.html''
         in if alt \<noteq> logical then [logical, alt] else [logical])
      else [logical])"

text \<open>
  Lines 457-478: the loop over the candidates. The first component of the result is
  the sequence of paths handed to \<open>file_exists\<close>, in order.
\<close>

fun probe_candidates :: "vfs \<Rightarrow> string \<Rightarrow> string list \<Rightarrow> string list \<times> resolved option" where
  "probe_candidates fs base [] = ([], None)"
| "probe_candidates fs base (cand # rest) =
     (let gz_full = base @ (cand @ ''.gz'') in
      if file_exists fs gz_full then
        ([gz_full],
         Some \<lparr>out_full_path = gz_full, out_ctype = content_type_for_path cand, out_is_gz = True\<rparr>)
      else
        (let plain_full = base @ cand in
         if file_exists fs plain_full then
           ([gz_full, plain_full],
            Some \<lparr>out_full_path = plain_full, out_ctype = content_type_for_path cand,
                  out_is_gz = False\<rparr>)
         else
           (case probe_candidates fs base rest of
              (probes, r) \<Rightarrow> (gz_full # plain_full # probes, r))))"

definition resolve_fs_path_probes :: "vfs \<Rightarrow> string \<Rightarrow> string option \<Rightarrow> string list \<times> resolved option" where
  "resolve_fs_path_probes fs base uri =
     (case uri of
        None \<Rightarrow> ([], None)
      | Some u \<Rightarrow>
          if u = [] \<or> hd u \<noteq> CHR ''/'' then ([], None)
          else if has_dotdot u then ([], None)
          else probe_candidates fs base (candidates_of (logical_path u)))"

definition resolve_fs_path :: "vfs \<Rightarrow> string \<Rightarrow> string option \<Rightarrow> resolved option" where
  "resolve_fs_path fs base uri = snd (resolve_fs_path_probes fs base uri)"

definition fs_probes :: "vfs \<Rightarrow> string \<Rightarrow> string option \<Rightarrow> string list" where
  "fs_probes fs base uri = fst (resolve_fs_path_probes fs base uri)"


subsection \<open>The resolution algorithm in the specification's words\<close>

text \<open>
  The candidate list of the specification: the logical path, followed by the alias with
  the other spelling when the logical path ends in \<open>.html\<close> or \<open>.htm\<close>.
\<close>

definition spec_candidate_list :: "string \<Rightarrow> string list" where
  "spec_candidate_list logical =
     logical #
       (if ends_with logical ''.html'' then [take (length logical - 5) logical @ ''.htm'']
        else if ends_with logical ''.htm'' then [take (length logical - 4) logical @ ''.html'']
        else [])"

text \<open>
  The two variants of one candidate, in the order the specification tries them: the
  compressed sibling (content type of the uncompressed name), then the plain file.
\<close>

definition spec_variants :: "string \<Rightarrow> string \<Rightarrow> resolved list" where
  "spec_variants base cand =
     [\<lparr>out_full_path = base @ cand @ ''.gz'', out_ctype = content_type_for_path cand,
       out_is_gz = True\<rparr>,
      \<lparr>out_full_path = base @ cand, out_ctype = content_type_for_path cand,
       out_is_gz = False\<rparr>]"

definition spec_search_order :: "string \<Rightarrow> string list \<Rightarrow> resolved list" where
  "spec_search_order base cands = concat (map (spec_variants base) cands)"

text \<open>The first existing file across the whole list, or not-found.\<close>

definition spec_first_existing :: "vfs \<Rightarrow> string \<Rightarrow> string list \<Rightarrow> resolved option" where
  "spec_first_existing fs base cands =
     find (\<lambda>r. file_exists fs (out_full_path r)) (spec_search_order base cands)"

text \<open>The probes of a search that stops at the first existing file.\<close>

definition spec_probe_sequence :: "vfs \<Rightarrow> string \<Rightarrow> string list \<Rightarrow> string list" where
  "spec_probe_sequence fs base cands =
     (let ps = map out_full_path (spec_search_order base cands)
      in takeWhile (\<lambda>p. \<not> file_exists fs p) ps @ take 1 (dropWhile (\<lambda>p. \<not> file_exists fs p) ps))"

section \<open>Module state\<close>

datatype State = STOPPED | STARTING | RUNNING | STOPPING

text \<open>The values of \<open>esp_err_t\<close> that the module names or passes through.\<close>

datatype esp_err =
    ESP_OK
  | ESP_FAIL
  | ESP_ERR_NO_MEM
  | ESP_ERR_INVALID_ARG
  | ESP_ERR_INVALID_STATE
  | ESP_ERR_NOT_FOUND
  | ESP_ERR_NOT_SUPPORTED
  | ESP_ERR_TIMEOUT
  | ESP_ERR_HTTPD_INVALID_REQ
  | ESP_ERR_HTTPD_HANDLER_EXISTS
  | ESP_ERR_HTTPD_HANDLERS_FULL
  | ESP_ERR_HTTPD_RESP_SEND

text \<open>
  The statics of the anonymous namespace. A handle is \<open>None\<close> when the pointer is null.
  \<open>s_mutex\<close> and \<open>s_evt\<close> say whether the mutex and the event group have been created;
  \<open>ready_bit\<close> is \<open>READY_BIT\<close> of the event group. The last field is not a static of
  the module: it counts the calls made so far to the LittleFS driver's
  \<open>esp_vfs_littlefs_register\<close>, so that a repeated mount attempt is visible.
\<close>

record globals =
  s_mutex :: bool
  s_evt :: bool
  ready_bit :: bool
  s_server :: "nat option"
  s_max_open_sockets :: nat
  s_task :: "nat option"
  s_task_exit :: bool
  s_state :: State
  s_fs_mounted :: bool
  vfs_register_calls :: nat

definition boot_globals :: globals where
  "boot_globals =
     \<lparr>s_mutex = False, s_evt = False, ready_bit = False, s_server = None,
      s_max_open_sockets = 0, s_task = None, s_task_exit = False, s_state = STOPPED,
      s_fs_mounted = False, vfs_register_calls = 0\<rparr>"

text \<open>
  \<open>lock_mutex()\<close> with its default \<open>portMAX_DELAY\<close>: it fails when the mutex does not
  exist; otherwise the take waits without bound and returns with the mutex held.
\<close>

definition lock_mutex :: "globals \<Rightarrow> bool" where
  "lock_mutex g = s_mutex g"

section \<open>Requests and responses\<close>

text \<open>
  The part of ESP-IDF's \<open>httpd_req_t\<close> that the handlers touch: the request URI, the
  status line, content type and additional headers set for the response, and the
  transmissions handed to the transport so far. ESP-IDF keeps the status, the type and
  the additional headers on the request until the request is finished, and sends with
  every response what is set at that moment: each transmission records the status, type
  and headers that were set on the request when it was sent. The result of
  \<open>httpd_resp_set_hdr\<close>, which the module ignores, is left out. A null request pointer
  is \<open>None\<close>; the response functions refuse it with \<open>ESP_ERR_INVALID_ARG\<close>.
\<close>

datatype tx_kind = Whole | Chunk

record transmission =
  tx_kind :: tx_kind
  tx_status :: string
  tx_type :: string
  tx_hdrs :: "(string \<times> string) list"
  tx_body :: string

record httpd_req =
  uri :: string
  resp_status :: string
  resp_type :: string
  resp_hdrs :: "(string \<times> string) list"
  sent :: "transmission list"

definition httpd_resp_set_status :: "string \<Rightarrow> httpd_req option \<Rightarrow> httpd_req option" where
  "httpd_resp_set_status st req = map_option (\<lambda>r. r\<lparr>resp_status := st\<rparr>) req"

definition httpd_resp_set_type :: "string \<Rightarrow> httpd_req option \<Rightarrow> httpd_req option" where
  "httpd_resp_set_type ty req = map_option (\<lambda>r. r\<lparr>resp_type := ty\<rparr>) req"

definition httpd_resp_set_hdr :: "string \<Rightarrow> string \<Rightarrow> httpd_req option \<Rightarrow> httpd_req option" where
  "httpd_resp_set_hdr field val req =
     map_option (\<lambda>r. r\<lparr>resp_hdrs := resp_hdrs r @ [(field, val)]\<rparr>) req"

definition transmit :: "tx_kind \<Rightarrow> string \<Rightarrow> httpd_req \<Rightarrow> httpd_req" where
  "transmit k body r =
     r\<lparr>sent := sent r @
          [\<lparr>tx_kind = k, tx_status = resp_status r, tx_type = resp_type r,
            tx_hdrs = resp_hdrs r, tx_body = body\<rparr>]\<rparr>"

text \<open>
  The transport's answer to the \<open>n\<close>-th transmission on a request is given by the
  first argument.
\<close>

definition httpd_resp_send :: "(nat \<Rightarrow> esp_err) \<Rightarrow> string \<Rightarrow> httpd_req option \<Rightarrow> esp_err \<times> httpd_req option" where
  "httpd_resp_send tx body req =
     (case req of
        None \<Rightarrow> (ESP_ERR_INVALID_ARG, None)
      | Some r \<Rightarrow> (tx (length (sent r)), Some (transmit Whole body r)))"

definition httpd_resp_send_chunk :: "(nat \<Rightarrow> esp_err) \<Rightarrow> string \<Rightarrow> httpd_req option \<Rightarrow> esp_err \<times> httpd_req option" where
  "httpd_resp_send_chunk tx body req =
     (case req of
        None \<Rightarrow> (ESP_ERR_INVALID_ARG, None)
      | Some r \<Rightarrow> (tx (length (sent r)), Some (transmit Chunk body r)))"

section \<open>Small utilities and the asset streamer\<close>

definition status_for :: "int \<Rightarrow> string" where
  "status_for code =
     (if code = 200 then ''200 OK''
      else if code = 202 then ''202 Accepted''
      else if code = 204 then ''204 No Content''
      else if code = 302 then ''302 Found''
      else if code = 400 then ''400 Bad Request''
      else if code = 403 then ''403 Forbidden''
      else if code = 404 then ''404 Not Found''
      else if code = 405 then ''405 Method Not Allowed''
      else if code = 409 then ''409 Conflict''
      else if code = 413 then ''413 Payload Too Large''
      else if code = 415 then ''415 Unsupported Media Type''
      else ''500 Internal Server Error'')"

definition set_no_cache_headers :: "httpd_req option \<Rightarrow> httpd_req option" where
  "set_no_cache_headers req =
     httpd_resp_set_hdr ''Vary'' ''Accept-Encoding''
       (httpd_resp_set_hdr ''Expires'' ''0''
         (httpd_resp_set_hdr ''Pragma'' ''no-cache''
           (httpd_resp_set_hdr ''Cache-Control'' ''no-cache, no-store, must-revalidate'' req)))"

definition send_text :: "(nat \<Rightarrow> esp_err) \<Rightarrow> httpd_req option \<Rightarrow> int \<Rightarrow> string \<Rightarrow> string option \<Rightarrow> esp_err \<times> httpd_req option" where
  "send_text tx req code ctype body =
     httpd_resp_send tx (case body of None \<Rightarrow> [] | Some b \<Rightarrow> b)
       (httpd_resp_set_type ctype (httpd_resp_set_status (status_for code) req))"

definition send_template :: "(nat \<Rightarrow> esp_err) \<Rightarrow> httpd_req option \<Rightarrow> string option \<Rightarrow> string option \<Rightarrow> bool \<Rightarrow> esp_err \<times> httpd_req option" where
  "send_template tx req tmpl ctype no_cache =
     (if req = None \<or> tmpl = None \<or> ctype = None then (ESP_FAIL, req)
      else send_text tx (if no_cache then set_no_cache_headers req else req) 200 (the ctype) tmpl)"

text \<open>
  \<open>ensure_fs_mounted\<close>. The first argument gives the driver's answer to its \<open>n\<close>-th
  registration call.
\<close>

definition ensure_fs_mounted :: "(nat \<Rightarrow> esp_err) \<Rightarrow> globals \<Rightarrow> esp_err \<times> globals" where
  "ensure_fs_mounted vfs_register g =
     (if \<not> lock_mutex g then (ESP_FAIL, g)
      else if s_fs_mounted g then (ESP_OK, g)
      else
        (let rc = vfs_register (vfs_register_calls g);
             g1 = g\<lparr>vfs_register_calls := Suc (vfs_register_calls g)\<rparr>
         in if rc \<noteq> ESP_OK then (rc, g1)
            else (ESP_OK, g1\<lparr>s_fs_mounted := True\<rparr>)))"

text \<open>
  The read loop of \<open>send_file_stream\<close>: \<open>fread\<close> hands over the next at most 1024 bytes
  of what is left of the file.
\<close>

function stream_chunks :: "(nat \<Rightarrow> esp_err) \<Rightarrow> string \<Rightarrow> httpd_req option \<Rightarrow> esp_err \<times> httpd_req option" where
  "stream_chunks tx rest req =
     (let n = min 1024 (length rest);
          r = (if n > 0 then httpd_resp_send_chunk tx (take n rest) req else (ESP_OK, req))
      in if fst r \<noteq> ESP_OK then r
         else if n < 1024 then (ESP_OK, snd r)
         else stream_chunks tx (drop n rest) (snd r))"
  by pat_completeness auto
termination
  by (relation "measure (\<lambda>(tx, rest, req). length rest)") auto

declare stream_chunks.simps [simp del]

definition send_file_stream :: "vfs \<Rightarrow> (nat \<Rightarrow> esp_err) \<Rightarrow> httpd_req option \<Rightarrow> string \<Rightarrow> string \<Rightarrow> bool \<Rightarrow> esp_err \<times> httpd_req option" where
  "send_file_stream fs tx req full_path ctype is_gz =
     (case map_of fs full_path of
        None \<Rightarrow> send_text tx req 500 ''text/plain; charset=utf-8'' (Some ''File open failed\<newline>'')
      | Some content \<Rightarrow>
          (let req1 = httpd_resp_set_type ctype req;
               req2 = (if is_gz then httpd_resp_set_hdr ''Content-Encoding'' ''gzip'' req1 else req1);
               req3 = set_no_cache_headers req2;
               r = stream_chunks tx content req3
           in if fst r \<noteq> ESP_OK then r
              else httpd_resp_send_chunk tx [] (snd r)))"

section \<open>Handlers\<close>

text \<open>
  The build-time configuration: \<open>CONFIG_HTTP_SERVER_ENABLE_LITTLEFS\<close> and
  \<open>CONFIG_HTTP_SERVER_LITTLEFS_MOUNT\<close>.
\<close>

record build_config =
  enable_littlefs :: bool
  littlefs_mount :: string

definition kFsBase :: "build_config \<Rightarrow> string" where
  "kFsBase cfg = resolve_fs_base (littlefs_mount cfg)"

text \<open>A build with file serving, mounted at \<open>/littlefs\<close>.\<close>

definition littlefs_config :: build_config where
  "littlefs_config = \<lparr>enable_littlefs = True, littlefs_mount = ''/littlefs''\<rparr>"

text \<open>
  What a handler meets outside the module: the transport's answers, the driver's
  answers to mount attempts, the filesystem as the existence probes find it and as the
  later \<open>fopen\<close> of the streamer finds it.
\<close>

record handler_env =
  transport_rc :: "nat \<Rightarrow> esp_err"
  vfs_register_rc :: "nat \<Rightarrow> esp_err"
  fs_at_probe :: vfs
  fs_at_open :: vfs

definition try_serve_from_fs :: "build_config \<Rightarrow> handler_env \<Rightarrow> globals \<Rightarrow> httpd_req option \<Rightarrow> esp_err \<times> globals \<times> httpd_req option" where
  "try_serve_from_fs cfg env g req =
     (if \<not> enable_littlefs cfg then (ESP_ERR_NOT_SUPPORTED, g, req)
      else case req of
        None \<Rightarrow> (ESP_ERR_HTTPD_INVALID_REQ, g, req)
      | Some r \<Rightarrow>
          if uri r = [] then (ESP_ERR_HTTPD_INVALID_REQ, g, req)
          else case ensure_fs_mounted (vfs_register_rc env) g of
            (mrc, g1) \<Rightarrow>
              if mrc \<noteq> ESP_OK then (ESP_ERR_NOT_SUPPORTED, g1, req)
              else case resolve_fs_path (fs_at_probe env) (kFsBase cfg) (Some (uri r)) of
                None \<Rightarrow> (ESP_ERR_NOT_FOUND, g1, req)
              | Some a \<Rightarrow>
                  (case send_file_stream (fs_at_open env) (transport_rc env) req
                          (out_full_path a) (out_ctype a) (out_is_gz a) of
                     (rc, req1) \<Rightarrow> (rc, g1, req1)))"

text \<open>\<open>handle_root\<close>; the embedded page \<open>http_pages::kRoot\<close> is the first argument.\<close>

definition handle_root :: "string \<Rightarrow> build_config \<Rightarrow> handler_env \<Rightarrow> globals \<Rightarrow> httpd_req option \<Rightarrow> esp_err \<times> globals \<times> httpd_req option" where
  "handle_root kRoot cfg env g req =
     (case try_serve_from_fs cfg env g req of
        (rc, g1, req1) \<Rightarrow>
          if rc = ESP_OK then (ESP_OK, g1, req1)
          else if rc \<noteq> ESP_ERR_NOT_FOUND \<and> rc \<noteq> ESP_ERR_NOT_SUPPORTED then
            (case send_text (transport_rc env) req1 500 ''text/plain; charset=utf-8''
                    (Some ''Internal file server error\<newline>'') of
               (rc2, req2) \<Rightarrow> (rc2, g1, req2))
          else
            (case send_template (transport_rc env) req1 (Some kRoot)
                    (Some ''text/html; charset=utf-8'') True of
               (rc2, req2) \<Rightarrow> (rc2, g1, req2)))"

text \<open>
  \<open>handle_favicon_ico\<close>; the embedded icon \<open>http_pages::kFaviconIco\<close> is the first
  argument.
\<close>

definition handle_favicon_ico :: "string \<Rightarrow> build_config \<Rightarrow> handler_env \<Rightarrow> globals \<Rightarrow> httpd_req option \<Rightarrow> esp_err \<times> globals \<times> httpd_req option" where
  "handle_favicon_ico kFaviconIco cfg env g req =
     (case try_serve_from_fs cfg env g req of
        (rc, g1, req1) \<Rightarrow>
          if rc = ESP_OK then (ESP_OK, g1, req1)
          else if rc \<noteq> ESP_ERR_NOT_FOUND \<and> rc \<noteq> ESP_ERR_NOT_SUPPORTED then
            (case send_text (transport_rc env) req1 500 ''text/plain; charset=utf-8''
                    (Some ''Internal file server error\<newline>'') of
               (rc2, req2) \<Rightarrow> (rc2, g1, req2))
          else
            (case httpd_resp_send (transport_rc env) kFaviconIco
                    (httpd_resp_set_type ''image/x-icon'' (set_no_cache_headers req1)) of
               (rc2, req2) \<Rightarrow> (rc2, g1, req2)))"

text \<open>
  The four cache-disabling headers with their values (lines 201-208). A transmission
  carries them when each of the four is among its headers, with its value; it is free
  of them when none of its headers has one of the four names.
\<close>

definition no_cache_headers :: "(string \<times> string) list" where
  "no_cache_headers =
     [(''Cache-Control'', ''no-cache, no-store, must-revalidate''), (''Pragma'', ''no-cache''),
      (''Expires'', ''0''), (''Vary'', ''Accept-Encoding'')]"

definition carries_no_cache :: "transmission \<Rightarrow> bool" where
  "carries_no_cache t = list_all (\<lambda>h. h \<in> set (tx_hdrs t)) no_cache_headers"

definition free_of_no_cache :: "transmission \<Rightarrow> bool" where
  "free_of_no_cache t = (\<not> list_ex (\<lambda>h. fst h \<in> set (map fst no_cache_headers)) (tx_hdrs t))"

definition is_500 :: "transmission \<Rightarrow> bool" where
  "is_500 t = (tx_status t = status_for 500)"

text \<open>A request as the server engine hands it to a handler: nothing set, nothing sent.\<close>

definition fresh_req :: "string \<Rightarrow> httpd_req" where
  "fresh_req u =
     \<lparr>uri = u, resp_status = ''200 OK'', resp_type = ''text/html'', resp_hdrs = [], sent = []\<rparr>"

text \<open>The transmissions on the request when a handler returns.\<close>

definition sent_by :: "esp_err \<times> globals \<times> httpd_req option \<Rightarrow> transmission list" where
  "sent_by out = (case snd (snd out) of None \<Rightarrow> [] | Some r \<Rightarrow> sent r)"

text \<open>
  A scripted platform: the answers to the first calls are listed, every later call is
  answered with \<open>ESP_OK\<close>.
\<close>

definition answers :: "esp_err list \<Rightarrow> nat \<Rightarrow> esp_err" where
  "answers rcs n = (if n < length rcs then rcs ! n else ESP_OK)"

text \<open>The module once the mutex and the event group exist, nothing else done yet.\<close>

definition idle_globals :: globals where
  "idle_globals = boot_globals\<lparr>s_mutex := True, s_evt := True\<rparr>"

text \<open>
  Whether serving the request gets as far as \<open>send_file_stream\<close> with an \<open>fopen\<close> that
  succeeds: file serving is built in, the URI is not empty, the mount is there, the
  resolver selects a file and the file opens.
\<close>

definition opens_file :: "build_config \<Rightarrow> handler_env \<Rightarrow> globals \<Rightarrow> string \<Rightarrow> bool" where
  "opens_file cfg env g u =
     (enable_littlefs cfg \<and> u \<noteq> [] \<and>
      fst (ensure_fs_mounted (vfs_register_rc env) g) = ESP_OK \<and>
      (case resolve_fs_path (fs_at_probe env) (kFsBase cfg) (Some u) of
         None \<Rightarrow> False
       | Some a \<Rightarrow> map_of (fs_at_open env) (out_full_path a) \<noteq> None))"

text \<open>The request after \<open>send_file_stream\<close> has answered a failed \<open>fopen\<close>.\<close>

definition open_failed_req :: "string \<Rightarrow> httpd_req" where
  "open_failed_req u = (fresh_req u)\<lparr>resp_status := status_for 500, resp_type := ''text/plain; charset=utf-8'',
      sent := [\<lparr>tx_kind = Whole, tx_status = status_for 500, tx_type = ''text/plain; charset=utf-8'',
                tx_hdrs = [], tx_body = ''File open failed\<newline>''\<rparr>]\<rparr>"

text \<open>
  Whether serving the request gets as far as calling \<open>send_file_stream\<close>: file
  serving is built in, the URI is not empty, the mount is there and the resolver selects
  a file.
\<close>

definition selects_file :: "build_config \<Rightarrow> handler_env \<Rightarrow> globals \<Rightarrow> string \<Rightarrow> bool" where
  "selects_file cfg env g u =
     (enable_littlefs cfg \<and> u \<noteq> [] \<and>
      fst (ensure_fs_mounted (vfs_register_rc env) g) = ESP_OK \<and>
      resolve_fs_path (fs_at_probe env) (kFsBase cfg) (Some u) \<noteq> None)"

text \<open>
  Two kinds of response, to state what the handlers send: a 500 plain-text response
  with no additional header, and an embedded page or icon sent whole with the four
  cache-disabling headers and no other.
\<close>

definition error_500 :: "string \<Rightarrow> transmission" where
  "error_500 body =
     \<lparr>tx_kind = Whole, tx_status = ''500 Internal Server Error'',
      tx_type = ''text/plain; charset=utf-8'', tx_hdrs = [], tx_body = body\<rparr>"

definition embedded_fallback :: "string \<Rightarrow> string \<Rightarrow> string \<Rightarrow> transmission" where
  "embedded_fallback status ctype body =
     \<lparr>tx_kind = Whole, tx_status = status, tx_type = ctype, tx_hdrs = no_cache_headers,
      tx_body = body\<rparr>"

section \<open>Lifecycle: the lock-protected sections\<close>

text \<open>
  \<open>ensure_mutex\<close>. The two arguments say whether \<open>xSemaphoreCreateMutex\<close> and
  \<open>xEventGroupCreate\<close> return an object when they are called. A new event group has
  no bit set.
\<close>

definition ensure_mutex :: "bool \<Rightarrow> bool \<Rightarrow> globals \<Rightarrow> bool \<times> globals" where
  "ensure_mutex mutex_created evt_created g =
     (let g1 = (if \<not> s_mutex g then g\<lparr>s_mutex := mutex_created\<rparr> else g)
      in if \<not> s_mutex g1 then (False, g1)
         else
           (let g2 = (if \<not> s_evt g1 then g1\<lparr>s_evt := evt_created, ready_bit := False\<rparr> else g1)
            in if \<not> s_evt g2 then (False, g2\<lparr>s_mutex := False\<rparr>)
               else (True, g2)))"

text \<open>
  The first locked section of \<open>start()\<close> (lines 944-961): \<open>False\<close> when \<open>start()\<close>
  returns at once, \<open>True\<close> when it goes on to the attempts.
\<close>

definition start_enter :: "globals \<Rightarrow> bool \<times> globals" where
  "start_enter g =
     (if \<not> lock_mutex g then (False, g)
      else if s_state g = RUNNING \<or> s_state g = STARTING \<or> s_state g = STOPPING then (False, g)
      else (True, g\<lparr>s_state := STARTING, s_task_exit := False, ready_bit := False\<rparr>))"

text \<open>The last locked section of \<open>start()\<close> (lines 1007-1012).\<close>

definition start_final :: "globals \<Rightarrow> globals" where
  "start_final g = (if lock_mutex g then g\<lparr>s_state := STOPPED, ready_bit := False\<rparr> else g)"

text \<open>
  The locked section of \<open>start_server\<close> (lines 683-710). The arguments are the
  \<open>max_open_sockets\<close> of \<open>HTTPD_DEFAULT_CONFIG\<close>, and the result and the handle of
  \<open>httpd_start\<close>. The second component of the result says whether the function goes on
  to mount and to register the default handlers.
\<close>

definition start_server_locked :: "nat \<Rightarrow> esp_err \<Rightarrow> nat \<Rightarrow> globals \<Rightarrow> esp_err \<times> bool \<times> globals" where
  "start_server_locked max_socks rc handle g =
     (if \<not> lock_mutex g then (ESP_FAIL, False, g)
      else if s_server g \<noteq> None then (ESP_OK, False, g)
      else
        (let g1 = g\<lparr>s_max_open_sockets := max_socks\<rparr>
         in if rc \<noteq> ESP_OK then (rc, False, g1\<lparr>s_server := None\<rparr>)
            else (ESP_OK, True, g1\<lparr>s_server := Some handle\<rparr>)))"

text \<open>
  \<open>register_uri_internal\<close>: the first argument is the answer of
  \<open>httpd_register_uri_handler\<close>, the second and third say whether the URI and the
  handler pointers are non-null. The globals do not change.
\<close>

definition register_uri_internal :: "esp_err \<Rightarrow> bool \<Rightarrow> bool \<Rightarrow> globals \<Rightarrow> esp_err" where
  "register_uri_internal engine_rc uri_given handler_given g =
     (if \<not> uri_given \<or> \<not> handler_given then ESP_ERR_INVALID_ARG
      else if \<not> lock_mutex g then ESP_FAIL
      else if (s_state g \<noteq> STARTING \<and> s_state g \<noteq> RUNNING) \<or> s_server g = None
        then ESP_ERR_INVALID_STATE
      else engine_rc)"

text \<open>
  The locked section of \<open>stop_server\<close> (lines 659-672): the handle that is then given
  to \<open>httpd_stop\<close>, if any.
\<close>

definition stop_server_locked :: "globals \<Rightarrow> nat option \<times> globals" where
  "stop_server_locked g =
     (if \<not> lock_mutex g then (None, g)
      else if s_server g = None then (None, g)
      else (s_server g, g\<lparr>s_server := None\<rparr>))"

text \<open>
  The first locked section of \<open>start_worker_task\<close> (lines 835-847): \<open>Some b\<close> when the
  function returns \<open>b\<close> at once, \<open>None\<close> when it goes on to create the task.
\<close>

definition start_worker_check :: "globals \<Rightarrow> bool option \<times> globals" where
  "start_worker_check g =
     (if \<not> lock_mutex g then (Some False, g)
      else if s_task g \<noteq> None then (Some True, g)
      else (None, g\<lparr>s_task_exit := False\<rparr>))"

text \<open>
  The second locked section of \<open>start_worker_task\<close> (lines 867-882), with the handle of
  the task just created: the function's result, whether the new task is deleted again,
  and the globals.
\<close>

definition start_worker_store :: "nat \<Rightarrow> globals \<Rightarrow> bool \<times> bool \<times> globals" where
  "start_worker_store handle g =
     (if \<not> lock_mutex g then (False, True, g)
      else if s_task g \<noteq> None then (True, True, g)
      else (True, False, g\<lparr>s_task := Some handle\<rparr>))"

text \<open>
  The first locked section of \<open>stop_worker_task\<close> (lines 889-902): \<open>Some b\<close> when the
  function returns \<open>b\<close> at once, \<open>None\<close> when it goes on to wake the worker and to poll.
\<close>

definition stop_worker_begin :: "globals \<Rightarrow> bool option \<times> globals" where
  "stop_worker_begin g =
     (if \<not> lock_mutex g then (Some False, g)
      else if s_task g = None then (Some True, g)
      else (None, g\<lparr>s_task_exit := True\<rparr>))"

text \<open>The first locked section of \<open>stop()\<close> (lines 1024-1041), and the last (1052-1057).\<close>

definition stop_enter :: "globals \<Rightarrow> bool \<times> nat option \<times> globals" where
  "stop_enter g =
     (if \<not> lock_mutex g then (False, None, g)
      else if s_state g = STOPPED then (False, None, g)
      else (True, s_task g, g\<lparr>s_state := STOPPING, ready_bit := False, s_task_exit := True\<rparr>))"

definition stop_final :: "globals \<Rightarrow> globals" where
  "stop_final g = (if lock_mutex g then g\<lparr>s_state := STOPPED, ready_bit := False\<rparr> else g)"

text \<open>
  The three locked sections of the worker \<open>http_srv_task\<close>: on its first scheduling
  (lines 758-766), after each wake (772-780, the result is \<open>exit_now\<close>), and on exit
  (785-801).
\<close>

definition worker_init :: "globals \<Rightarrow> globals" where
  "worker_init g =
     (if lock_mutex g then
        (if s_state g = STARTING \<and> s_evt g then g\<lparr>s_state := RUNNING, ready_bit := True\<rparr> else g)
      else g)"

definition worker_check_exit :: "globals \<Rightarrow> bool" where
  "worker_check_exit g = (if lock_mutex g then s_task_exit g else False)"

definition worker_exit :: "globals \<Rightarrow> globals" where
  "worker_exit g =
     (if lock_mutex g then
        (if s_evt g then g\<lparr>ready_bit := False, s_task := None\<rparr> else g\<lparr>s_task := None\<rparr>)
      else (if s_evt g then g\<lparr>ready_bit := False\<rparr> else g))"

section \<open>Lifecycle: the public functions as one task runs them\<close>

type_synonym TickType_t = "32 word"

text \<open>
  The places where \<open>start()\<close> does not hold the lock and other tasks (the worker, other
  callers) may run before its next locked section or its next read of a static.
\<close>

datatype point =
    Before_start_server
  | Before_mount
  | Before_register nat
  | Before_stop_server
  | Before_worker_check
  | Before_worker_store
  | During_ready_wait
  | Before_stop_worker
  | Before_notify
  | Before_poll nat
  | During_backoff
  | Before_final

text \<open>
  What \<open>start()\<close> meets outside itself, per attempt: whether the two FreeRTOS objects can
  be created, the default socket ceiling, the results of \<open>httpd_start\<close>, of the mount
  and of the four registrations, the task handle of \<open>xTaskCreate\<close> (\<open>None\<close> when it
  fails), whether the timed lock of the poll loop is obtained, what the other tasks do
  to the statics at each point, and \<open>pdMS_TO_TICKS\<close>.
\<close>

record lifecycle_env =
  mutex_create_ok :: bool
  evt_create_ok :: bool
  default_max_open_sockets :: nat
  httpd_start_rc :: "nat \<Rightarrow> esp_err"
  httpd_start_handle :: "nat \<Rightarrow> nat"
  mount_rc :: "nat \<Rightarrow> esp_err"
  engine_register_rc :: "nat \<Rightarrow> nat \<Rightarrow> esp_err"
  xTaskCreate_handle :: "nat \<Rightarrow> nat option"
  timed_lock_ok :: "nat \<Rightarrow> nat \<Rightarrow> bool"
  others :: "nat \<Rightarrow> point \<Rightarrow> globals \<Rightarrow> globals"
  pdMS_TO_TICKS :: "nat \<Rightarrow> TickType_t"

text \<open>
  Other tasks run: they may change every static except the mutex and the event group,
  which no code path deletes once both exist.
\<close>

definition yield :: "lifecycle_env \<Rightarrow> nat \<Rightarrow> point \<Rightarrow> globals \<Rightarrow> globals" where
  "yield env attempt p g = (others env attempt p g)\<lparr>s_mutex := s_mutex g, s_evt := s_evt g\<rparr>"

definition stop_server :: "lifecycle_env \<Rightarrow> nat \<Rightarrow> globals \<Rightarrow> globals" where
  "stop_server env attempt g = snd (stop_server_locked (yield env attempt Before_stop_server g))"

text \<open>
  The four default registrations of \<open>start_server\<close>, from the \<open>k\<close>-th on; the first
  failure ends them (\<open>goto fail\<close>).
\<close>

fun register_defaults :: "lifecycle_env \<Rightarrow> nat \<Rightarrow> nat \<Rightarrow> nat \<Rightarrow> globals \<Rightarrow> esp_err \<times> globals" where
  "register_defaults env attempt k 0 g = (ESP_OK, g)"
| "register_defaults env attempt k (Suc n) g =
     (let g1 = yield env attempt (Before_register k) g;
          reg_rc = register_uri_internal (engine_register_rc env attempt k) True True g1
      in if reg_rc \<noteq> ESP_OK then (reg_rc, g1)
         else register_defaults env attempt (Suc k) n g1)"

definition start_server :: "build_config \<Rightarrow> lifecycle_env \<Rightarrow> nat \<Rightarrow> globals \<Rightarrow> esp_err \<times> globals" where
  "start_server cfg env attempt g =
     (case start_server_locked (default_max_open_sockets env) (httpd_start_rc env attempt)
             (httpd_start_handle env attempt) g of
        (rc, fresh, g1) \<Rightarrow>
          if \<not> fresh then (rc, g1)
          else
            (let g2 = (if enable_littlefs cfg
                       then snd (ensure_fs_mounted (mount_rc env) (yield env attempt Before_mount g1))
                       else g1)
             in case register_defaults env attempt 0 4 g2 of
                  (reg_rc, g3) \<Rightarrow>
                    if reg_rc = ESP_OK then (ESP_OK, g3)
                    else (reg_rc, stop_server env attempt g3)))"

definition start_worker_task :: "lifecycle_env \<Rightarrow> nat \<Rightarrow> globals \<Rightarrow> bool \<times> globals" where
  "start_worker_task env attempt g =
     (case start_worker_check (yield env attempt Before_worker_check g) of
        (Some b, g1) \<Rightarrow> (b, g1)
      | (None, g1) \<Rightarrow>
          (case xTaskCreate_handle env attempt of
             None \<Rightarrow> (False, g1)
           | Some handle \<Rightarrow>
               (case start_worker_store handle (yield env attempt Before_worker_store g1) of
                  (ok, deleted, g2) \<Rightarrow> (ok, g2))))"

text \<open>The poll loop of \<open>stop_worker_task\<close> (lines 906-918), from iteration \<open>i\<close> on.\<close>

function stop_worker_poll :: "lifecycle_env \<Rightarrow> nat \<Rightarrow> nat \<Rightarrow> globals \<Rightarrow> bool \<times> globals" where
  "stop_worker_poll env attempt i g =
     (if i < 50 then
        (let g1 = yield env attempt (Before_poll i) g
         in if timed_lock_ok env attempt i \<and> lock_mutex g1 \<and> s_task g1 = None then (True, g1)
            else stop_worker_poll env attempt (Suc i) g1)
      else (False, g))"
  by pat_completeness auto
termination
  by (relation "measure (\<lambda>(env, attempt, i, g). 50 - i)") auto

declare stop_worker_poll.simps [simp del]

definition stop_worker_task :: "lifecycle_env \<Rightarrow> nat \<Rightarrow> globals \<Rightarrow> bool \<times> globals" where
  "stop_worker_task env attempt g =
     (case stop_worker_begin (yield env attempt Before_stop_worker g) of
        (Some b, g1) \<Rightarrow> (b, g1)
      | (None, g1) \<Rightarrow> stop_worker_poll env attempt 0 (yield env attempt Before_notify g1))"

text \<open>What \<open>start()\<close> does itself, in order.\<close>

datatype start_event =
    Ev_start_server esp_err
  | Ev_start_worker_task bool
  | Ev_wait_ready TickType_t bool
  | Ev_stop_worker_task bool
  | Ev_stop_server
  | Ev_delay TickType_t

definition kMaxAttempts :: nat where
  "kMaxAttempts = 5"

definition kInitialBackoff :: "lifecycle_env \<Rightarrow> TickType_t" where
  "kInitialBackoff env = pdMS_TO_TICKS env 50"

definition kWorkerReadyTimeout :: "lifecycle_env \<Rightarrow> TickType_t" where
  "kWorkerReadyTimeout env = pdMS_TO_TICKS env 500"

text \<open>
  The attempt loop of \<open>start()\<close> (lines 969-1005) and the final section behind it. The
  value that \<open>xEventGroupWaitBits\<close> returns has \<open>READY_BIT\<close> set exactly when the bit is
  set at the moment the wait ends.
\<close>

function start_attempts :: "build_config \<Rightarrow> lifecycle_env \<Rightarrow> nat \<Rightarrow> TickType_t \<Rightarrow> globals \<Rightarrow> globals \<times> start_event list" where
  "start_attempts cfg env attempt backoff g =
     (if attempt < kMaxAttempts then
        (case start_server cfg env attempt (yield env attempt Before_start_server g) of
           (srv_ret, g1) \<Rightarrow>
             if srv_ret \<noteq> ESP_OK then
               (case start_attempts cfg env (Suc attempt) (backoff + backoff)
                       (yield env attempt During_backoff g1) of
                  (g', tr) \<Rightarrow> (g', Ev_start_server srv_ret # Ev_delay backoff # tr))
             else
               (case start_worker_task env attempt g1 of
                  (task_ok, g2) \<Rightarrow>
                    if \<not> task_ok then
                      (case start_attempts cfg env (Suc attempt) (backoff + backoff)
                              (yield env attempt During_backoff (stop_server env attempt g2)) of
                         (g', tr) \<Rightarrow>
                           (g', Ev_start_server srv_ret # Ev_start_worker_task False #
                                Ev_stop_server # Ev_delay backoff # tr))
                    else
                      (let g3 = yield env attempt During_ready_wait g2
                       in if ready_bit g3 then
                            (g3, [Ev_start_server srv_ret, Ev_start_worker_task True,
                                  Ev_wait_ready (kWorkerReadyTimeout env) True])
                          else
                            (case stop_worker_task env attempt g3 of
                               (stopped, g4) \<Rightarrow>
                                 (case start_attempts cfg env (Suc attempt) (backoff + backoff)
                                         (yield env attempt During_backoff
                                            (stop_server env attempt g4)) of
                                    (g', tr) \<Rightarrow>
                                      (g', Ev_start_server srv_ret # Ev_start_worker_task True #
                                           Ev_wait_ready (kWorkerReadyTimeout env) False #
                                           Ev_stop_worker_task stopped # Ev_stop_server #
                                           Ev_delay backoff # tr))))))
      else (start_final (yield env attempt Before_final g), []))"
  by pat_completeness auto
termination
  by (relation "measure (\<lambda>(cfg, env, attempt, backoff, g). kMaxAttempts - attempt)") auto

declare start_attempts.simps [simp del]

text \<open>\<open>http_srv::start\<close>. It returns nothing; the result here is the statics and what it did.\<close>

definition start :: "build_config \<Rightarrow> lifecycle_env \<Rightarrow> globals \<Rightarrow> globals \<times> start_event list" where
  "start cfg env g =
     (case ensure_mutex (mutex_create_ok env) (evt_create_ok env) g of
        (ok, g0) \<Rightarrow>
          if \<not> ok then (g0, [])
          else
            (case start_enter g0 of
               (go, g1) \<Rightarrow>
                 if \<not> go then (g1, [])
                 else start_attempts cfg env 0 (kInitialBackoff env) g1))"

text \<open>
  The calls in which FreeRTOS can keep the calling task waiting: \<open>xSemaphoreTake\<close> on
  the module mutex and \<open>xEventGroupWaitBits\<close> on \<open>READY_BIT\<close>, each with its timeout
  in ticks. With \<open>portMAX_DELAY\<close> the wait has no time limit: the take returns only when
  the mutex is free, and other tasks hold it for as long as their locked sections last
  (in \<open>start_server\<close> across \<open>httpd_start\<close>, in \<open>ensure_fs_mounted\<close> across the mount,
  in \<open>register_uri_internal\<close> across the registration).
\<close>

datatype blocking_call =
    Take_mutex TickType_t
  | Wait_ready_bit TickType_t

definition portMAX_DELAY :: TickType_t where
  "portMAX_DELAY = 0xFFFFFFFF"

text \<open>
  The statics as a caller finds them when its \<open>xSemaphoreTake\<close> returns: the other tasks
  have run meanwhile (the first argument is what they did); they do not delete the mutex
  or the event group.
\<close>

definition statics_at_take :: "(globals \<Rightarrow> globals) \<Rightarrow> globals \<Rightarrow> globals" where
  "statics_at_take meanwhile g = (meanwhile g)\<lparr>s_mutex := s_mutex g, s_evt := s_evt g\<rparr>"

text \<open>
  \<open>http_srv::is_running\<close>. The second component of the result lists the blocking calls
  that the function has made, in order.
\<close>

definition is_running :: "bool \<Rightarrow> bool \<Rightarrow> (globals \<Rightarrow> globals) \<Rightarrow> globals \<Rightarrow> bool \<times> blocking_call list \<times> globals" where
  "is_running mutex_created evt_created meanwhile g =
     (case ensure_mutex mutex_created evt_created g of
        (ok, g0) \<Rightarrow>
          if \<not> ok then (False, [], g0)
          else if \<not> lock_mutex g0 then (False, [], g0)
          else
            (let g1 = statics_at_take meanwhile g0
             in (s_state g1 = RUNNING, [Take_mutex portMAX_DELAY], g1)))"

text \<open>
  \<open>http_srv::wait_until_running\<close>. The fourth argument says whether \<open>READY_BIT\<close> is set
  in the value that \<open>xEventGroupWaitBits\<close> returns, should the function get there. The
  second component of the result lists the blocking calls that the function has made, in
  order: none when it returns before \<open>xSemaphoreTake\<close>; else the take of the mutex with
  \<open>portMAX_DELAY\<close>, followed in state \<open>STARTING\<close> by the wait for the readiness bit with
  the caller's timeout.
\<close>

definition wait_until_running :: "bool \<Rightarrow> bool \<Rightarrow> (globals \<Rightarrow> globals) \<Rightarrow> bool \<Rightarrow> TickType_t \<Rightarrow> globals \<Rightarrow> esp_err \<times> blocking_call list \<times> globals" where
  "wait_until_running mutex_created evt_created meanwhile bit_seen timeout_ticks g =
     (case ensure_mutex mutex_created evt_created g of
        (ok, g0) \<Rightarrow>
          if \<not> ok then (ESP_FAIL, [], g0)
          else if \<not> lock_mutex g0 then (ESP_FAIL, [], g0)
          else
            (let g1 = statics_at_take meanwhile g0
             in if s_state g1 = RUNNING then (ESP_OK, [Take_mutex portMAX_DELAY], g1)
                else if s_state g1 = STOPPED \<or> s_state g1 = STOPPING
                  then (ESP_ERR_INVALID_STATE, [Take_mutex portMAX_DELAY], g1)
                else ((if bit_seen then ESP_OK else ESP_ERR_TIMEOUT),
                      [Take_mutex portMAX_DELAY, Wait_ready_bit timeout_ticks], g1)))"

text \<open>
  \<open>http_srv::register_uri\<close> and \<open>http_srv::unregister_uri\<close>. The third argument is the
  answer of the server engine (\<open>httpd_register_uri_handler\<close>,
  \<open>httpd_unregister_uri_handler\<close>) should it be asked; the URI is \<open>None\<close> and the
  handler \<open>None\<close> when the pointer is null. The second component of the result says
  whether the engine has been asked.
\<close>

definition register_uri :: "bool \<Rightarrow> bool \<Rightarrow> esp_err \<Rightarrow> string option \<Rightarrow> nat option \<Rightarrow> globals \<Rightarrow> esp_err \<times> bool \<times> globals" where
  "register_uri mutex_created evt_created engine_rc uri_arg handler g =
     (if uri_arg = None \<or> handler = None then (ESP_ERR_INVALID_ARG, False, g)
      else case ensure_mutex mutex_created evt_created g of
        (ok, g0) \<Rightarrow>
          if \<not> ok then (ESP_FAIL, False, g0)
          else if \<not> lock_mutex g0 then (ESP_FAIL, False, g0)
          else if s_state g0 \<noteq> RUNNING \<or> s_server g0 = None then (ESP_ERR_INVALID_STATE, False, g0)
          else (engine_rc, True, g0))"

definition unregister_uri :: "bool \<Rightarrow> bool \<Rightarrow> esp_err \<Rightarrow> string option \<Rightarrow> globals \<Rightarrow> esp_err \<times> bool \<times> globals" where
  "unregister_uri mutex_created evt_created engine_rc uri_arg g =
     (if uri_arg = None then (ESP_ERR_INVALID_ARG, False, g)
      else case ensure_mutex mutex_created evt_created g of
        (ok, g0) \<Rightarrow>
          if \<not> ok then (ESP_FAIL, False, g0)
          else if \<not> lock_mutex g0 then (ESP_FAIL, False, g0)
          else if s_state g0 \<noteq> RUNNING \<or> s_server g0 = None then (ESP_ERR_INVALID_STATE, False, g0)
          else (engine_rc, True, g0))"

text \<open>What the trace of \<open>start()\<close> says: the bring-ups it tried, the delays and the waits.\<close>

fun bring_ups :: "start_event list \<Rightarrow> nat" where
  "bring_ups [] = 0"
| "bring_ups (Ev_start_server rc # tr) = Suc (bring_ups tr)"
| "bring_ups (e # tr) = bring_ups tr"

fun delays :: "start_event list \<Rightarrow> TickType_t list" where
  "delays [] = []"
| "delays (Ev_delay d # tr) = d # delays tr"
| "delays (e # tr) = delays tr"

fun ready_waits :: "start_event list \<Rightarrow> TickType_t list" where
  "ready_waits [] = []"
| "ready_waits (Ev_wait_ready t b # tr) = t # ready_waits tr"
| "ready_waits (e # tr) = ready_waits tr"

text \<open>
  The shape of a trace made of attempts: a failed bring-up and its delay; or a bring-up,
  a failed task creation, the server stopped again and the delay; or a bring-up, the
  task created, a ready wait that times out, the worker and the server stopped again
  and the delay; or, last of all, a bring-up, the task created and a ready wait that
  sees the bit.
\<close>

fun attempts_shape :: "start_event list \<Rightarrow> bool" where
  "attempts_shape [] = True"
| "attempts_shape (e # tr) =
     (case e of
        Ev_start_server rc \<Rightarrow>
          (case tr of
             Ev_delay d # tr1 \<Rightarrow> rc \<noteq> ESP_OK \<and> attempts_shape tr1
           | Ev_start_worker_task task_ok # tr1 \<Rightarrow>
               rc = ESP_OK \<and>
               (if \<not> task_ok then
                  (case tr1 of
                     Ev_stop_server # Ev_delay d # tr2 \<Rightarrow> attempts_shape tr2
                   | _ \<Rightarrow> False)
                else
                  (case tr1 of
                     Ev_wait_ready t seen # tr2 \<Rightarrow>
                       (if seen then tr2 = []
                        else
                          (case tr2 of
                             Ev_stop_worker_task b # Ev_stop_server # Ev_delay d # tr3 \<Rightarrow>
                               attempts_shape tr3
                           | _ \<Rightarrow> False))
                   | _ \<Rightarrow> False))
           | _ \<Rightarrow> False)
      | _ \<Rightarrow> False)"

text \<open>The delays of a backoff that starts at \<open>b\<close> and doubles: \<open>b\<close>, \<open>2b\<close>, \<open>4b\<close>, ...\<close>

fun doubling :: "TickType_t \<Rightarrow> nat \<Rightarrow> TickType_t list" where
  "doubling b 0 = []"
| "doubling b (Suc n) = b # doubling (b + b) n"

text \<open>
  How a run of attempts can end: with a ready wait that saw the bit, the bit set in the
  statics; or exhausted, after \<open>n\<close> bring-ups and \<open>n\<close> delays, in state \<open>STOPPED\<close> with
  the bit cleared.
\<close>

definition ended_ready :: "lifecycle_env \<Rightarrow> globals \<times> start_event list \<Rightarrow> bool" where
  "ended_ready env R =
     (snd R \<noteq> [] \<and> last (snd R) = Ev_wait_ready (kWorkerReadyTimeout env) True \<and>
      ready_bit (fst R))"

definition ended_exhausted :: "nat \<Rightarrow> globals \<times> start_event list \<Rightarrow> bool" where
  "ended_exhausted n R =
     (bring_ups (snd R) = n \<and> length (delays (snd R)) = n \<and>
      s_state (fst R) = STOPPED \<and> \<not> ready_bit (fst R))"

text \<open>
  What is claimed of the attempt loop when it is entered with attempt number \<open>a\<close> and
  backoff \<open>b\<close>: a trace made of attempts; at most the remaining number of bring-ups; one
  delay for each bring-up except possibly the last; every ready wait with the 500 ms
  timeout; delays that start at \<open>b\<close> and double; and a run that ends ready, or else
  exhausted after all the remaining attempts.
\<close>

definition attempts_contract :: "lifecycle_env \<Rightarrow> nat \<Rightarrow> TickType_t \<Rightarrow> globals \<times> start_event list \<Rightarrow> bool" where
  "attempts_contract env a b R =
     (attempts_shape (snd R) \<and>
      bring_ups (snd R) \<le> kMaxAttempts - a \<and>
      length (delays (snd R)) \<le> bring_ups (snd R) \<and>
      bring_ups (snd R) \<le> Suc (length (delays (snd R))) \<and>
      set (ready_waits (snd R)) \<subseteq> {kWorkerReadyTimeout env} \<and>
      delays (snd R) = doubling b (length (delays (snd R))) \<and>
      (ended_ready env R \<or> ended_exhausted (kMaxAttempts - a) R))"

section \<open>Example platforms\<close>

text \<open>
  One tick per millisecond, no other task running. On the first platform the heap has
  no room for the mutex; on the second \<open>httpd_start\<close> fails every time; on the third
  everything succeeds and the worker gets its first run while \<open>start()\<close> waits for the
  readiness bit.
\<close>

definition platform_no_memory :: lifecycle_env where
  "platform_no_memory =
     \<lparr>mutex_create_ok = False, evt_create_ok = False, default_max_open_sockets = 7,
      httpd_start_rc = (\<lambda>a. ESP_OK), httpd_start_handle = Suc, mount_rc = (\<lambda>n. ESP_OK),
      engine_register_rc = (\<lambda>a k. ESP_OK), xTaskCreate_handle = (\<lambda>a. Some (Suc a)),
      timed_lock_ok = (\<lambda>a i. True), others = (\<lambda>a p g. g), pdMS_TO_TICKS = of_nat\<rparr>"

definition platform_no_server :: lifecycle_env where
  "platform_no_server =
     \<lparr>mutex_create_ok = True, evt_create_ok = True, default_max_open_sockets = 7,
      httpd_start_rc = (\<lambda>a. ESP_FAIL), httpd_start_handle = Suc, mount_rc = (\<lambda>n. ESP_OK),
      engine_register_rc = (\<lambda>a k. ESP_OK), xTaskCreate_handle = (\<lambda>a. Some (Suc a)),
      timed_lock_ok = (\<lambda>a i. True), others = (\<lambda>a p g. g), pdMS_TO_TICKS = of_nat\<rparr>"

definition platform_prompt_worker :: lifecycle_env where
  "platform_prompt_worker =
     \<lparr>mutex_create_ok = True, evt_create_ok = True, default_max_open_sockets = 7,
      httpd_start_rc = (\<lambda>a. ESP_OK), httpd_start_handle = Suc, mount_rc = (\<lambda>n. ESP_OK),
      engine_register_rc = (\<lambda>a k. ESP_OK), xTaskCreate_handle = (\<lambda>a. Some (Suc a)),
      timed_lock_ok = (\<lambda>a i. True),
      others = (\<lambda>a p g. if p = During_ready_wait then worker_init g else g),
      pdMS_TO_TICKS = of_nat\<rparr>"

text \<open>The statics as a successful \<open>start()\<close> leaves them.\<close>

definition running_globals :: globals where
  "running_globals = idle_globals\<lparr>s_state := RUNNING, ready_bit := True, s_server := Some 1, s_task := Some 1\<rparr>"


section \<open>The tasks together: callers of start() and stop(), and the workers\<close>

text \<open>
  The module's tasks run interleaved. One step of the system is one locked section, or
  one read or write of a static or one call of the platform made outside the lock, of
  one task; what a task does next is its program counter. \<open>ensure_mutex\<close> runs without
  the lock: each of its tests of \<open>s_mutex\<close> and \<open>s_evt\<close>, each creation with the store
  of its result, and the deletion of the mutex is a step of its own, so that two callers
  that both find \<open>s_mutex\<close> null both create a mutex. Timing is left out: a wait or a
  delay is a step that can be taken at any moment, and the loop variable \<open>backoff\<close> of
  \<open>start()\<close> is not carried along. \<open>clear_deferred_state\<close>, which only takes and
  releases the lock, is not a step.

  A locked section is taken as one step. That is what the code does as long as all the
  tasks lock one and the same mutex. The system counts the mutexes and the event groups
  made so far. Once a second mutex has been made, or the one mutex has been deleted,
  tasks can hold different mutexes and their sections can overlap: the accesses of the
  tasks to the statics are then no longer ordered by the lock, and the model does not
  say what happens. The steps other than those of \<open>ensure_mutex\<close> are therefore
  defined in the settled states only (see \<open>settled\<close> and \<open>step\<close> below), which no step
  leaves.
\<close>

text \<open>\<open>stop_worker_task\<close> and \<open>stop_server\<close> are called from \<open>start()\<close> and from \<open>stop()\<close>.\<close>

datatype ctx = In_start nat | In_stop

text \<open>The public function that a caller is in while it runs \<open>ensure_mutex\<close>.\<close>

datatype api = Api_start | Api_stop

text \<open>
  The program counter of a task that calls the public functions. The first seven after
  \<open>Idle\<close> are the steps of \<open>ensure_mutex\<close> (lines 806-831): the test of \<open>s_mutex\<close>, the
  creation of the mutex with the store of the result, the test of the result (a second
  read of the static, as the source has it), the same three for \<open>s_evt\<close>, and the
  deletion of the mutex when the event group could not be created. The number carried by the counters of \<open>start()\<close> is the loop variable
  \<open>attempt\<close>.
\<close>

datatype cpc =
    Idle
  | E_MutexTest api
  | E_MutexCreate api
  | E_MutexRetest api
  | E_EvtTest api
  | E_EvtCreate api
  | E_EvtRetest api
  | E_MutexDelete api
  | S_Enter
  | S_Attempt nat
  | S_Mount nat
  | S_Register nat nat
  | S_WorkerCheck nat
  | S_TaskCreate nat
  | S_WorkerStore nat nat
  | S_Wait nat
  | S_Backoff nat
  | P_Enter
  | P_FirstNotify
  | P_Final
  | C_StopWorker ctx
  | C_Notify ctx
  | C_Poll ctx nat
  | C_StopServer ctx

text \<open>Where a caller goes when \<open>ensure_mutex\<close> returns \<open>true\<close>.\<close>

fun entered :: "api \<Rightarrow> cpc" where
  "entered Api_start = S_Enter"
| "entered Api_stop = P_Enter"

text \<open>
  The steps of \<open>ensure_mutex\<close> that come after a test has found \<open>s_mutex\<close> or \<open>s_evt\<close>
  null: a caller at one of them is about to write the static or to test what it wrote.
\<close>

fun creating :: "cpc \<Rightarrow> bool" where
  "creating (E_MutexCreate c) = True"
| "creating (E_MutexRetest c) = True"
| "creating (E_EvtCreate c) = True"
| "creating (E_EvtRetest c) = True"
| "creating (E_MutexDelete c) = True"
| "creating pc = False"

text \<open>
  A worker task \<open>http_srv_task\<close>: created and not yet run, blocked in
  \<open>ulTaskNotifyTake\<close>, woken and about to read the exit flag, about to leave, deleted.
  \<open>notified\<close> is its pending task notification.
\<close>

datatype wpc = W_Init | W_Wait | W_Check | W_Exit | W_Dead

record wtask =
  wpc :: wpc
  notified :: bool

text \<open>
  The system: the statics, the callers, the workers created so far (a worker's handle is
  its position in the list), the number of servers started so far, which gives the
  next server handle, and the numbers of mutexes and of event groups made so far.
\<close>

record sys =
  G :: globals
  callers :: "cpc list"
  workers :: "wtask list"
  servers_started :: nat
  mutexes_made :: nat
  evts_made :: nat

definition boot_sys :: "nat \<Rightarrow> sys" where
  "boot_sys n =
     \<lparr>G = boot_globals, callers = replicate n Idle, workers = [], servers_started = 0,
      mutexes_made = 0, evts_made = 0\<rparr>"

text \<open>
  A settled state: the one mutex and the one event group ever made are in place, and no
  caller is in the part of \<open>ensure_mutex\<close> that makes or deletes one. From here on
  \<open>ensure_mutex\<close> only reads, every task locks the same mutex, and the locked sections
  exclude each other.
\<close>

definition settled :: "sys \<Rightarrow> bool" where
  "settled s =
     (s_mutex (G s) \<and> s_evt (G s) \<and> mutexes_made s = 1 \<and> evts_made s = 1 \<and>
      list_all (\<lambda>pc. \<not> creating pc) (callers s))"

text \<open>\<open>xTaskNotifyGive\<close> on a handle; a deleted task takes no notification.\<close>

definition notify :: "nat \<Rightarrow> wtask list \<Rightarrow> wtask list" where
  "notify h ws =
     (if h < length ws \<and> wpc (ws ! h) \<noteq> W_Dead then ws[h := (ws ! h)\<lparr>notified := True\<rparr>] else ws)"

text \<open>\<open>notify_worker\<close>: reads \<open>s_task\<close> without the lock.\<close>

definition notify_worker :: "sys \<Rightarrow> sys" where
  "notify_worker s =
     (case s_task (G s) of None \<Rightarrow> s | Some h \<Rightarrow> s\<lparr>workers := notify h (workers s)\<rparr>)"

text \<open>\<open>vTaskDelete\<close> of a worker from outside.\<close>

definition delete_task :: "nat \<Rightarrow> wtask list \<Rightarrow> wtask list" where
  "delete_task h ws = (if h < length ws then ws[h := (ws ! h)\<lparr>wpc := W_Dead\<rparr>] else ws)"

text \<open>Where a caller goes after \<open>stop_server\<close>.\<close>

fun after_stop_server :: "ctx \<Rightarrow> cpc" where
  "after_stop_server (In_start a) = S_Backoff a"
| "after_stop_server In_stop = P_Final"

text \<open>
  One step of a caller at program counter \<open>pc\<close>. \<open>rc\<close> is the result of the platform call
  of this step, if it makes one (\<open>httpd_start\<close>, the mount, a registration); \<open>ok\<close> says
  whether its allocation (\<open>xSemaphoreCreateMutex\<close>, \<open>xTaskCreate\<close>) or its timed lock
  succeeds; \<open>ok2\<close> whether \<open>xEventGroupCreate\<close> succeeds. The result is the caller's next
  program counter and the system. A new event group has no bit set.
\<close>

fun caller_step :: "build_config \<Rightarrow> nat \<Rightarrow> esp_err \<Rightarrow> bool \<Rightarrow> bool \<Rightarrow> cpc \<Rightarrow> sys \<Rightarrow> cpc \<times> sys" where
  "caller_step cfg max_socks rc ok ok2 Idle s = (Idle, s)"
| "caller_step cfg max_socks rc ok ok2 (E_MutexTest c) s =
     (if \<not> s_mutex (G s) then (E_MutexCreate c, s) else (E_EvtTest c, s))"
| "caller_step cfg max_socks rc ok ok2 (E_MutexCreate c) s =
     (E_MutexRetest c,
      s\<lparr>G := (G s)\<lparr>s_mutex := ok\<rparr>,
        mutexes_made := (if ok then Suc (mutexes_made s) else mutexes_made s)\<rparr>)"
| "caller_step cfg max_socks rc ok ok2 (E_MutexRetest c) s =
     (if \<not> s_mutex (G s) then (Idle, s) else (E_EvtTest c, s))"
| "caller_step cfg max_socks rc ok ok2 (E_EvtTest c) s =
     (if \<not> s_evt (G s) then (E_EvtCreate c, s) else (entered c, s))"
| "caller_step cfg max_socks rc ok ok2 (E_EvtCreate c) s =
     (E_EvtRetest c,
      s\<lparr>G := (G s)\<lparr>s_evt := ok2, ready_bit := False\<rparr>,
        evts_made := (if ok2 then Suc (evts_made s) else evts_made s)\<rparr>)"
| "caller_step cfg max_socks rc ok ok2 (E_EvtRetest c) s =
     (if \<not> s_evt (G s) then (E_MutexDelete c, s) else (entered c, s))"
| "caller_step cfg max_socks rc ok ok2 (E_MutexDelete c) s =
     (Idle, s\<lparr>G := (G s)\<lparr>s_mutex := False\<rparr>\<rparr>)"
| "caller_step cfg max_socks rc ok ok2 S_Enter s =
     (case start_enter (G s) of
        (go, g1) \<Rightarrow> (if go then S_Attempt 0 else Idle, s\<lparr>G := g1\<rparr>))"
| "caller_step cfg max_socks rc ok ok2 (S_Attempt a) s =
     (if a < kMaxAttempts then
        (case start_server_locked max_socks rc (servers_started s) (G s) of
           (srv_rc, fresh, g1) \<Rightarrow>
             if fresh then (S_Mount a, s\<lparr>G := g1, servers_started := Suc (servers_started s)\<rparr>)
             else if srv_rc = ESP_OK then (S_WorkerCheck a, s\<lparr>G := g1\<rparr>)
             else (S_Backoff a, s\<lparr>G := g1\<rparr>))
      else (Idle, s\<lparr>G := start_final (G s)\<rparr>))"
| "caller_step cfg max_socks rc ok ok2 (S_Mount a) s =
     (S_Register a 0,
      if enable_littlefs cfg then s\<lparr>G := snd (ensure_fs_mounted (\<lambda>n. rc) (G s))\<rparr> else s)"
| "caller_step cfg max_socks rc ok ok2 (S_Register a k) s =
     (if register_uri_internal rc True True (G s) \<noteq> ESP_OK then (C_StopServer (In_start a), s)
      else if k < 3 then (S_Register a (Suc k), s)
      else (S_WorkerCheck a, s))"
| "caller_step cfg max_socks rc ok ok2 (S_WorkerCheck a) s =
     (case start_worker_check (G s) of
        (Some True, g1) \<Rightarrow> (S_Wait a, s\<lparr>G := g1\<rparr>)
      | (Some False, g1) \<Rightarrow> (C_StopServer (In_start a), s\<lparr>G := g1\<rparr>)
      | (None, g1) \<Rightarrow> (S_TaskCreate a, s\<lparr>G := g1\<rparr>))"
| "caller_step cfg max_socks rc ok ok2 (S_TaskCreate a) s =
     (if ok then
        (S_WorkerStore a (length (workers s)),
         s\<lparr>workers := workers s @ [\<lparr>wpc = W_Init, notified = False\<rparr>]\<rparr>)
      else (C_StopServer (In_start a), s))"
| "caller_step cfg max_socks rc ok ok2 (S_WorkerStore a h) s =
     (case start_worker_store h (G s) of
        (task_ok, deleted, g1) \<Rightarrow>
          (if task_ok then S_Wait a else C_StopServer (In_start a),
           s\<lparr>G := g1, workers := (if deleted then delete_task h (workers s) else workers s)\<rparr>))"
| "caller_step cfg max_socks rc ok ok2 (S_Wait a) s =
     (if ready_bit (G s) then (Idle, s) else (C_StopWorker (In_start a), s))"
| "caller_step cfg max_socks rc ok ok2 (S_Backoff a) s = (S_Attempt (Suc a), s)"
| "caller_step cfg max_socks rc ok ok2 P_Enter s =
     (case stop_enter (G s) of
        (go, worker, g1) \<Rightarrow>
          (if \<not> go then Idle else if worker \<noteq> None then P_FirstNotify else C_StopWorker In_stop,
           s\<lparr>G := g1\<rparr>))"
| "caller_step cfg max_socks rc ok ok2 P_FirstNotify s = (C_StopWorker In_stop, notify_worker s)"
| "caller_step cfg max_socks rc ok ok2 P_Final s = (Idle, s\<lparr>G := stop_final (G s)\<rparr>)"
| "caller_step cfg max_socks rc ok ok2 (C_StopWorker c) s =
     (case stop_worker_begin (G s) of
        (Some b, g1) \<Rightarrow> (C_StopServer c, s\<lparr>G := g1\<rparr>)
      | (None, g1) \<Rightarrow> (C_Notify c, s\<lparr>G := g1\<rparr>))"
| "caller_step cfg max_socks rc ok ok2 (C_Notify c) s = (C_Poll c 0, notify_worker s)"
| "caller_step cfg max_socks rc ok ok2 (C_Poll c i) s =
     (if i < 50 then
        (if ok \<and> lock_mutex (G s) \<and> s_task (G s) = None then (C_StopServer c, s)
         else (C_Poll c (Suc i), s))
      else (C_StopServer c, s))"
| "caller_step cfg max_socks rc ok ok2 (C_StopServer c) s =
     (after_stop_server c, s\<lparr>G := snd (stop_server_locked (G s))\<rparr>)"

text \<open>One step of a worker; \<open>None\<close> when it is blocked or deleted.\<close>

definition worker_step :: "wtask \<Rightarrow> globals \<Rightarrow> (wtask \<times> globals) option" where
  "worker_step w g =
     (case wpc w of
        W_Init \<Rightarrow> Some (w\<lparr>wpc := W_Wait\<rparr>, worker_init g)
      | W_Wait \<Rightarrow> (if notified w then Some (w\<lparr>wpc := W_Check, notified := False\<rparr>, g) else None)
      | W_Check \<Rightarrow> Some (w\<lparr>wpc := (if worker_check_exit g then W_Exit else W_Wait)\<rparr>, g)
      | W_Exit \<Rightarrow> Some (w\<lparr>wpc := W_Dead\<rparr>, worker_exit g)
      | W_Dead \<Rightarrow> None)"

text \<open>
  What can happen next: an idle caller calls \<open>start()\<close> or \<open>stop()\<close>, a caller inside a
  call takes its next step, or a worker takes its next step.
\<close>

datatype action =
    Call_start nat
  | Call_stop nat
  | Run nat esp_err bool bool
  | Work nat

text \<open>The steps of \<open>ensure_mutex\<close>.\<close>

fun in_ensure :: "cpc \<Rightarrow> bool" where
  "in_ensure (E_MutexTest c) = True"
| "in_ensure (E_MutexCreate c) = True"
| "in_ensure (E_MutexRetest c) = True"
| "in_ensure (E_EvtTest c) = True"
| "in_ensure (E_EvtCreate c) = True"
| "in_ensure (E_EvtRetest c) = True"
| "in_ensure (E_MutexDelete c) = True"
| "in_ensure pc = False"

text \<open>
  What an action leads to. \<open>Next\<close>: the state after the step. \<open>Disabled\<close>: the action
  cannot be taken (there is no such task; the caller is idle, or is not idle when it is
  to make a call; the worker is blocked or deleted). \<open>Beyond\<close>: the step is a locked
  section, or another step outside \<open>ensure_mutex\<close>, and the state is not settled; the
  tasks then need not lock one and the same mutex, and what the code does is beyond
  this model.
\<close>

datatype outcome = Next sys | Disabled | Beyond

fun step :: "build_config \<Rightarrow> nat \<Rightarrow> action \<Rightarrow> sys \<Rightarrow> outcome" where
  "step cfg max_socks (Call_start i) s =
     (if i < length (callers s) \<and> callers s ! i = Idle
      then Next (s\<lparr>callers := (callers s)[i := E_MutexTest Api_start]\<rparr>) else Disabled)"
| "step cfg max_socks (Call_stop i) s =
     (if i < length (callers s) \<and> callers s ! i = Idle
      then Next (s\<lparr>callers := (callers s)[i := E_MutexTest Api_stop]\<rparr>) else Disabled)"
| "step cfg max_socks (Run i rc ok ok2) s =
     (if i < length (callers s) \<and> callers s ! i \<noteq> Idle then
        (if in_ensure (callers s ! i) \<or> settled s then
           (case caller_step cfg max_socks rc ok ok2 (callers s ! i) s of
              (pc, s1) \<Rightarrow> Next (s1\<lparr>callers := (callers s1)[i := pc]\<rparr>))
         else Beyond)
      else Disabled)"
| "step cfg max_socks (Work h) s =
     (if h < length (workers s) then
        (if settled s then
           (case worker_step (workers s ! h) (G s) of
              None \<Rightarrow> Disabled
            | Some (w, g1) \<Rightarrow> Next (s\<lparr>G := g1, workers := (workers s)[h := w]\<rparr>))
         else Beyond)
      else Disabled)"

text \<open>
  A run of the system: the actions are taken in order, each from the state before; there
  is no run when one of them does not lead to a next state.
\<close>

fun exec :: "build_config \<Rightarrow> nat \<Rightarrow> action list \<Rightarrow> sys \<Rightarrow> sys option" where
  "exec cfg max_socks [] s = Some s"
| "exec cfg max_socks (a # as) s =
     (case step cfg max_socks a s of Next s1 \<Rightarrow> exec cfg max_socks as s1 | _ \<Rightarrow> None)"








definition run_two_first_callers :: "action list" where
  "run_two_first_callers =
     [Call_start 0, Call_start 1, Run 0 ESP_OK True True, Run 1 ESP_OK True True,
      Run 0 ESP_OK True True, Run 1 ESP_OK True True] @
     replicate 4 (Run 0 ESP_OK True True)"

section \<open>Properties of the resolver\<close>

lemma has_dotdot_Nil: "has_dotdot [] = False" by (simp add: has_dotdot_def)
lemma has_dotdot_single: "has_dotdot [c] = False" by (simp add: has_dotdot_def)
lemma has_dotdot_Cons2:
  "has_dotdot (a # b # cs) = ((a = CHR ''.'' \<and> b = CHR ''.'') \<or> has_dotdot (b # cs))"
  by (auto simp add: has_dotdot_def)

lemma has_dotdot_iff: "has_dotdot s \<longleftrightarrow> (\<exists>a b. s = a @ ''..'' @ b)"
proof (induction s rule: induct_list012)
  case 1 show ?case by (simp add: has_dotdot_Nil)
next
  case (2 x) show ?case by (auto simp add: has_dotdot_single Cons_eq_append_conv)
next
  case (3 x y zs)
  show ?case
  proof
    assume "has_dotdot (x # y # zs)"
    then consider "x = CHR ''.'' \<and> y = CHR ''.''" | "has_dotdot (y # zs)"
      by (auto simp add: has_dotdot_Cons2)
    then show "\<exists>a b. x # y # zs = a @ ''..'' @ b"
    proof cases
      case 1
      then have "x # y # zs = [] @ ''..'' @ zs" by simp
      then show ?thesis by blast
    next
      case 2
      with 3 obtain a b where "y # zs = a @ ''..'' @ b" by blast
      then have "x # y # zs = (x # a) @ ''..'' @ b" by simp
      then show ?thesis by blast
    qed
  next
    assume "\<exists>a b. x # y # zs = a @ ''..'' @ b"
    then obtain a b where ab: "x # y # zs = a @ ''..'' @ b" by blast
    show "has_dotdot (x # y # zs)"
    proof (cases a)
      case Nil
      with ab show ?thesis by (simp add: has_dotdot_Cons2)
    next
      case (Cons a0 a')
      with ab have "y # zs = a' @ ''..'' @ b" by simp
      with 3 have "has_dotdot (y # zs)" by blast
      then show ?thesis by (simp add: has_dotdot_Cons2)
    qed
  qed
qed

lemma ends_with_iff: "ends_with s suf \<longleftrightarrow> (\<exists>a. s = a @ suf)"
  unfolding ends_with_def
  by (metis append_eq_conv_conj append_take_drop_id diff_add_inverse2 le_add2 length_append length_drop)

lemma ends_with_append [simp]: "ends_with (a @ suf) suf"
  by (auto simp add: ends_with_iff)

lemma has_dotdot_append_plain:
  assumes "\<not> has_dotdot (c # q)" and "c \<noteq> CHR ''.''"
  shows "has_dotdot (p @ c # q) = has_dotdot p"
proof (induction p rule: induct_list012)
  case 1 show ?case using assms by (simp add: has_dotdot_Nil)
next
  case (2 x) show ?case using assms by (simp add: has_dotdot_single has_dotdot_Cons2)
next
  case (3 x y zs)
  then show ?case by (simp add: has_dotdot_Cons2)
qed

lemma has_dotdot_append_gz:
  assumes "\<not> ends_with p ''.''"
  shows "has_dotdot (p @ ''.gz'') = has_dotdot p"
  using assms
proof (induction p rule: induct_list012)
  case 1 show ?case by (simp add: has_dotdot_Nil has_dotdot_Cons2 has_dotdot_single)
next
  case (2 x) then show ?case 
    by (simp add: has_dotdot_Nil has_dotdot_Cons2 has_dotdot_single ends_with_def)
next
  case (3 x y zs)
  have "ends_with (x # y # zs) ''.'' = ends_with (y # zs) ''.''"
    by (simp add: ends_with_def)
  with 3 show ?case by (simp add: has_dotdot_Cons2)
qed

lemma logical_path_gz:
  assumes "p \<noteq> []" "\<not> ends_with p ''/''" "\<not> ends_with p ''.gz''"
  shows "logical_path (p @ ''.gz'') = logical_path p"
proof -
  have 1: "index_default p = p" using assms
    by (cases p rule: rev_cases) (auto simp add: index_default_def Let_def ends_with_def)
  have 2: "index_default (p @ ''.gz'') = p @ ''.gz''"
    by (simp add: index_default_def Let_def)
  have e: "ends_with (p @ ''.gz'') ''.gz''" by (rule ends_with_append)
  have 3: "strip_gz (p @ ''.gz'') = p"
    using assms(1) e by (cases p) (simp_all add: strip_gz_def)
  have 4: "strip_gz p = p" using assms(3) by (simp add: strip_gz_def)
  show ?thesis by (simp add: logical_path_def 1 2 3 4)
qed

text \<open>
  Claim C9. For a request path \<open>p\<close> that begins with a separator, contains no \<open>..\<close> and
  does not end in \<open>/\<close>, \<open>.\<close> or \<open>.gz\<close>, resolving \<open>p\<close> with \<open>.gz\<close> appended gives
  the same outcome as resolving \<open>p\<close>: the same probes in the same order and the same
  result (full path, content type and compression flag, or not-found).
\<close>

theorem resolve_gz_suffix_same:
  assumes "p \<noteq> []" and "hd p = CHR ''/''" and "\<not> has_dotdot p"
    and "\<not> ends_with p ''/''" and "\<not> ends_with p ''.''" and "\<not> ends_with p ''.gz''"
  shows "resolve_fs_path_probes fs base (Some (p @ ''.gz'')) = resolve_fs_path_probes fs base (Some p)"
  using assms
  by (simp add: resolve_fs_path_probes_def has_dotdot_append_gz logical_path_gz)

theorem resolve_gz_suffix_same_witness:
  "''/app.js'' \<noteq> [] \<and> hd ''/app.js'' = CHR ''/'' \<and> \<not> has_dotdot ''/app.js'' \<and>
   \<not> ends_with ''/app.js'' ''/'' \<and> \<not> ends_with ''/app.js'' ''.'' \<and>
   \<not> ends_with ''/app.js'' ''.gz'' \<and>
   resolve_fs_path_probes [(''/littlefs/app.js.gz'', ''z'')] ''/littlefs'' (Some (''/app.js'' @ ''.gz'')) =
   resolve_fs_path_probes [(''/littlefs/app.js.gz'', ''z'')] ''/littlefs'' (Some ''/app.js'')"
proof -
  have h: "''/app.js'' \<noteq> []" "hd ''/app.js'' = CHR ''/''" "\<not> has_dotdot ''/app.js''"
    "\<not> ends_with ''/app.js'' ''/''" "\<not> ends_with ''/app.js'' ''.''"
    "\<not> ends_with ''/app.js'' ''.gz''"
    by (simp_all add: has_dotdot_def ends_with_def)
  show ?thesis
    using resolve_gz_suffix_same [OF h, of "[(''/littlefs/app.js.gz'', ''z'')]" "''/littlefs''"] h
    by simp
qed

lemma index_default_slash:
  assumes "p \<noteq> []" "last p = CHR ''/''"
  shows "index_default (p @ ''index.html'') = index_default p"
  using assms by (auto simp add: index_default_def Let_def)

lemma trailing_slash_index:
  assumes "p \<noteq> []" "last p = CHR ''/''"
  shows "resolve_fs_path_probes fs base (Some (p @ ''index.html'')) = resolve_fs_path_probes fs base (Some p)"
proof -
  have "\<not> has_dotdot ''index.html''" by (simp add: has_dotdot_def)
  then have "has_dotdot (p @ ''index.html'') = has_dotdot p"
    using has_dotdot_append_plain [of "CHR ''i''" "''ndex.html''" p] by simp
  moreover have "index_default (p @ ''index.html'') = index_default p"
    using assms by (rule index_default_slash)
  moreover have "hd (p @ ''index.html'') = hd p" using assms by simp
  ultimately show ?thesis using assms(1)
    by (simp add: resolve_fs_path_probes_def logical_path_def)
qed


lemma candidates_of_spec: "candidates_of l = spec_candidate_list l"
proof -
  have a: "take (length l - 5) l @ ''.htm'' \<noteq> l" if "ends_with l ''.html''"
  proof
    assume "take (length l - 5) l @ ''.htm'' = l"
    then have "length (take (length l - 5) l @ ''.htm'') = length l" by simp
    moreover have "length l \<ge> 5" using that by (simp add: ends_with_def)
    ultimately show False by simp
  qed
  have b: "take (length l - 4) l @ ''.html'' \<noteq> l" if "ends_with l ''.htm''"
  proof
    assume "take (length l - 4) l @ ''.html'' = l"
    then have "length (take (length l - 4) l @ ''.html'') = length l" by simp
    moreover have "length l \<ge> 4" using that by (simp add: ends_with_def)
    ultimately show False by simp
  qed
  show ?thesis using a b by (simp add: candidates_of_def spec_candidate_list_def Let_def)
qed

lemma probe_candidates_spec:
  "probe_candidates fs base cands =
     (spec_probe_sequence fs base cands, spec_first_existing fs base cands)"
proof (induction cands)
  case Nil
  show ?case by (simp add: spec_probe_sequence_def spec_first_existing_def spec_search_order_def)
next
  case (Cons c cs)
  then show ?case
    by (simp add: spec_probe_sequence_def spec_first_existing_def spec_search_order_def
        spec_variants_def Let_def)
qed

text \<open>
  Claim C3, as amended. For a request path that begins with a separator and contains no
  \<open>..\<close>, the resolver searches the candidate list of the specification (the logical
  path, then the alias with the other spelling of \<open>.html\<close>/\<open>.htm\<close>), probing for each
  candidate first the \<open>.gz\<close> sibling and then the plain file, and selects the first
  existing file of the whole list, or reports not-found when there is none.
\<close>

theorem resolver_search_order:
  assumes "u \<noteq> []" and "hd u = CHR ''/''" and "\<not> has_dotdot u"
  shows "resolve_fs_path fs base (Some u) =
           spec_first_existing fs base (spec_candidate_list (logical_path u)) \<and>
         fs_probes fs base (Some u) =
           spec_probe_sequence fs base (spec_candidate_list (logical_path u))"
  using assms
  by (simp add: resolve_fs_path_def fs_probes_def resolve_fs_path_probes_def
      probe_candidates_spec candidates_of_spec)

text \<open>
  The round trip of the specification: with \<open>/page.html.gz\<close> and \<open>/page.html\<close> on the
  mount, \<open>/page.html\<close> resolves to the compressed sibling.
\<close>

theorem resolver_search_order_witness:
  "''/page.html'' \<noteq> [] \<and> hd ''/page.html'' = CHR ''/'' \<and> \<not> has_dotdot ''/page.html'' \<and>
   resolve_fs_path [(''/littlefs/page.html.gz'', ''z''), (''/littlefs/page.html'', ''p'')]
       ''/littlefs'' (Some ''/page.html'') =
     Some \<lparr>out_full_path = ''/littlefs/page.html.gz'',
           out_ctype = ''text/html; charset=utf-8'', out_is_gz = True\<rparr> \<and>
   spec_first_existing [(''/littlefs/page.html.gz'', ''z''), (''/littlefs/page.html'', ''p'')]
       ''/littlefs'' (spec_candidate_list (logical_path ''/page.html'')) =
     Some \<lparr>out_full_path = ''/littlefs/page.html.gz'',
           out_ctype = ''text/html; charset=utf-8'', out_is_gz = True\<rparr>"
proof -
  have h: "''/page.html'' \<noteq> []" "hd ''/page.html'' = CHR ''/''" "\<not> has_dotdot ''/page.html''"
    by (simp_all add: has_dotdot_def)
  have c: "spec_first_existing [(''/littlefs/page.html.gz'', ''z''), (''/littlefs/page.html'', ''p'')]
       ''/littlefs'' (spec_candidate_list (logical_path ''/page.html'')) =
     Some \<lparr>out_full_path = ''/littlefs/page.html.gz'',
           out_ctype = ''text/html; charset=utf-8'', out_is_gz = True\<rparr>"
    by code_simp
  show ?thesis
    using resolver_search_order [OF h, of "[(''/littlefs/page.html.gz'', ''z''), (''/littlefs/page.html'', ''p'')]" "''/littlefs''"] h c
    by simp
qed

text \<open>
  Claim C3 as stated speaks of every request path. A path such as \<open>/a..b\<close> is turned
  away by the traversal guard before any candidate is built, even when the file it
  names exists.
\<close>

theorem resolver_every_path_counterexample:
  "resolve_fs_path [(''/littlefs/a..b'', ''x'')] ''/littlefs'' (Some ''/a..b'') \<noteq>
   spec_first_existing [(''/littlefs/a..b'', ''x'')] ''/littlefs''
     (spec_candidate_list (logical_path ''/a..b''))"
  by code_simp

text \<open>
  Claim C4. A request path that contains \<open>..\<close> anywhere is rejected without a single
  existence probe, whatever the mount holds.
\<close>

theorem traversal_rejected:
  assumes "u = a @ ''..'' @ b"
  shows "resolve_fs_path_probes fs base (Some u) = ([], None)"
proof -
  have "has_dotdot u" using assms has_dotdot_iff by blast
  then show ?thesis by (simp add: resolve_fs_path_probes_def)
qed

theorem traversal_rejected_witness:
  "''/../secret'' = ''/'' @ ''..'' @ ''/secret'' \<and>
   resolve_fs_path_probes [(''/littlefs/../secret'', ''s'')] ''/littlefs'' (Some ''/../secret'')
     = ([], None)"
  using traversal_rejected [of "''/../secret''" "''/''" "''/secret''"
      "[(''/littlefs/../secret'', ''s'')]" "''/littlefs''"]
  by simp

section \<open>Properties of the streamer, the mount and the handlers\<close>

lemma send_text_Some:
  "send_text tx (Some r) code ctype body =
     (tx (length (sent r)),
      Some (r\<lparr>resp_status := status_for code, resp_type := ctype,
              sent := sent r @ [\<lparr>tx_kind = Whole, tx_status = status_for code, tx_type = ctype,
                                 tx_hdrs = resp_hdrs r,
                                 tx_body = (case body of None \<Rightarrow> [] | Some b \<Rightarrow> b)\<rparr>]\<rparr>))"
  by (simp add: send_text_def httpd_resp_send_def httpd_resp_set_type_def
      httpd_resp_set_status_def transmit_def)

lemma set_no_cache_headers_Some:
  "set_no_cache_headers (Some r) = Some (r\<lparr>resp_hdrs := resp_hdrs r @ no_cache_headers\<rparr>)"
  by (simp add: set_no_cache_headers_def httpd_resp_set_hdr_def no_cache_headers_def)

lemma send_template_Some:
  "send_template tx (Some r) (Some tmpl) (Some ctype) True =
     send_text tx (set_no_cache_headers (Some r)) 200 ctype (Some tmpl)"
  by (simp add: send_template_def)

lemma carries_no_cache_append:
  "tx_hdrs t = hs @ no_cache_headers @ hs' \<Longrightarrow> carries_no_cache t"
  by (simp add: carries_no_cache_def no_cache_headers_def)

lemma carries_no_cache_end:
  "tx_hdrs t = hs @ no_cache_headers \<Longrightarrow> carries_no_cache t"
  using carries_no_cache_append [of t hs "[]"] by simp

lemma status_500: "status_for 500 = ''500 Internal Server Error''" by (simp add: status_for_def)
lemma status_200: "status_for 200 = ''200 OK''" by (simp add: status_for_def)

lemma stream_chunks_props:
  "\<exists>r' new. snd (stream_chunks tx rest (Some r)) = Some r' \<and>
     resp_hdrs r' = resp_hdrs r \<and> resp_status r' = resp_status r \<and> resp_type r' = resp_type r \<and>
     sent r' = sent r @ new \<and> (\<forall>t\<in>set new. tx_hdrs t = resp_hdrs r) \<and>
     (fst (stream_chunks tx rest (Some r)) \<noteq> ESP_OK \<longrightarrow> new \<noteq> [])"
proof (induction tx rest "Some r" arbitrary: r rule: stream_chunks.induct)
  case (1 tx rest)
  show ?case
  proof (cases "min 1024 (length rest) > 0")
    case False
    then have "stream_chunks tx rest (Some r) = (ESP_OK, Some r)"
      by (subst stream_chunks.simps) (simp add: Let_def)
    then show ?thesis by simp
  next
    case True
    define r1 where "r1 = transmit Chunk (take (min 1024 (length rest)) rest) r"
    define c where "c = \<lparr>tx_kind = Chunk, tx_status = resp_status r, tx_type = resp_type r,
            tx_hdrs = resp_hdrs r, tx_body = take (min 1024 (length rest)) rest\<rparr>"
    have sc: "httpd_resp_send_chunk tx (take (min 1024 (length rest)) rest) (Some r) = (tx (length (sent r)), Some r1)"
      by (simp add: httpd_resp_send_chunk_def r1_def)
    have r1p: "resp_hdrs r1 = resp_hdrs r" "resp_status r1 = resp_status r" "resp_type r1 = resp_type r"
      "sent r1 = sent r @ [c]"
      by (simp_all add: r1_def transmit_def c_def)
    have ch: "tx_hdrs c = resp_hdrs r" by (simp add: c_def)
    show ?thesis
    proof (cases "tx (length (sent r)) \<noteq> ESP_OK \<or> min 1024 (length rest) < 1024")
      case stop: True
      have "snd (stream_chunks tx rest (Some r)) = Some r1"
        using True stop sc by (subst stream_chunks.simps) (auto simp add: Let_def)
      then show ?thesis using r1p ch by simp
    next
      case go: False
      have eq: "stream_chunks tx rest (Some r) = stream_chunks tx (drop (min 1024 (length rest)) rest) (Some r1)"
        using True go sc by (subst stream_chunks.simps) (auto simp add: Let_def)
      have "\<exists>r' new. snd (stream_chunks tx (drop (min 1024 (length rest)) rest) (Some r1)) = Some r' \<and>
          resp_hdrs r' = resp_hdrs r1 \<and> resp_status r' = resp_status r1 \<and> resp_type r' = resp_type r1 \<and>
          sent r' = sent r1 @ new \<and> (\<forall>t\<in>set new. tx_hdrs t = resp_hdrs r1) \<and>
          (fst (stream_chunks tx (drop (min 1024 (length rest)) rest) (Some r1)) \<noteq> ESP_OK \<longrightarrow> new \<noteq> [])"
        using True go sc by (intro 1) (auto simp add: Let_def)
      then obtain r' new where n: "snd (stream_chunks tx (drop (min 1024 (length rest)) rest) (Some r1)) = Some r'"
          "resp_hdrs r' = resp_hdrs r1" "resp_status r' = resp_status r1" "resp_type r' = resp_type r1"
          "sent r' = sent r1 @ new" "\<forall>t\<in>set new. tx_hdrs t = resp_hdrs r1" by blast
      have A: "snd (stream_chunks tx rest (Some r)) = Some r'" using eq n(1) by simp
      have B: "resp_hdrs r' = resp_hdrs r" "resp_status r' = resp_status r" "resp_type r' = resp_type r"
        using n r1p by simp_all
      have C: "sent r' = sent r @ (c # new)" using n r1p by simp
      have D: "\<forall>t\<in>set (c # new). tx_hdrs t = resp_hdrs r" using n r1p ch by simp
      have E: "c # new \<noteq> []" by simp
      show ?thesis
        by (rule exI [of _ r'], rule exI [of _ "c # new"]) (use A B C D E in blast)
    qed
  qed
qed

lemma send_file_stream_open:
  assumes "map_of fs p = Some content"
  shows "\<exists>r' hs new. snd (send_file_stream fs tx (Some r) p ctype gz) = Some r' \<and>
           resp_hdrs r' = hs @ no_cache_headers \<and>
           sent r' = sent r @ new \<and> new \<noteq> [] \<and> (\<forall>t\<in>set new. tx_hdrs t = resp_hdrs r')"
proof -
  define r2 where "r2 = (if gz then r\<lparr>resp_type := ctype, resp_hdrs := resp_hdrs r @ [(''Content-Encoding'', ''gzip'')]\<rparr>
                               else r\<lparr>resp_type := ctype\<rparr>)"
  define r3 where "r3 = r2\<lparr>resp_hdrs := resp_hdrs r2 @ no_cache_headers\<rparr>"
  have q3: "set_no_cache_headers (if gz then httpd_resp_set_hdr ''Content-Encoding'' ''gzip'' (httpd_resp_set_type ctype (Some r))
               else httpd_resp_set_type ctype (Some r)) = Some r3"
    by (simp add: r3_def r2_def set_no_cache_headers_Some httpd_resp_set_hdr_def httpd_resp_set_type_def)
  have s3: "sent r3 = sent r" by (simp add: r3_def r2_def)
  obtain r4 new where r4: "snd (stream_chunks tx content (Some r3)) = Some r4"
     "resp_hdrs r4 = resp_hdrs r3" "sent r4 = sent r3 @ new" "\<forall>t\<in>set new. tx_hdrs t = resp_hdrs r3"
     "fst (stream_chunks tx content (Some r3)) \<noteq> ESP_OK \<longrightarrow> new \<noteq> []"
    using stream_chunks_props [of tx content r3] by blast
  have h3: "resp_hdrs r3 = resp_hdrs r2 @ no_cache_headers" by (simp add: r3_def)
  show ?thesis
  proof (cases "fst (stream_chunks tx content (Some r3)) \<noteq> ESP_OK")
    case True
    then have A: "snd (send_file_stream fs tx (Some r) p ctype gz) = Some r4"
      using assms q3 r4(1) by (simp add: send_file_stream_def Let_def)
    have B: "resp_hdrs r4 = resp_hdrs r2 @ no_cache_headers" using r4(2) h3 by simp
    have C: "sent r4 = sent r @ new" using r4(3) s3 by simp
    have D: "\<forall>t\<in>set new. tx_hdrs t = resp_hdrs r4" using r4(2,4) by simp
    have E: "new \<noteq> []" using True r4(5) by simp
    show ?thesis
      by (rule exI [of _ r4], rule exI [of _ "resp_hdrs r2"], rule exI [of _ new])
         (use A B C D E in simp)
  next
    case False
    define r5 where "r5 = transmit Chunk [] r4"
    define new5 where "new5 = new @ [\<lparr>tx_kind = Chunk, tx_status = resp_status r4, tx_type = resp_type r4,
            tx_hdrs = resp_hdrs r4, tx_body = []\<rparr>]"
    from False have A: "snd (send_file_stream fs tx (Some r) p ctype gz) = Some r5"
      using assms q3 r4(1) by (simp add: send_file_stream_def Let_def httpd_resp_send_chunk_def r5_def)
    have B: "resp_hdrs r5 = resp_hdrs r2 @ no_cache_headers" using r4(2) h3 by (simp add: r5_def transmit_def)
    have C: "sent r5 = sent r @ new5" using r4 s3 by (simp add: transmit_def r5_def new5_def)
    have D: "\<forall>t\<in>set new5. tx_hdrs t = resp_hdrs r5" using r4(2,4) by (simp add: r5_def new5_def transmit_def)
    have E: "new5 \<noteq> []" by (simp add: new5_def)
    show ?thesis
      by (rule exI [of _ r5], rule exI [of _ "resp_hdrs r2"], rule exI [of _ new5])
         (use A B C D E in simp)
  qed
qed

lemma try_serve_opened:
  assumes "opens_file cfg env g u"
  shows "\<exists>rc g1 r' hs. try_serve_from_fs cfg env g (Some (fresh_req u)) = (rc, g1, Some r') \<and>
           resp_hdrs r' = hs @ no_cache_headers \<and> sent r' \<noteq> [] \<and>
           (\<forall>t\<in>set (sent r'). tx_hdrs t = resp_hdrs r')"
proof -
  obtain a where a: "resolve_fs_path (fs_at_probe env) (kFsBase cfg) (Some u) = Some a"
    and o: "map_of (fs_at_open env) (out_full_path a) \<noteq> None"
    using assms by (auto simp add: opens_file_def split: option.splits)
  obtain content where c: "map_of (fs_at_open env) (out_full_path a) = Some content" using o by blast
  obtain g1 where m: "ensure_fs_mounted (vfs_register_rc env) g = (ESP_OK, g1)"
    using assms by (cases "ensure_fs_mounted (vfs_register_rc env) g") (auto simp add: opens_file_def)
  have e: "enable_littlefs cfg" "u \<noteq> []" using assms by (auto simp add: opens_file_def)
  define out where "out = send_file_stream (fs_at_open env) (transport_rc env) (Some (fresh_req u))
                          (out_full_path a) (out_ctype a) (out_is_gz a)"
  have ts: "try_serve_from_fs cfg env g (Some (fresh_req u)) = (fst out, g1, snd out)"
    using e a m by (simp add: try_serve_from_fs_def fresh_req_def out_def split: prod.splits)
  have s0: "sent (fresh_req u) = []" by (simp add: fresh_req_def)
  obtain r' hs new where n: "snd out = Some r'" "resp_hdrs r' = hs @ no_cache_headers"
      "sent r' = sent (fresh_req u) @ new" "new \<noteq> []" "\<forall>t\<in>set new. tx_hdrs t = resp_hdrs r'"
    using send_file_stream_open [OF c, of "transport_rc env" "fresh_req u" "out_ctype a" "out_is_gz a"]
    unfolding out_def by blast
  have "try_serve_from_fs cfg env g (Some (fresh_req u)) = (fst out, g1, Some r')"
    using ts n(1) by simp
  moreover have "sent r' \<noteq> []" "\<forall>t\<in>set (sent r'). tx_hdrs t = resp_hdrs r'"
    using n s0 by simp_all
  ultimately show ?thesis using n(2) by blast
qed

lemma try_serve_no_file:
  assumes "\<not> selects_file cfg env g u" and "enable_littlefs cfg \<longrightarrow> u \<noteq> []"
  shows "\<exists>rc g1. try_serve_from_fs cfg env g (Some (fresh_req u)) = (rc, g1, Some (fresh_req u)) \<and>
           (rc = ESP_ERR_NOT_FOUND \<or> rc = ESP_ERR_NOT_SUPPORTED)"
  using assms
  by (cases "ensure_fs_mounted (vfs_register_rc env) g")
     (auto simp add: try_serve_from_fs_def fresh_req_def selects_file_def)

lemma try_serve_empty_uri:
  assumes "enable_littlefs cfg"
  shows "try_serve_from_fs cfg env g (Some (fresh_req [])) =
           (ESP_ERR_HTTPD_INVALID_REQ, g, Some (fresh_req []))"
  using assms by (simp add: try_serve_from_fs_def fresh_req_def)

lemma try_serve_open_failed:
  assumes "selects_file cfg env g u" and "\<not> opens_file cfg env g u"
  shows "\<exists>g1. try_serve_from_fs cfg env g (Some (fresh_req u)) =
           (transport_rc env 0, g1, Some (open_failed_req u))"
proof -
  obtain a where a: "resolve_fs_path (fs_at_probe env) (kFsBase cfg) (Some u) = Some a"
    using assms(1) by (auto simp add: selects_file_def)
  obtain g1 where m: "ensure_fs_mounted (vfs_register_rc env) g = (ESP_OK, g1)"
    using assms(1) by (cases "ensure_fs_mounted (vfs_register_rc env) g") (auto simp add: selects_file_def)
  have e: "enable_littlefs cfg" "u \<noteq> []" using assms(1) by (auto simp add: selects_file_def)
  have "map_of (fs_at_open env) (out_full_path a) = None"
    using assms a by (simp add: opens_file_def selects_file_def)
  then have "try_serve_from_fs cfg env g (Some (fresh_req u)) = (transport_rc env 0, g1, Some (open_failed_req u))"
    using e m a
    by (simp add: try_serve_from_fs_def send_file_stream_def send_text_Some open_failed_req_def fresh_req_def)
  then show ?thesis by blast
qed

lemma handle_root_opened:
  assumes "opens_file cfg env g u"
  shows "sent_by (handle_root kRoot cfg env g (Some (fresh_req u))) \<noteq> [] \<and>
         (\<forall>t \<in> set (sent_by (handle_root kRoot cfg env g (Some (fresh_req u)))). carries_no_cache t)"
proof -
  obtain rc g1 r' hs where ts: "try_serve_from_fs cfg env g (Some (fresh_req u)) = (rc, g1, Some r')"
     and r': "resp_hdrs r' = hs @ no_cache_headers" "sent r' \<noteq> []"
     "\<forall>t\<in>set (sent r'). tx_hdrs t = resp_hdrs r'"
    using try_serve_opened [OF assms(1)] by blast
  have old: "\<forall>t\<in>set (sent r'). carries_no_cache t"
    using r'(1,3) carries_no_cache_end by simp
  have c1: "carries_no_cache \<lparr>tx_kind = k, tx_status = st, tx_type = ty, tx_hdrs = resp_hdrs r', tx_body = b\<rparr>" for k st ty b
    using r'(1) by (intro carries_no_cache_end [of _ hs]) simp
  have c2: "carries_no_cache \<lparr>tx_kind = k, tx_status = st, tx_type = ty,
              tx_hdrs = resp_hdrs r' @ no_cache_headers, tx_body = b\<rparr>" for k st ty b
    by (intro carries_no_cache_end [of _ "resp_hdrs r'"]) simp
  consider (ok) "rc = ESP_OK" | (fallback) "rc = ESP_ERR_NOT_FOUND \<or> rc = ESP_ERR_NOT_SUPPORTED"
    | (err) "rc \<noteq> ESP_OK" "rc \<noteq> ESP_ERR_NOT_FOUND" "rc \<noteq> ESP_ERR_NOT_SUPPORTED" by blast
  then show ?thesis
  proof cases
    case ok
    then have "sent_by (handle_root kRoot cfg env g (Some (fresh_req u))) = sent r'"
      using ts by (simp add: handle_root_def sent_by_def)
    then show ?thesis using old r'(2) by simp
  next
    case fallback
    then have "sent_by (handle_root kRoot cfg env g (Some (fresh_req u))) = sent r' @
       [\<lparr>tx_kind = Whole, tx_status = status_for 200, tx_type = ''text/html; charset=utf-8'',
         tx_hdrs = resp_hdrs r' @ no_cache_headers, tx_body = kRoot\<rparr>]"
      using ts by (auto simp add: handle_root_def sent_by_def send_template_Some
          set_no_cache_headers_Some send_text_Some)
    then show ?thesis using old c2 by simp
  next
    case err
    then have "sent_by (handle_root kRoot cfg env g (Some (fresh_req u))) = sent r' @
       [\<lparr>tx_kind = Whole, tx_status = status_for 500, tx_type = ''text/plain; charset=utf-8'',
         tx_hdrs = resp_hdrs r', tx_body = ''Internal file server error\<newline>''\<rparr>]"
      using ts by (simp add: handle_root_def sent_by_def send_text_Some)
    then show ?thesis using old c1 by simp
  qed
qed

lemma handle_favicon_opened:
  assumes "opens_file cfg env g u"
  shows "sent_by (handle_favicon_ico kIcon cfg env g (Some (fresh_req u))) \<noteq> [] \<and>
         (\<forall>t \<in> set (sent_by (handle_favicon_ico kIcon cfg env g (Some (fresh_req u)))). carries_no_cache t)"
proof -
  obtain rc g1 r' hs where ts: "try_serve_from_fs cfg env g (Some (fresh_req u)) = (rc, g1, Some r')"
     and r': "resp_hdrs r' = hs @ no_cache_headers" "sent r' \<noteq> []"
     "\<forall>t\<in>set (sent r'). tx_hdrs t = resp_hdrs r'"
    using try_serve_opened [OF assms(1)] by blast
  have old: "\<forall>t\<in>set (sent r'). carries_no_cache t"
    using r'(1,3) carries_no_cache_end by simp
  have c1: "carries_no_cache \<lparr>tx_kind = k, tx_status = st, tx_type = ty, tx_hdrs = resp_hdrs r', tx_body = b\<rparr>" for k st ty b
    using r'(1) by (intro carries_no_cache_end [of _ hs]) simp
  have c2: "carries_no_cache \<lparr>tx_kind = k, tx_status = st, tx_type = ty,
              tx_hdrs = resp_hdrs r' @ no_cache_headers, tx_body = b\<rparr>" for k st ty b
    by (intro carries_no_cache_end [of _ "resp_hdrs r'"]) simp
  consider (ok) "rc = ESP_OK" | (fallback) "rc = ESP_ERR_NOT_FOUND \<or> rc = ESP_ERR_NOT_SUPPORTED"
    | (err) "rc \<noteq> ESP_OK" "rc \<noteq> ESP_ERR_NOT_FOUND" "rc \<noteq> ESP_ERR_NOT_SUPPORTED" by blast
  then show ?thesis
  proof cases
    case ok
    then have "sent_by (handle_favicon_ico kIcon cfg env g (Some (fresh_req u))) = sent r'"
      using ts by (simp add: handle_favicon_ico_def sent_by_def)
    then show ?thesis using old r'(2) by simp
  next
    case fallback
    then have "sent_by (handle_favicon_ico kIcon cfg env g (Some (fresh_req u))) = sent r' @
       [\<lparr>tx_kind = Whole, tx_status = resp_status r', tx_type = ''image/x-icon'',
         tx_hdrs = resp_hdrs r' @ no_cache_headers, tx_body = kIcon\<rparr>]"
      using ts by (auto simp add: handle_favicon_ico_def sent_by_def httpd_resp_send_def
          httpd_resp_set_type_def transmit_def set_no_cache_headers_Some)
    then show ?thesis using old c2 by simp
  next
    case err
    then have "sent_by (handle_favicon_ico kIcon cfg env g (Some (fresh_req u))) = sent r' @
       [\<lparr>tx_kind = Whole, tx_status = status_for 500, tx_type = ''text/plain; charset=utf-8'',
         tx_hdrs = resp_hdrs r', tx_body = ''Internal file server error\<newline>''\<rparr>]"
      using ts by (simp add: handle_favicon_ico_def sent_by_def send_text_Some)
    then show ?thesis using old c1 by simp
  qed
qed

lemma handle_root_no_file:
  assumes "\<not> selects_file cfg env g u" and "enable_littlefs cfg \<longrightarrow> u \<noteq> []"
  shows "sent_by (handle_root kRoot cfg env g (Some (fresh_req u))) =
           [embedded_fallback ''200 OK'' ''text/html; charset=utf-8'' kRoot]"
proof -
  obtain rc g1 where "try_serve_from_fs cfg env g (Some (fresh_req u)) = (rc, g1, Some (fresh_req u))"
     "rc = ESP_ERR_NOT_FOUND \<or> rc = ESP_ERR_NOT_SUPPORTED"
    using try_serve_no_file [OF assms] by blast
  then show ?thesis
    by (auto simp add: handle_root_def sent_by_def send_text_Some send_template_Some
          set_no_cache_headers_Some fresh_req_def status_for_def embedded_fallback_def)
qed

lemma handle_favicon_no_file:
  assumes "\<not> selects_file cfg env g u" and "enable_littlefs cfg \<longrightarrow> u \<noteq> []"
  shows "sent_by (handle_favicon_ico kIcon cfg env g (Some (fresh_req u))) =
           [embedded_fallback ''200 OK'' ''image/x-icon'' kIcon]"
proof -
  obtain rc g1 where "try_serve_from_fs cfg env g (Some (fresh_req u)) = (rc, g1, Some (fresh_req u))"
     "rc = ESP_ERR_NOT_FOUND \<or> rc = ESP_ERR_NOT_SUPPORTED"
    using try_serve_no_file [OF assms] by blast
  then show ?thesis
    by (auto simp add: handle_favicon_ico_def sent_by_def httpd_resp_send_def
          httpd_resp_set_type_def transmit_def set_no_cache_headers_Some fresh_req_def
          embedded_fallback_def)
qed

lemma handlers_empty_uri:
  assumes "enable_littlefs cfg"
  shows "sent_by (handle_root kRoot cfg env g (Some (fresh_req []))) =
           [error_500 ''Internal file server error\<newline>'']"
    and "sent_by (handle_favicon_ico kIcon cfg env g (Some (fresh_req []))) =
           [error_500 ''Internal file server error\<newline>'']"
  using try_serve_empty_uri [OF assms, of env g]
  by (simp_all add: handle_root_def handle_favicon_ico_def sent_by_def send_text_Some
        fresh_req_def status_for_def error_500_def)

lemma handle_root_open_failed:
  assumes "selects_file cfg env g u" and "\<not> opens_file cfg env g u"
  shows "sent_by (handle_root kRoot cfg env g (Some (fresh_req u))) =
           error_500 ''File open failed\<newline>'' #
             (if transport_rc env 0 = ESP_OK then []
              else if transport_rc env 0 = ESP_ERR_NOT_FOUND \<or> transport_rc env 0 = ESP_ERR_NOT_SUPPORTED
                then [embedded_fallback ''200 OK'' ''text/html; charset=utf-8'' kRoot]
              else [error_500 ''Internal file server error\<newline>''])"
proof -
  obtain g1 where "try_serve_from_fs cfg env g (Some (fresh_req u)) =
           (transport_rc env 0, g1, Some (open_failed_req u))"
    using try_serve_open_failed [OF assms] by blast
  then show ?thesis
    by (auto simp add: handle_root_def sent_by_def send_text_Some send_template_Some
          set_no_cache_headers_Some fresh_req_def open_failed_req_def status_for_def
          embedded_fallback_def error_500_def)
qed

lemma handle_favicon_open_failed:
  assumes "selects_file cfg env g u" and "\<not> opens_file cfg env g u"
  shows "sent_by (handle_favicon_ico kIcon cfg env g (Some (fresh_req u))) =
           error_500 ''File open failed\<newline>'' #
             (if transport_rc env 0 = ESP_OK then []
              else if transport_rc env 0 = ESP_ERR_NOT_FOUND \<or> transport_rc env 0 = ESP_ERR_NOT_SUPPORTED
                then [embedded_fallback ''500 Internal Server Error'' ''image/x-icon'' kIcon]
              else [error_500 ''Internal file server error\<newline>''])"
proof -
  obtain g1 where "try_serve_from_fs cfg env g (Some (fresh_req u)) =
           (transport_rc env 0, g1, Some (open_failed_req u))"
    using try_serve_open_failed [OF assms] by blast
  then show ?thesis
    by (auto simp add: handle_favicon_ico_def sent_by_def send_text_Some httpd_resp_send_def
          httpd_resp_set_type_def transmit_def
          set_no_cache_headers_Some fresh_req_def open_failed_req_def status_for_def
          embedded_fallback_def error_500_def)
qed

lemma free_of_no_cache_error_500 [simp]: "free_of_no_cache (error_500 b)"
  by (simp add: free_of_no_cache_def error_500_def)

lemma is_500_embedded_200 [simp]: "\<not> is_500 (embedded_fallback ''200 OK'' ty b)"
  by (simp add: is_500_def embedded_fallback_def status_for_def)

lemma handle_root_500_free:
  assumes "\<not> opens_file cfg env g u"
    and "t \<in> set (sent_by (handle_root kRoot cfg env g (Some (fresh_req u))))" and "is_500 t"
  shows "free_of_no_cache t"
proof -
  consider (failed) "selects_file cfg env g u"
    | (empty) "enable_littlefs cfg" "u = []"
    | (none) "\<not> selects_file cfg env g u" "enable_littlefs cfg \<longrightarrow> u \<noteq> []"
    by blast
  then show ?thesis
  proof cases
    case failed
    then show ?thesis using handle_root_open_failed [OF failed assms(1), of kRoot] assms(2,3)
      by (auto split: if_splits)
  next
    case empty
    then show ?thesis using handlers_empty_uri(1) [OF empty(1), of kRoot env g] assms(2,3) by auto
  next
    case none
    then show ?thesis using handle_root_no_file [OF none, of kRoot] assms(2,3) by auto
  qed
qed

text \<open>
  Claim C10, as amended. On a fresh request, for \<open>handle_root\<close> and
  \<open>handle_favicon_ico\<close> alike. When the selected file opens, something is sent and
  every transmission carries the four cache-disabling headers with their values (so does
  a 500 that follows a failed chunk). When no file is selected (file serving not built
  in, mount failed, nothing resolved), the one transmission is the embedded page or icon
  with exactly the four headers. When the URI is empty, the one transmission is the 500
  for an internal error, with no header. When the selected file fails to open, the first
  transmission is the 500 for the failed open, with no header; what follows depends on
  the transport's answer to it: nothing, or the 500 for an internal error with no header,
  or (on not-found or not-supported) the embedded page or icon with the four headers, the
  icon under the status line left from the 500. In short, as long as no file has been
  opened no 500 of \<open>handle_root\<close> has a header with one of the four names.
\<close>

theorem no_cache_headers_placement:
  "(opens_file cfg env g u \<longrightarrow>
      sent_by (handle_root kRoot cfg env g (Some (fresh_req u))) \<noteq> [] \<and>
      (\<forall>t \<in> set (sent_by (handle_root kRoot cfg env g (Some (fresh_req u)))). carries_no_cache t) \<and>
      sent_by (handle_favicon_ico kFaviconIco cfg env g (Some (fresh_req u))) \<noteq> [] \<and>
      (\<forall>t \<in> set (sent_by (handle_favicon_ico kFaviconIco cfg env g (Some (fresh_req u)))).
         carries_no_cache t)) \<and>
   (\<not> selects_file cfg env g u \<and> (enable_littlefs cfg \<longrightarrow> u \<noteq> []) \<longrightarrow>
      sent_by (handle_root kRoot cfg env g (Some (fresh_req u))) =
        [embedded_fallback ''200 OK'' ''text/html; charset=utf-8'' kRoot] \<and>
      sent_by (handle_favicon_ico kFaviconIco cfg env g (Some (fresh_req u))) =
        [embedded_fallback ''200 OK'' ''image/x-icon'' kFaviconIco]) \<and>
   (enable_littlefs cfg \<and> u = [] \<longrightarrow>
      sent_by (handle_root kRoot cfg env g (Some (fresh_req u))) =
        [error_500 ''Internal file server error\<newline>''] \<and>
      sent_by (handle_favicon_ico kFaviconIco cfg env g (Some (fresh_req u))) =
        [error_500 ''Internal file server error\<newline>'']) \<and>
   (selects_file cfg env g u \<and> \<not> opens_file cfg env g u \<longrightarrow>
      sent_by (handle_root kRoot cfg env g (Some (fresh_req u))) =
        error_500 ''File open failed\<newline>'' #
          (if transport_rc env 0 = ESP_OK then []
           else if transport_rc env 0 = ESP_ERR_NOT_FOUND \<or> transport_rc env 0 = ESP_ERR_NOT_SUPPORTED
             then [embedded_fallback ''200 OK'' ''text/html; charset=utf-8'' kRoot]
           else [error_500 ''Internal file server error\<newline>'']) \<and>
      sent_by (handle_favicon_ico kFaviconIco cfg env g (Some (fresh_req u))) =
        error_500 ''File open failed\<newline>'' #
          (if transport_rc env 0 = ESP_OK then []
           else if transport_rc env 0 = ESP_ERR_NOT_FOUND \<or> transport_rc env 0 = ESP_ERR_NOT_SUPPORTED
             then [embedded_fallback ''500 Internal Server Error'' ''image/x-icon'' kFaviconIco]
           else [error_500 ''Internal file server error\<newline>''])) \<and>
   (\<not> opens_file cfg env g u \<longrightarrow>
      (\<forall>t \<in> set (sent_by (handle_root kRoot cfg env g (Some (fresh_req u)))).
         is_500 t \<longrightarrow> free_of_no_cache t))"
proof -
  have a: "opens_file cfg env g u \<longrightarrow>
      sent_by (handle_root kRoot cfg env g (Some (fresh_req u))) \<noteq> [] \<and>
      (\<forall>t \<in> set (sent_by (handle_root kRoot cfg env g (Some (fresh_req u)))). carries_no_cache t) \<and>
      sent_by (handle_favicon_ico kFaviconIco cfg env g (Some (fresh_req u))) \<noteq> [] \<and>
      (\<forall>t \<in> set (sent_by (handle_favicon_ico kFaviconIco cfg env g (Some (fresh_req u)))).
         carries_no_cache t)"
    using handle_root_opened [of cfg env g u kRoot] handle_favicon_opened [of cfg env g u kFaviconIco]
    by blast
  have b: "\<not> selects_file cfg env g u \<and> (enable_littlefs cfg \<longrightarrow> u \<noteq> []) \<longrightarrow>
      sent_by (handle_root kRoot cfg env g (Some (fresh_req u))) =
        [embedded_fallback ''200 OK'' ''text/html; charset=utf-8'' kRoot] \<and>
      sent_by (handle_favicon_ico kFaviconIco cfg env g (Some (fresh_req u))) =
        [embedded_fallback ''200 OK'' ''image/x-icon'' kFaviconIco]"
    using handle_root_no_file [of cfg env g u kRoot] handle_favicon_no_file [of cfg env g u kFaviconIco]
    by blast
  have c: "enable_littlefs cfg \<and> u = [] \<longrightarrow>
      sent_by (handle_root kRoot cfg env g (Some (fresh_req u))) =
        [error_500 ''Internal file server error\<newline>''] \<and>
      sent_by (handle_favicon_ico kFaviconIco cfg env g (Some (fresh_req u))) =
        [error_500 ''Internal file server error\<newline>'']"
    using handlers_empty_uri(1) [of cfg kRoot env g] handlers_empty_uri(2) [of cfg kFaviconIco env g]
    by blast
  have d: "selects_file cfg env g u \<and> \<not> opens_file cfg env g u \<longrightarrow>
      sent_by (handle_root kRoot cfg env g (Some (fresh_req u))) =
        error_500 ''File open failed\<newline>'' #
          (if transport_rc env 0 = ESP_OK then []
           else if transport_rc env 0 = ESP_ERR_NOT_FOUND \<or> transport_rc env 0 = ESP_ERR_NOT_SUPPORTED
             then [embedded_fallback ''200 OK'' ''text/html; charset=utf-8'' kRoot]
           else [error_500 ''Internal file server error\<newline>'']) \<and>
      sent_by (handle_favicon_ico kFaviconIco cfg env g (Some (fresh_req u))) =
        error_500 ''File open failed\<newline>'' #
          (if transport_rc env 0 = ESP_OK then []
           else if transport_rc env 0 = ESP_ERR_NOT_FOUND \<or> transport_rc env 0 = ESP_ERR_NOT_SUPPORTED
             then [embedded_fallback ''500 Internal Server Error'' ''image/x-icon'' kFaviconIco]
           else [error_500 ''Internal file server error\<newline>''])"
    using handle_root_open_failed [of cfg env g u kRoot]
      handle_favicon_open_failed [of cfg env g u kFaviconIco] by blast
  have e: "\<not> opens_file cfg env g u \<longrightarrow>
      (\<forall>t \<in> set (sent_by (handle_root kRoot cfg env g (Some (fresh_req u)))).
         is_500 t \<longrightarrow> free_of_no_cache t)"
    using handle_root_500_free [of cfg env g u _ kRoot] by blast
  from a b c d e show ?thesis by (intro conjI)
qed

text \<open>
  Four requests on a mount that holds \<open>/index.html\<close>: the file opens; nothing is
  selected for \<open>/missing.txt\<close>; the URI is empty; the file is selected and then fails
  to open.
\<close>

theorem no_cache_headers_placement_witness:
  "opens_file littlefs_config
       \<lparr>transport_rc = answers [], vfs_register_rc = answers [],
        fs_at_probe = [(''/littlefs/index.html'', ''hello'')],
        fs_at_open = [(''/littlefs/index.html'', ''hello'')]\<rparr> idle_globals ''/'' \<and>
   sent_by (handle_root ''<html>'' littlefs_config
       \<lparr>transport_rc = answers [], vfs_register_rc = answers [],
        fs_at_probe = [(''/littlefs/index.html'', ''hello'')],
        fs_at_open = [(''/littlefs/index.html'', ''hello'')]\<rparr> idle_globals (Some (fresh_req ''/''))) =
     [\<lparr>tx_kind = Chunk, tx_status = ''200 OK'', tx_type = ''text/html; charset=utf-8'',
       tx_hdrs = no_cache_headers, tx_body = ''hello''\<rparr>,
      \<lparr>tx_kind = Chunk, tx_status = ''200 OK'', tx_type = ''text/html; charset=utf-8'',
       tx_hdrs = no_cache_headers, tx_body = []\<rparr>] \<and>
   carries_no_cache (hd (sent_by (handle_root ''<html>'' littlefs_config
       \<lparr>transport_rc = answers [], vfs_register_rc = answers [],
        fs_at_probe = [(''/littlefs/index.html'', ''hello'')],
        fs_at_open = [(''/littlefs/index.html'', ''hello'')]\<rparr> idle_globals (Some (fresh_req ''/''))))) \<and>
   \<not> selects_file littlefs_config
       \<lparr>transport_rc = answers [], vfs_register_rc = answers [],
        fs_at_probe = [(''/littlefs/index.html'', ''hello'')],
        fs_at_open = [(''/littlefs/index.html'', ''hello'')]\<rparr> idle_globals ''/missing.txt'' \<and>
   sent_by (handle_favicon_ico ''icon'' littlefs_config
       \<lparr>transport_rc = answers [], vfs_register_rc = answers [],
        fs_at_probe = [(''/littlefs/index.html'', ''hello'')],
        fs_at_open = [(''/littlefs/index.html'', ''hello'')]\<rparr> idle_globals
       (Some (fresh_req ''/missing.txt''))) =
     [\<lparr>tx_kind = Whole, tx_status = ''200 OK'', tx_type = ''image/x-icon'',
       tx_hdrs = [(''Cache-Control'', ''no-cache, no-store, must-revalidate''),
                  (''Pragma'', ''no-cache''), (''Expires'', ''0''), (''Vary'', ''Accept-Encoding'')],
       tx_body = ''icon''\<rparr>] \<and>
   sent_by (handle_root ''<html>'' littlefs_config
       \<lparr>transport_rc = answers [], vfs_register_rc = answers [],
        fs_at_probe = [(''/littlefs/index.html'', ''hello'')],
        fs_at_open = [(''/littlefs/index.html'', ''hello'')]\<rparr> idle_globals (Some (fresh_req []))) =
     [\<lparr>tx_kind = Whole, tx_status = ''500 Internal Server Error'',
       tx_type = ''text/plain; charset=utf-8'', tx_hdrs = [],
       tx_body = ''Internal file server error\<newline>''\<rparr>] \<and>
   selects_file littlefs_config
       \<lparr>transport_rc = answers [], vfs_register_rc = answers [],
        fs_at_probe = [(''/littlefs/index.html'', ''hello'')], fs_at_open = []\<rparr> idle_globals ''/'' \<and>
   \<not> opens_file littlefs_config
       \<lparr>transport_rc = answers [], vfs_register_rc = answers [],
        fs_at_probe = [(''/littlefs/index.html'', ''hello'')], fs_at_open = []\<rparr> idle_globals ''/'' \<and>
   sent_by (handle_root ''<html>'' littlefs_config
       \<lparr>transport_rc = answers [], vfs_register_rc = answers [],
        fs_at_probe = [(''/littlefs/index.html'', ''hello'')], fs_at_open = []\<rparr> idle_globals
       (Some (fresh_req ''/''))) =
     [\<lparr>tx_kind = Whole, tx_status = ''500 Internal Server Error'',
       tx_type = ''text/plain; charset=utf-8'', tx_hdrs = [],
       tx_body = ''File open failed\<newline>''\<rparr>]"
proof -
  let ?envB = "\<lparr>transport_rc = answers [], vfs_register_rc = answers [],
        fs_at_probe = [(''/littlefs/index.html'', ''hello'')],
        fs_at_open = [(''/littlefs/index.html'', ''hello'')]\<rparr>"
  let ?envA = "\<lparr>transport_rc = answers [], vfs_register_rc = answers [],
        fs_at_probe = [(''/littlefs/index.html'', ''hello'')], fs_at_open = []\<rparr>"
  let ?B = "sent_by (handle_root ''<html>'' littlefs_config ?envB idle_globals (Some (fresh_req ''/'')))"
  have oB: "opens_file littlefs_config ?envB idle_globals ''/''" by code_simp
  have vB: "?B = [\<lparr>tx_kind = Chunk, tx_status = ''200 OK'', tx_type = ''text/html; charset=utf-8'',
       tx_hdrs = no_cache_headers, tx_body = ''hello''\<rparr>,
      \<lparr>tx_kind = Chunk, tx_status = ''200 OK'', tx_type = ''text/html; charset=utf-8'',
       tx_hdrs = no_cache_headers, tx_body = []\<rparr>]" by code_simp
  have mB: "hd ?B \<in> set ?B" using vB by simp
  have nM: "\<not> selects_file littlefs_config ?envB idle_globals ''/missing.txt''" by code_simp
  have en: "enable_littlefs littlefs_config" "''/missing.txt'' \<noteq> []" by (simp_all add: littlefs_config_def)
  have sA: "selects_file littlefs_config ?envA idle_globals ''/''" by code_simp
  have nA: "\<not> opens_file littlefs_config ?envA idle_globals ''/''" by code_simp
  have t0: "transport_rc ?envA 0 = ESP_OK" by (simp add: answers_def)
  have 1: "carries_no_cache (hd ?B)"
    using no_cache_headers_placement [of littlefs_config ?envB idle_globals "''/''" "''<html>''"] oB mB
    by blast
  have 2: "sent_by (handle_favicon_ico ''icon'' littlefs_config ?envB idle_globals
             (Some (fresh_req ''/missing.txt''))) = [embedded_fallback ''200 OK'' ''image/x-icon'' ''icon'']"
    using no_cache_headers_placement [of littlefs_config ?envB idle_globals "''/missing.txt''" _ "''icon''"] nM en
    by blast
  have 3: "sent_by (handle_root ''<html>'' littlefs_config ?envB idle_globals (Some (fresh_req []))) =
             [error_500 ''Internal file server error\<newline>'']"
    using no_cache_headers_placement [of littlefs_config ?envB idle_globals "[]" "''<html>''"] en(1)
    by blast
  have 4: "sent_by (handle_root ''<html>'' littlefs_config ?envA idle_globals (Some (fresh_req ''/''))) =
             [error_500 ''File open failed\<newline>'']"
    using no_cache_headers_placement [of littlefs_config ?envA idle_globals "''/''" "''<html>''"] sA nA t0
    by simp
  show ?thesis
    using oB vB 1 nM 2 3 sA nA 4
    by (simp add: embedded_fallback_def error_500_def no_cache_headers_def)
qed

text \<open>
  Claim C10 as stated: no 500 response carries the headers. When the first chunk of an
  opened file fails to send, \<open>handle_root\<close> answers with its 500 on the request that
  \<open>send_file_stream\<close> has already given the headers.
\<close>

theorem error_500_with_no_cache_counterexample:
  "is_500 (last (sent_by (handle_root ''<html>'' \<lparr>enable_littlefs = True, littlefs_mount = ''/littlefs''\<rparr>
       \<lparr>transport_rc = answers [ESP_FAIL], vfs_register_rc = answers [],
        fs_at_probe = [(''/littlefs/index.html'', ''hello'')],
        fs_at_open = [(''/littlefs/index.html'', ''hello'')]\<rparr>
       idle_globals (Some (fresh_req ''/''))))) \<and>
   carries_no_cache (last (sent_by (handle_root ''<html>'' \<lparr>enable_littlefs = True, littlefs_mount = ''/littlefs''\<rparr>
       \<lparr>transport_rc = answers [ESP_FAIL], vfs_register_rc = answers [],
        fs_at_probe = [(''/littlefs/index.html'', ''hello'')],
        fs_at_open = [(''/littlefs/index.html'', ''hello'')]\<rparr>
       idle_globals (Some (fresh_req ''/''))))) \<and>
   tx_hdrs (last (sent_by (handle_root ''<html>'' \<lparr>enable_littlefs = True, littlefs_mount = ''/littlefs''\<rparr>
       \<lparr>transport_rc = answers [ESP_FAIL], vfs_register_rc = answers [],
        fs_at_probe = [(''/littlefs/index.html'', ''hello'')],
        fs_at_open = [(''/littlefs/index.html'', ''hello'')]\<rparr>
       idle_globals (Some (fresh_req ''/''))))) =
     [(''Cache-Control'', ''no-cache, no-store, must-revalidate''), (''Pragma'', ''no-cache''),
      (''Expires'', ''0''), (''Vary'', ''Accept-Encoding'')]"
  by code_simp

lemma logical_path_slash:
  assumes "p \<noteq> []" "last p = CHR ''/''"
  shows "logical_path p = p @ ''index.html''"
proof -
  have "\<not> ends_with (p @ ''index.html'') ''.gz''" by (simp add: ends_with_def)
  then show ?thesis
    using assms by (simp add: logical_path_def index_default_def strip_gz_def Let_def)
qed

lemma spec_candidate_list_index:
  "spec_candidate_list (p @ ''index.html'') = [p @ ''index.html'', p @ ''index.htm'']"
proof -
  have "ends_with (p @ ''index.html'') ''.html''" by (simp add: ends_with_def)
  then show ?thesis by (simp add: spec_candidate_list_def)
qed

lemma resolve_trailing_slash:
  assumes "p \<noteq> []" "hd p = CHR ''/''" "last p = CHR ''/''" "\<not> has_dotdot p"
  shows "resolve_fs_path_probes fs base (Some p) =
           (spec_probe_sequence fs base [p @ ''index.html'', p @ ''index.htm''],
            spec_first_existing fs base [p @ ''index.html'', p @ ''index.htm''])"
  using assms
  by (simp add: resolve_fs_path_probes_def logical_path_slash candidates_of_spec
      spec_candidate_list_index probe_candidates_spec)

lemma spec_first_existing_none:
  "spec_first_existing fs base [a, b] = None \<longleftrightarrow>
     \<not> file_exists fs (base @ a @ ''.gz'') \<and> \<not> file_exists fs (base @ a) \<and>
     \<not> file_exists fs (base @ b @ ''.gz'') \<and> \<not> file_exists fs (base @ b)"
  by (auto simp add: spec_first_existing_def spec_search_order_def spec_variants_def)

lemma resolve_root:
  "resolve_fs_path fs base (Some ''/'') =
     spec_first_existing fs base [''/index.html'', ''/index.htm'']"
  "resolve_fs_path fs base (Some ''/index.html'') =
     spec_first_existing fs base [''/index.html'', ''/index.htm'']"
proof -
  have h: "''/'' \<noteq> []" "hd ''/'' = CHR ''/''" "last ''/'' = CHR ''/''" "\<not> has_dotdot ''/''"
    by (simp_all add: has_dotdot_def)
  show 1: "resolve_fs_path fs base (Some ''/'') =
     spec_first_existing fs base [''/index.html'', ''/index.htm'']"
    using resolve_trailing_slash [OF h, of fs base] by (simp add: resolve_fs_path_def)
  show "resolve_fs_path fs base (Some ''/index.html'') =
     spec_first_existing fs base [''/index.html'', ''/index.htm'']"
    using 1 trailing_slash_index [OF h(1,3), of fs base] by (simp add: resolve_fs_path_def)
qed

lemma handle_root_fallback:
  assumes "u \<noteq> []" and "resolve_fs_path (fs_at_probe env) (kFsBase cfg) (Some u) = None"
  shows "sent_by (handle_root kRoot cfg env g (Some (fresh_req u))) =
           [\<lparr>tx_kind = Whole, tx_status = ''200 OK'', tx_type = ''text/html; charset=utf-8'',
             tx_hdrs = [(''Cache-Control'', ''no-cache, no-store, must-revalidate''),
                        (''Pragma'', ''no-cache''), (''Expires'', ''0''),
                        (''Vary'', ''Accept-Encoding'')],
             tx_body = kRoot\<rparr>]"
proof -
  have "\<not> selects_file cfg env g u" using assms(2) by (simp add: selects_file_def)
  then show ?thesis
    using handle_root_no_file [of cfg env g u kRoot] assms(1)
    by (simp add: embedded_fallback_def no_cache_headers_def)
qed

text \<open>
  Claim C8. A request path that begins and ends with a separator and has no \<open>..\<close>,
  the bare root among them, gets the \<open>index.html\<close> default before the candidates are
  searched: it resolves to the first existing file among \<open>index.html.gz\<close>,
  \<open>index.html\<close>, \<open>index.htm.gz\<close> and \<open>index.htm\<close> of that directory, probed in this
  order, exactly as the path with \<open>index.html\<close> appended does. So \<open>/\<close> and
  \<open>/index.html\<close> resolve to the same result, the first existing of the four index
  files of the mount; and when none of the four exists, the root handler answers both
  requests with the embedded page, status 200.
\<close>

theorem root_index_default:
  "(p \<noteq> [] \<and> hd p = CHR ''/'' \<and> last p = CHR ''/'' \<and> \<not> has_dotdot p \<longrightarrow>
      resolve_fs_path fs base (Some p) =
        spec_first_existing fs base [p @ ''index.html'', p @ ''index.htm''] \<and>
      fs_probes fs base (Some p) =
        spec_probe_sequence fs base [p @ ''index.html'', p @ ''index.htm''] \<and>
      resolve_fs_path_probes fs base (Some (p @ ''index.html'')) =
        resolve_fs_path_probes fs base (Some p)) \<and>
   resolve_fs_path fs base (Some ''/'') =
     spec_first_existing fs base [''/index.html'', ''/index.htm''] \<and>
   resolve_fs_path fs base (Some ''/index.html'') =
     spec_first_existing fs base [''/index.html'', ''/index.htm''] \<and>
   (\<not> file_exists (fs_at_probe env) (kFsBase cfg @ ''/index.html.gz'') \<and>
    \<not> file_exists (fs_at_probe env) (kFsBase cfg @ ''/index.html'') \<and>
    \<not> file_exists (fs_at_probe env) (kFsBase cfg @ ''/index.htm.gz'') \<and>
    \<not> file_exists (fs_at_probe env) (kFsBase cfg @ ''/index.htm'') \<longrightarrow>
      sent_by (handle_root kRoot cfg env g (Some (fresh_req ''/''))) =
        [\<lparr>tx_kind = Whole, tx_status = ''200 OK'', tx_type = ''text/html; charset=utf-8'',
          tx_hdrs = [(''Cache-Control'', ''no-cache, no-store, must-revalidate''),
                     (''Pragma'', ''no-cache''), (''Expires'', ''0''),
                     (''Vary'', ''Accept-Encoding'')],
          tx_body = kRoot\<rparr>] \<and>
      sent_by (handle_root kRoot cfg env g (Some (fresh_req ''/index.html''))) =
        [\<lparr>tx_kind = Whole, tx_status = ''200 OK'', tx_type = ''text/html; charset=utf-8'',
          tx_hdrs = [(''Cache-Control'', ''no-cache, no-store, must-revalidate''),
                     (''Pragma'', ''no-cache''), (''Expires'', ''0''),
                     (''Vary'', ''Accept-Encoding'')],
          tx_body = kRoot\<rparr>])"
proof -
  have a: "p \<noteq> [] \<and> hd p = CHR ''/'' \<and> last p = CHR ''/'' \<and> \<not> has_dotdot p \<longrightarrow>
      resolve_fs_path fs base (Some p) =
        spec_first_existing fs base [p @ ''index.html'', p @ ''index.htm''] \<and>
      fs_probes fs base (Some p) =
        spec_probe_sequence fs base [p @ ''index.html'', p @ ''index.htm''] \<and>
      resolve_fs_path_probes fs base (Some (p @ ''index.html'')) =
        resolve_fs_path_probes fs base (Some p)"
    using resolve_trailing_slash [of p fs base] trailing_slash_index [of p fs base]
    by (simp add: resolve_fs_path_def fs_probes_def)
  have n: "resolve_fs_path (fs_at_probe env) (kFsBase cfg) (Some ''/'') = None"
          "resolve_fs_path (fs_at_probe env) (kFsBase cfg) (Some ''/index.html'') = None"
    if "\<not> file_exists (fs_at_probe env) (kFsBase cfg @ ''/index.html.gz'')"
       "\<not> file_exists (fs_at_probe env) (kFsBase cfg @ ''/index.html'')"
       "\<not> file_exists (fs_at_probe env) (kFsBase cfg @ ''/index.htm.gz'')"
       "\<not> file_exists (fs_at_probe env) (kFsBase cfg @ ''/index.htm'')"
    using that
    by (simp_all add: resolve_root spec_first_existing_none)
  show ?thesis
    using a resolve_root [of fs base] n
      handle_root_fallback [of "''/''" env cfg kRoot g]
      handle_root_fallback [of "''/index.html''" env cfg kRoot g]
    by simp
qed

text \<open>
  A mount that holds \<open>/index.htm\<close> and \<open>/docs/index.html.gz\<close>: \<open>/\<close> resolves to the
  first, \<open>/docs/\<close> to the second. On an empty mount the root handler sends the embedded
  page.
\<close>

theorem root_index_default_witness:
  "''/docs/'' \<noteq> [] \<and> hd ''/docs/'' = CHR ''/'' \<and> last ''/docs/'' = CHR ''/'' \<and>
   \<not> has_dotdot ''/docs/'' \<and>
   resolve_fs_path [(''/littlefs/index.htm'', ''hi''), (''/littlefs/docs/index.html.gz'', ''z'')]
       ''/littlefs'' (Some ''/docs/'') =
     Some \<lparr>out_full_path = ''/littlefs/docs/index.html.gz'',
           out_ctype = ''text/html; charset=utf-8'', out_is_gz = True\<rparr> \<and>
   resolve_fs_path [(''/littlefs/index.htm'', ''hi''), (''/littlefs/docs/index.html.gz'', ''z'')]
       ''/littlefs'' (Some ''/'') =
     Some \<lparr>out_full_path = ''/littlefs/index.htm'',
           out_ctype = ''text/html; charset=utf-8'', out_is_gz = False\<rparr> \<and>
   resolve_fs_path [(''/littlefs/index.htm'', ''hi''), (''/littlefs/docs/index.html.gz'', ''z'')]
       ''/littlefs'' (Some ''/index.html'') =
     Some \<lparr>out_full_path = ''/littlefs/index.htm'',
           out_ctype = ''text/html; charset=utf-8'', out_is_gz = False\<rparr> \<and>
   \<not> file_exists [] (kFsBase littlefs_config @ ''/index.html.gz'') \<and>
   \<not> file_exists [] (kFsBase littlefs_config @ ''/index.html'') \<and>
   \<not> file_exists [] (kFsBase littlefs_config @ ''/index.htm.gz'') \<and>
   \<not> file_exists [] (kFsBase littlefs_config @ ''/index.htm'') \<and>
   sent_by (handle_root ''<html>'' littlefs_config
       \<lparr>transport_rc = answers [], vfs_register_rc = answers [], fs_at_probe = [], fs_at_open = []\<rparr>
       idle_globals (Some (fresh_req ''/''))) =
     [\<lparr>tx_kind = Whole, tx_status = ''200 OK'', tx_type = ''text/html; charset=utf-8'',
       tx_hdrs = [(''Cache-Control'', ''no-cache, no-store, must-revalidate''),
                  (''Pragma'', ''no-cache''), (''Expires'', ''0''),
                  (''Vary'', ''Accept-Encoding'')],
       tx_body = ''<html>''\<rparr>]"
proof -
  let ?fs = "[(''/littlefs/index.htm'', ''hi''), (''/littlefs/docs/index.html.gz'', ''z'')]"
  let ?env = "\<lparr>transport_rc = answers [], vfs_register_rc = answers [], fs_at_probe = [], fs_at_open = []\<rparr>"
  have h: "''/docs/'' \<noteq> []" "hd ''/docs/'' = CHR ''/''" "last ''/docs/'' = CHR ''/''"
    "\<not> has_dotdot ''/docs/''"
    by (simp_all add: has_dotdot_def)
  have d: "spec_first_existing ?fs ''/littlefs'' [''/docs/'' @ ''index.html'', ''/docs/'' @ ''index.htm''] =
     Some \<lparr>out_full_path = ''/littlefs/docs/index.html.gz'',
           out_ctype = ''text/html; charset=utf-8'', out_is_gz = True\<rparr>"
    by code_simp
  have r: "spec_first_existing ?fs ''/littlefs'' [''/index.html'', ''/index.htm''] =
     Some \<lparr>out_full_path = ''/littlefs/index.htm'',
           out_ctype = ''text/html; charset=utf-8'', out_is_gz = False\<rparr>"
    by code_simp
  have e: "\<not> file_exists (fs_at_probe ?env) (kFsBase littlefs_config @ ''/index.html.gz'')"
     "\<not> file_exists (fs_at_probe ?env) (kFsBase littlefs_config @ ''/index.html'')"
     "\<not> file_exists (fs_at_probe ?env) (kFsBase littlefs_config @ ''/index.htm.gz'')"
     "\<not> file_exists (fs_at_probe ?env) (kFsBase littlefs_config @ ''/index.htm'')"
    by (simp_all add: file_exists_def)
  show ?thesis
    using root_index_default [of "''/docs/''" ?fs "''/littlefs''" ?env littlefs_config "''<html>''" idle_globals]
      h d r e
    by simp
qed





section \<open>Properties of the lifecycle functions\<close>

lemma ensure_mutex_keeps:
  "s_state (snd (ensure_mutex mc ec g)) = s_state g"
  "s_server (snd (ensure_mutex mc ec g)) = s_server g"
  "s_task (snd (ensure_mutex mc ec g)) = s_task g"
  by (simp_all add: ensure_mutex_def Let_def)

lemma ensure_mutex_ok:
  "fst (ensure_mutex mc ec g) \<Longrightarrow> s_mutex (snd (ensure_mutex mc ec g)) \<and> s_evt (snd (ensure_mutex mc ec g))"
  by (auto simp add: ensure_mutex_def Let_def split: if_splits)

lemma ensure_mutex_present:
  "s_mutex g \<Longrightarrow> s_evt g \<Longrightarrow> ensure_mutex mc ec g = (True, g)"
  by (simp add: ensure_mutex_def Let_def)

lemma yield_mutex [simp]: "s_mutex (yield env a p g) = s_mutex g"
  by (simp add: yield_def)

lemma stop_server_mutex [simp]: "s_mutex (stop_server env a g) = s_mutex g"
  by (simp add: stop_server_def stop_server_locked_def)

lemma register_defaults_mutex [simp]:
  "s_mutex (snd (register_defaults env a k n g)) = s_mutex g"
  by (induction n arbitrary: k g) (simp_all add: Let_def)

lemma ensure_fs_mounted_mutex [simp]: "s_mutex (snd (ensure_fs_mounted r g)) = s_mutex g"
  by (simp add: ensure_fs_mounted_def Let_def)

lemma start_server_locked_mutex [simp]:
  "s_mutex (snd (snd (start_server_locked m rc h g))) = s_mutex g"
  by (simp add: start_server_locked_def Let_def)

lemma start_server_mutex [simp]: "s_mutex (snd (start_server cfg env a g)) = s_mutex g"
  by (simp add: start_server_def Let_def split_beta)

lemma start_worker_check_mutex [simp]: "s_mutex (snd (start_worker_check g)) = s_mutex g"
  by (simp add: start_worker_check_def)

lemma start_worker_store_mutex [simp]: "s_mutex (snd (snd (start_worker_store h g))) = s_mutex g"
  by (simp add: start_worker_store_def)

lemma start_worker_task_mutex [simp]: "s_mutex (snd (start_worker_task env a g)) = s_mutex g"
proof -
  have "s_mutex (snd (start_worker_check (yield env a Before_worker_check g))) = s_mutex g"
    by simp
  then show ?thesis
    by (cases "start_worker_check (yield env a Before_worker_check g)")
       (auto simp add: start_worker_task_def split_beta split: option.splits)
qed

lemma stop_worker_poll_mutex [simp]: "s_mutex (snd (stop_worker_poll env a i g)) = s_mutex g"
proof (induction env a i g rule: stop_worker_poll.induct)
  case (1 env attempt i g)
  then show ?case
    by (subst stop_worker_poll.simps) (simp add: Let_def)
qed

lemma stop_worker_begin_mutex [simp]: "s_mutex (snd (stop_worker_begin g)) = s_mutex g"
  by (simp add: stop_worker_begin_def)

lemma stop_worker_task_mutex [simp]: "s_mutex (snd (stop_worker_task env a g)) = s_mutex g"
proof -
  have "s_mutex (snd (stop_worker_begin (yield env a Before_stop_worker g))) = s_mutex g"
    by simp
  then show ?thesis
    by (cases "stop_worker_begin (yield env a Before_stop_worker g)")
       (auto simp add: stop_worker_task_def split: option.splits)
qed

lemma doubling_length [simp]: "length (doubling b n) = n"
  by (induction n arbitrary: b) simp_all


lemma bring_ups_append [simp]: "bring_ups (xs @ ys) = bring_ups xs + bring_ups ys"
  by (induction xs rule: bring_ups.induct) simp_all

lemma delays_append [simp]: "delays (xs @ ys) = delays xs @ delays ys"
  by (induction xs rule: delays.induct) simp_all

lemma ready_waits_append [simp]: "ready_waits (xs @ ys) = ready_waits xs @ ready_waits ys"
  by (induction xs rule: ready_waits.induct) simp_all

lemma yield_quiet:
  assumes "\<forall>a p g. ready_bit (others env a p g) \<longrightarrow> ready_bit g"
  shows "ready_bit (yield env a p g) \<Longrightarrow> ready_bit g"
  using assms by (simp add: yield_def)

lemma stop_server_quiet:
  assumes "\<forall>a p g. ready_bit (others env a p g) \<longrightarrow> ready_bit g"
  shows "ready_bit (stop_server env a g) \<Longrightarrow> ready_bit g"
  using yield_quiet [OF assms, of a Before_stop_server g]
  by (simp add: stop_server_def stop_server_locked_def split: if_splits)

lemma register_defaults_quiet:
  assumes "\<forall>a p g. ready_bit (others env a p g) \<longrightarrow> ready_bit g"
  shows "ready_bit (snd (register_defaults env a k n g)) \<Longrightarrow> ready_bit g"
proof (induction n arbitrary: k g)
  case 0
  then show ?case by simp
next
  case (Suc n)
  show ?case
  proof (cases "register_uri_internal (engine_register_rc env a k) True True (yield env a (Before_register k) g) \<noteq> ESP_OK")
    case True
    then have "ready_bit (yield env a (Before_register k) g)" using Suc.prems by (simp add: Let_def)
    then show ?thesis by (rule yield_quiet [OF assms])
  next
    case False
    then have "ready_bit (snd (register_defaults env a (Suc k) n (yield env a (Before_register k) g)))"
      using Suc.prems by (simp add: Let_def)
    then have "ready_bit (yield env a (Before_register k) g)" by (rule Suc.IH)
    then show ?thesis by (rule yield_quiet [OF assms])
  qed
qed

lemma ensure_fs_mounted_ready [simp]: "ready_bit (snd (ensure_fs_mounted r g)) = ready_bit g"
  by (simp add: ensure_fs_mounted_def Let_def)

lemma start_server_locked_ready [simp]:
  "ready_bit (snd (snd (start_server_locked m rc h g))) = ready_bit g"
  by (simp add: start_server_locked_def Let_def)

lemma start_server_quiet:
  assumes "\<forall>a p g. ready_bit (others env a p g) \<longrightarrow> ready_bit g"
  shows "ready_bit (snd (start_server cfg env a g)) \<Longrightarrow> ready_bit g"
proof -
  assume r: "ready_bit (snd (start_server cfg env a g))"
  obtain rc fresh g1 where sl: "start_server_locked (default_max_open_sockets env) (httpd_start_rc env a)
             (httpd_start_handle env a) g = (rc, fresh, g1)"
    by (cases "start_server_locked (default_max_open_sockets env) (httpd_start_rc env a)
             (httpd_start_handle env a) g")
  have g1: "ready_bit g1 = ready_bit g"
    using sl start_server_locked_ready [of "default_max_open_sockets env" "httpd_start_rc env a"
        "httpd_start_handle env a" g] by simp
  show "ready_bit g"
  proof (cases fresh)
    case False
    then show ?thesis using r sl g1 by (simp add: start_server_def)
  next
    case True
    define g2 where "g2 = (if enable_littlefs cfg
                       then snd (ensure_fs_mounted (mount_rc env) (yield env a Before_mount g1))
                       else g1)"
    have g2: "ready_bit g2 \<Longrightarrow> ready_bit g1"
      using yield_quiet [OF assms, of a Before_mount g1] by (auto simp add: g2_def split: if_splits)
    obtain reg_rc g3 where rd: "register_defaults env a 0 4 g2 = (reg_rc, g3)"
      by (cases "register_defaults env a 0 4 g2")
    have g3: "ready_bit g3 \<Longrightarrow> ready_bit g2"
      using register_defaults_quiet [OF assms, of a 0 4 g2] rd by simp
    have "snd (start_server cfg env a g) = (if reg_rc = ESP_OK then g3 else stop_server env a g3)"
      using sl True rd by (simp add: start_server_def g2_def Let_def)
    then have "ready_bit g3"
      using r stop_server_quiet [OF assms, of a g3] by (auto split: if_splits)
    then show ?thesis using g3 g2 g1 by simp
  qed
qed

lemma start_worker_task_quiet:
  assumes "\<forall>a p g. ready_bit (others env a p g) \<longrightarrow> ready_bit g"
  shows "ready_bit (snd (start_worker_task env a g)) \<Longrightarrow> ready_bit g"
proof -
  assume r: "ready_bit (snd (start_worker_task env a g))"
  define g0 where "g0 = yield env a Before_worker_check g"
  obtain res g1 where c: "start_worker_check g0 = (res, g1)" by (cases "start_worker_check g0")
  have g1: "ready_bit g1 = ready_bit g0"
    using c by (auto simp add: start_worker_check_def split: if_splits)
  have "ready_bit g1"
  proof (cases res)
    case (Some b)
    then show ?thesis using r c by (simp add: start_worker_task_def g0_def)
  next
    case None
    show ?thesis
    proof (cases "xTaskCreate_handle env a")
      case none: None
      then show ?thesis using r c None by (simp add: start_worker_task_def g0_def)
    next
      case (Some h)
      obtain ok del g2 where st: "start_worker_store h (yield env a Before_worker_store g1) = (ok, del, g2)"
        by (cases "start_worker_store h (yield env a Before_worker_store g1)")
      have "ready_bit g2 = ready_bit (yield env a Before_worker_store g1)"
        using st by (auto simp add: start_worker_store_def split: if_splits)
      moreover have "ready_bit g2" using r c None Some st by (simp add: start_worker_task_def g0_def)
      ultimately show ?thesis using yield_quiet [OF assms, of a Before_worker_store g1] by simp
    qed
  qed
  then show "ready_bit g" using g1 yield_quiet [OF assms, of a Before_worker_check g] by (simp add: g0_def)
qed

lemma stop_worker_poll_quiet:
  assumes "\<forall>a p g. ready_bit (others env a p g) \<longrightarrow> ready_bit g"
    and "ready_bit (snd (stop_worker_poll env a i g))"
  shows "ready_bit g"
  using assms
proof (induction env a i g rule: stop_worker_poll.induct)
  case (1 env attempt i g)
  note q = "1.prems"(1)
  show ?case
  proof (cases "i < 50")
    case False
    then have "stop_worker_poll env attempt i g = (False, g)"
      by (subst stop_worker_poll.simps) simp
    then show ?thesis using "1.prems"(2) by simp
  next
    case True
    define g1 where "g1 = yield env attempt (Before_poll i) g"
    show ?thesis
    proof (cases "timed_lock_ok env attempt i \<and> lock_mutex g1 \<and> s_task g1 = None")
      case fin: True
      then have "stop_worker_poll env attempt i g = (True, g1)"
        using True by (subst stop_worker_poll.simps) (simp add: g1_def Let_def)
      then have "ready_bit g1" using "1.prems"(2) by simp
      then show ?thesis using yield_quiet [OF q, of attempt "Before_poll i" g] by (simp add: g1_def)
    next
      case again: False
      then have "stop_worker_poll env attempt i g = stop_worker_poll env attempt (Suc i) g1"
        using True by (subst stop_worker_poll.simps) (auto simp add: g1_def Let_def)
      then have "ready_bit (snd (stop_worker_poll env attempt (Suc i) g1))" using "1.prems"(2) by simp
      then have "ready_bit g1"
        using True again q by (intro "1.IH" [of g1]) (auto simp add: g1_def)
      then show ?thesis using yield_quiet [OF q, of attempt "Before_poll i" g] by (simp add: g1_def)
    qed
  qed
qed

lemma stop_worker_task_quiet:
  assumes "\<forall>a p g. ready_bit (others env a p g) \<longrightarrow> ready_bit g"
  shows "ready_bit (snd (stop_worker_task env a g)) \<Longrightarrow> ready_bit g"
proof -
  assume r: "ready_bit (snd (stop_worker_task env a g))"
  define g0 where "g0 = yield env a Before_stop_worker g"
  obtain res g1 where c: "stop_worker_begin g0 = (res, g1)" by (cases "stop_worker_begin g0")
  have g1: "ready_bit g1 = ready_bit g0"
    using c by (auto simp add: stop_worker_begin_def split: if_splits)
  have "ready_bit g1"
  proof (cases res)
    case (Some b)
    then show ?thesis using r c by (simp add: stop_worker_task_def g0_def)
  next
    case None
    then have "ready_bit (snd (stop_worker_poll env a 0 (yield env a Before_notify g1)))"
      using r c by (simp add: stop_worker_task_def g0_def)
    then have "ready_bit (yield env a Before_notify g1)" by (rule stop_worker_poll_quiet [OF assms])
    then show ?thesis by (rule yield_quiet [OF assms])
  qed
  then show "ready_bit g" using g1 yield_quiet [OF assms, of a Before_stop_worker g] by (simp add: g0_def)
qed

lemma last_after_delay: "last (pre @ Ev_delay b # tr) = (if tr = [] then Ev_delay b else last tr)"
  by simp

lemma ended_ready_after:
  "ended_ready env (g', pre @ Ev_delay b # tr) = ended_ready env (g', tr)"
  by (auto simp add: ended_ready_def)

lemma attempts_contract_failed:
  assumes "attempts_contract env (Suc a) (b + b) (g', tr)"
    and "a < kMaxAttempts" and "bring_ups pre = 1" and "delays pre = []"
    and "set (ready_waits pre) \<subseteq> {kWorkerReadyTimeout env}"
    and "attempts_shape (pre @ Ev_delay b # tr)"
  shows "attempts_contract env a b (g', pre @ Ev_delay b # tr)"
proof -
  have d: "delays tr = doubling (b + b) (length (delays tr))"
    using assms(1) by (simp add: attempts_contract_def)
  have dd: "doubling b (Suc (length (delays tr))) = b # delays tr"
    using d by simp
  have e: "ended_ready env (g', pre @ Ev_delay b # tr) \<or>
           ended_exhausted (kMaxAttempts - a) (g', pre @ Ev_delay b # tr)"
  proof (cases "ended_ready env (g', tr)")
    case True
    then show ?thesis by (simp add: ended_ready_after)
  next
    case False
    then have "ended_exhausted (kMaxAttempts - Suc a) (g', tr)"
      using assms(1) by (simp add: attempts_contract_def)
    moreover have "Suc (kMaxAttempts - Suc a) = kMaxAttempts - a" using assms(2) by simp
    ultimately have "ended_exhausted (kMaxAttempts - a) (g', pre @ Ev_delay b # tr)"
      using assms(3,4) by (simp add: ended_exhausted_def)
    then show ?thesis by simp
  qed
  have rest: "attempts_shape (pre @ Ev_delay b # tr)"
    "bring_ups (pre @ Ev_delay b # tr) \<le> kMaxAttempts - a"
    "length (delays (pre @ Ev_delay b # tr)) \<le> bring_ups (pre @ Ev_delay b # tr)"
    "bring_ups (pre @ Ev_delay b # tr) \<le> Suc (length (delays (pre @ Ev_delay b # tr)))"
    "set (ready_waits (pre @ Ev_delay b # tr)) \<subseteq> {kWorkerReadyTimeout env}"
    "delays (pre @ Ev_delay b # tr) = doubling b (length (delays (pre @ Ev_delay b # tr)))"
    using assms dd by (auto simp add: attempts_contract_def)
  show ?thesis
    unfolding attempts_contract_def using rest e by simp
qed

lemma attempts_contract_ready:
  assumes "a < kMaxAttempts" and "ready_bit g'"
  shows "attempts_contract env a b
           (g', [Ev_start_server ESP_OK, Ev_start_worker_task True, Ev_wait_ready (kWorkerReadyTimeout env) True])"
  using assms by (simp add: attempts_contract_def ended_ready_def)

text \<open>
  The attempt loop keeps its contract; and when the other tasks never set the readiness
  bit and the loop is entered with the bit cleared, it does not end ready.
\<close>

lemma start_attempts_contract:
  assumes "s_mutex g" and "attempt \<le> kMaxAttempts"
  shows "attempts_contract env attempt backoff (start_attempts cfg env attempt backoff g) \<and>
         ((\<forall>a p g'. ready_bit (others env a p g') \<longrightarrow> ready_bit g') \<and> \<not> ready_bit g \<longrightarrow>
            \<not> ended_ready env (start_attempts cfg env attempt backoff g))"
  using assms
proof (induction cfg env attempt backoff g rule: start_attempts.induct)
  case (1 cfg env attempt backoff g)
  show ?case
  proof (cases "attempt < kMaxAttempts")
    case False
    then have "start_attempts cfg env attempt backoff g =
                 (start_final (yield env attempt Before_final g), [])"
      by (subst start_attempts.simps) simp
    then show ?thesis using "1.prems" False
      by (simp add: attempts_contract_def start_final_def lock_mutex_def ended_exhausted_def
          ended_ready_def)
  next
    case True
    define g0 where "g0 = yield env attempt Before_start_server g"
    obtain srv_ret g1 where ss: "start_server cfg env attempt g0 = (srv_ret, g1)"
      by (cases "start_server cfg env attempt g0")
    have m1: "s_mutex g1" using ss "1.prems"(1) start_server_mutex [of cfg env attempt g0]
      by (simp add: g0_def)
    have le: "Suc attempt \<le> kMaxAttempts" using True by simp
    have q1: "\<not> ready_bit g1"
      if q: "\<forall>a p g'. ready_bit (others env a p g') \<longrightarrow> ready_bit g'" and n: "\<not> ready_bit g"
    proof
      assume "ready_bit g1"
      then have "ready_bit (snd (start_server cfg env attempt g0))" using ss by simp
      then have "ready_bit g0" by (rule start_server_quiet [OF q])
      then have "ready_bit g" unfolding g0_def by (rule yield_quiet [OF q])
      then show False using n by simp
    qed
    show ?thesis
    proof (cases "srv_ret \<noteq> ESP_OK")
      case fail: True
      define gn where "gn = yield env attempt During_backoff g1"
      define R where "R = start_attempts cfg env (Suc attempt) (backoff + backoff) gn"
      have ih0: "attempts_contract env (Suc attempt) (backoff + backoff) R \<and>
                ((\<forall>a p g'. ready_bit (others env a p g') \<longrightarrow> ready_bit g') \<and> \<not> ready_bit gn \<longrightarrow>
                   \<not> ended_ready env R)"
        unfolding R_def gn_def using True ss fail m1 le
        by (intro "1.IH"(1) [of srv_ret g1]) (simp_all add: g0_def)
      have ih: "attempts_contract env (Suc attempt) (backoff + backoff) R" using ih0 by blast
      have ihq: "(\<forall>a p g'. ready_bit (others env a p g') \<longrightarrow> ready_bit g') \<Longrightarrow> \<not> ready_bit gn \<Longrightarrow> \<not> ended_ready env R"
        using ih0 by blast
      have eq: "start_attempts cfg env attempt backoff g =
                  (fst R, [Ev_start_server srv_ret] @ Ev_delay backoff # snd R)"
        using True ss fail
        by (subst start_attempts.simps) (simp add: g0_def R_def gn_def split_beta)
      have sh: "attempts_shape (snd R)" using ih by (simp add: attempts_contract_def)
      have c: "attempts_contract env attempt backoff
                 (fst R, [Ev_start_server srv_ret] @ Ev_delay backoff # snd R)"
        using ih True fail sh by (intro attempts_contract_failed) simp_all
      have qn: "\<not> ready_bit gn"
        if q: "\<forall>a p g'. ready_bit (others env a p g') \<longrightarrow> ready_bit g'" and n: "\<not> ready_bit g"
      proof
        assume "ready_bit gn"
        then have "ready_bit g1" unfolding gn_def by (rule yield_quiet [OF q])
        then show False using q1 [OF q n] by simp
      qed
      have e: "ended_ready env (fst R, [Ev_start_server srv_ret] @ Ev_delay backoff # snd R) =
               ended_ready env R"
        using ended_ready_after [of env "fst R" "[Ev_start_server srv_ret]" backoff "snd R"] by simp
      show ?thesis unfolding eq using c e ihq qn by blast
    next
      case ok: False
      then have rc_ok: "srv_ret = ESP_OK" by simp
      obtain task_ok g2 where wt: "start_worker_task env attempt g1 = (task_ok, g2)"
        by (cases "start_worker_task env attempt g1")
      have m2: "s_mutex g2" using wt m1 start_worker_task_mutex [of env attempt g1] by simp
      have q2: "\<not> ready_bit g2"
        if q: "\<forall>a p g'. ready_bit (others env a p g') \<longrightarrow> ready_bit g'" and n: "\<not> ready_bit g"
      proof
        assume "ready_bit g2"
        then have "ready_bit (snd (start_worker_task env attempt g1))" using wt by simp
        then have "ready_bit g1" by (rule start_worker_task_quiet [OF q])
        then show False using q1 [OF q n] by simp
      qed
      show ?thesis
      proof (cases task_ok)
        case notask: False
        define gn where "gn = yield env attempt During_backoff (stop_server env attempt g2)"
        define R where "R = start_attempts cfg env (Suc attempt) (backoff + backoff) gn"
        have ih0: "attempts_contract env (Suc attempt) (backoff + backoff) R \<and>
                ((\<forall>a p g'. ready_bit (others env a p g') \<longrightarrow> ready_bit g') \<and> \<not> ready_bit gn \<longrightarrow>
                   \<not> ended_ready env R)"
          unfolding R_def gn_def using True ss ok wt notask m2 le
          by (intro "1.IH"(2) [of srv_ret g1 task_ok g2])
             (simp_all add: g0_def)
        have ih: "attempts_contract env (Suc attempt) (backoff + backoff) R" using ih0 by blast
        have ihq: "(\<forall>a p g'. ready_bit (others env a p g') \<longrightarrow> ready_bit g') \<Longrightarrow> \<not> ready_bit gn \<Longrightarrow> \<not> ended_ready env R"
          using ih0 by blast
        have eq: "start_attempts cfg env attempt backoff g =
                  (fst R, [Ev_start_server srv_ret, Ev_start_worker_task False, Ev_stop_server] @
                          Ev_delay backoff # snd R)"
          using True ss ok wt notask
          by (subst start_attempts.simps) (simp add: g0_def R_def gn_def split_beta)
        have sh: "attempts_shape (snd R)" using ih by (simp add: attempts_contract_def)
        have c: "attempts_contract env attempt backoff
                  (fst R, [Ev_start_server srv_ret, Ev_start_worker_task False, Ev_stop_server] @
                          Ev_delay backoff # snd R)"
          using ih True rc_ok sh by (intro attempts_contract_failed) simp_all
        have qn: "\<not> ready_bit gn"
          if q: "\<forall>a p g'. ready_bit (others env a p g') \<longrightarrow> ready_bit g'" and n: "\<not> ready_bit g"
        proof
          assume "ready_bit gn"
          then have "ready_bit (stop_server env attempt g2)" unfolding gn_def by (rule yield_quiet [OF q])
          then have "ready_bit g2" by (rule stop_server_quiet [OF q])
          then show False using q2 [OF q n] by simp
        qed
        have e: "ended_ready env (fst R, [Ev_start_server srv_ret, Ev_start_worker_task False, Ev_stop_server] @
                          Ev_delay backoff # snd R) = ended_ready env R"
          using ended_ready_after [of env "fst R" "[Ev_start_server srv_ret, Ev_start_worker_task False, Ev_stop_server]" backoff "snd R"]
          by simp
        show ?thesis unfolding eq using c e ihq qn by blast
      next
        case task: True
        define g3 where "g3 = yield env attempt During_ready_wait g2"
        have m3: "s_mutex g3" using m2 by (simp add: g3_def)
        have q3: "\<not> ready_bit g3"
          if q: "\<forall>a p g'. ready_bit (others env a p g') \<longrightarrow> ready_bit g'" and n: "\<not> ready_bit g"
        proof
          assume "ready_bit g3"
          then have "ready_bit g2" unfolding g3_def by (rule yield_quiet [OF q])
          then show False using q2 [OF q n] by simp
        qed
        show ?thesis
        proof (cases "ready_bit g3")
          case ready: True
          have eq: "start_attempts cfg env attempt backoff g =
                  (g3, [Ev_start_server srv_ret, Ev_start_worker_task True,
                        Ev_wait_ready (kWorkerReadyTimeout env) True])"
            using True ss ok wt task ready
            by (subst start_attempts.simps) (simp add: g0_def g3_def Let_def)
          have c: "attempts_contract env attempt backoff
                  (g3, [Ev_start_server ESP_OK, Ev_start_worker_task True,
                        Ev_wait_ready (kWorkerReadyTimeout env) True])"
            using True ready by (intro attempts_contract_ready)
          show ?thesis unfolding eq rc_ok using c q3 ready by blast
        next
          case timeout: False
          obtain stopped g4 where sw: "stop_worker_task env attempt g3 = (stopped, g4)"
            by (cases "stop_worker_task env attempt g3")
          have m4: "s_mutex g4" using sw m3 stop_worker_task_mutex [of env attempt g3] by simp
          define gn where "gn = yield env attempt During_backoff (stop_server env attempt g4)"
          define R where "R = start_attempts cfg env (Suc attempt) (backoff + backoff) gn"
          have ih0: "attempts_contract env (Suc attempt) (backoff + backoff) R \<and>
                ((\<forall>a p g'. ready_bit (others env a p g') \<longrightarrow> ready_bit g') \<and> \<not> ready_bit gn \<longrightarrow>
                   \<not> ended_ready env R)"
            unfolding R_def gn_def using True ss ok wt task timeout sw m4 le
            by (intro "1.IH"(3) [of srv_ret g1 task_ok g2 g3 stopped g4])
               (simp_all add: g0_def g3_def)
          have ih: "attempts_contract env (Suc attempt) (backoff + backoff) R" using ih0 by blast
          have ihq: "(\<forall>a p g'. ready_bit (others env a p g') \<longrightarrow> ready_bit g') \<Longrightarrow> \<not> ready_bit gn \<Longrightarrow> \<not> ended_ready env R"
            using ih0 by blast
          have eq: "start_attempts cfg env attempt backoff g =
                  (fst R, [Ev_start_server srv_ret, Ev_start_worker_task True,
                           Ev_wait_ready (kWorkerReadyTimeout env) False,
                           Ev_stop_worker_task stopped, Ev_stop_server] @
                          Ev_delay backoff # snd R)"
            using True ss ok wt task timeout sw
            by (subst start_attempts.simps) (simp add: g0_def g3_def R_def gn_def split_beta Let_def)
          have sh: "attempts_shape (snd R)" using ih by (simp add: attempts_contract_def)
          have c: "attempts_contract env attempt backoff
                  (fst R, [Ev_start_server srv_ret, Ev_start_worker_task True,
                           Ev_wait_ready (kWorkerReadyTimeout env) False,
                           Ev_stop_worker_task stopped, Ev_stop_server] @
                          Ev_delay backoff # snd R)"
            using ih True rc_ok sh by (intro attempts_contract_failed) simp_all
          have qn: "\<not> ready_bit gn"
            if q: "\<forall>a p g'. ready_bit (others env a p g') \<longrightarrow> ready_bit g'" and n: "\<not> ready_bit g"
          proof
            assume "ready_bit gn"
            then have "ready_bit (stop_server env attempt g4)" unfolding gn_def by (rule yield_quiet [OF q])
            then have "ready_bit g4" by (rule stop_server_quiet [OF q])
            then have "ready_bit (snd (stop_worker_task env attempt g3))" using sw by simp
            then have "ready_bit g3" by (rule stop_worker_task_quiet [OF q])
            then show False using q3 [OF q n] by simp
          qed
          have e: "ended_ready env (fst R, [Ev_start_server srv_ret, Ev_start_worker_task True,
                           Ev_wait_ready (kWorkerReadyTimeout env) False,
                           Ev_stop_worker_task stopped, Ev_stop_server] @
                          Ev_delay backoff # snd R) = ended_ready env R"
            using ended_ready_after [of env "fst R" "[Ev_start_server srv_ret, Ev_start_worker_task True,
                           Ev_wait_ready (kWorkerReadyTimeout env) False,
                           Ev_stop_worker_task stopped, Ev_stop_server]" backoff "snd R"]
            by simp
          show ?thesis unfolding eq using c e ihq qn by blast
        qed
      qed
    qed
  qed
qed

lemma ensure_mutex_failed:
  assumes "\<not> fst (ensure_mutex mc ec g)"
  shows "s_task_exit (snd (ensure_mutex mc ec g)) = s_task_exit g"
    and "s_fs_mounted (snd (ensure_mutex mc ec g)) = s_fs_mounted g"
    and "\<not> s_mutex g \<Longrightarrow> \<not> ready_bit g \<Longrightarrow> snd (ensure_mutex mc ec g) = g"
  using assms by (auto simp add: ensure_mutex_def Let_def split: if_splits)

text \<open>
  Claim C1, as amended. When the lock and the event group exist or can be created:
  \<open>start()\<close> does nothing more when the state is \<open>RUNNING\<close>, \<open>STARTING\<close> or \<open>STOPPING\<close>;
  from \<open>STOPPED\<close> it sets the state to \<open>STARTING\<close>, clears the readiness bit and runs the
  attempt loop with a backoff of 50 ms, and that run ends in one of two ways only: with a
  ready wait that saw the bit, the bit set in the statics it returns with; or after
  exactly five bring-ups and five delays, in state \<open>STOPPED\<close> with the bit cleared. A
  failed attempt is thus always followed by its delay and, up to the fifth, by the next
  attempt; and when no other task ever sets the readiness bit, the run is the exhausted
  one. When the objects cannot be created, \<open>start()\<close> returns at once: no attempt, the
  state, the handles, the exit flag and the mounted flag as they were. In every case,
  whatever the platform and the other tasks do, the trace is made of attempts, with at
  most 5 bring-ups, ready waits with the 500 ms timeout only, and one delay after each
  failed attempt, 50 ms doubled each time. The function has no result besides the
  statics.
\<close>

theorem start_contract:
  "(fst (ensure_mutex (mutex_create_ok env) (evt_create_ok env) g) \<longrightarrow>
      (s_state g = RUNNING \<or> s_state g = STARTING \<or> s_state g = STOPPING \<longrightarrow>
         start cfg env g = (snd (ensure_mutex (mutex_create_ok env) (evt_create_ok env) g), []) \<and>
         (s_mutex g \<and> s_evt g \<longrightarrow> start cfg env g = (g, []))) \<and>
      (s_state g = STOPPED \<longrightarrow>
         start cfg env g =
           start_attempts cfg env 0 (pdMS_TO_TICKS env 50)
             ((snd (ensure_mutex (mutex_create_ok env) (evt_create_ok env) g))
                \<lparr>s_state := STARTING, s_task_exit := False, ready_bit := False\<rparr>) \<and>
         (ended_ready env (start cfg env g) \<or> ended_exhausted 5 (start cfg env g)) \<and>
         ((\<forall>a p g'. ready_bit (others env a p g') \<longrightarrow> ready_bit g') \<longrightarrow>
            ended_exhausted 5 (start cfg env g)))) \<and>
   (\<not> fst (ensure_mutex (mutex_create_ok env) (evt_create_ok env) g) \<longrightarrow>
      start cfg env g = (snd (ensure_mutex (mutex_create_ok env) (evt_create_ok env) g), []) \<and>
      s_state (fst (start cfg env g)) = s_state g \<and>
      s_server (fst (start cfg env g)) = s_server g \<and>
      s_task (fst (start cfg env g)) = s_task g \<and>
      s_task_exit (fst (start cfg env g)) = s_task_exit g \<and>
      s_fs_mounted (fst (start cfg env g)) = s_fs_mounted g \<and>
      (\<not> s_mutex g \<and> \<not> ready_bit g \<longrightarrow> fst (start cfg env g) = g)) \<and>
   attempts_shape (snd (start cfg env g)) \<and>
   bring_ups (snd (start cfg env g)) \<le> 5 \<and>
   length (delays (snd (start cfg env g))) \<le> bring_ups (snd (start cfg env g)) \<and>
   bring_ups (snd (start cfg env g)) \<le> Suc (length (delays (snd (start cfg env g)))) \<and>
   set (ready_waits (snd (start cfg env g))) \<subseteq> {pdMS_TO_TICKS env 500} \<and>
   delays (snd (start cfg env g)) =
     doubling (pdMS_TO_TICKS env 50) (length (delays (snd (start cfg env g))))"
proof -
  define g0 where "g0 = snd (ensure_mutex (mutex_create_ok env) (evt_create_ok env) g)"
  have st0: "s_state g0 = s_state g" "s_server g0 = s_server g" "s_task g0 = s_task g"
    by (simp_all add: g0_def ensure_mutex_keeps)
  show ?thesis
  proof (cases "fst (ensure_mutex (mutex_create_ok env) (evt_create_ok env) g)")
    case nolock: False
    then have em: "ensure_mutex (mutex_create_ok env) (evt_create_ok env) g = (False, g0)"
      by (cases "ensure_mutex (mutex_create_ok env) (evt_create_ok env) g") (simp add: g0_def)
    have eq: "start cfg env g = (g0, [])" using em by (simp add: start_def)
    have k: "s_task_exit g0 = s_task_exit g" "s_fs_mounted g0 = s_fs_mounted g"
      "\<not> s_mutex g \<and> \<not> ready_bit g \<longrightarrow> g0 = g"
      using ensure_mutex_failed [OF nolock] by (simp_all add: g0_def)
    show ?thesis using nolock eq st0 k by (simp add: g0_def [symmetric])
  next
    case lock: True
    then have em: "ensure_mutex (mutex_create_ok env) (evt_create_ok env) g = (True, g0)"
      by (cases "ensure_mutex (mutex_create_ok env) (evt_create_ok env) g") (simp add: g0_def)
    have m0: "s_mutex g0" "s_evt g0" using ensure_mutex_ok [OF lock] by (simp_all add: g0_def)
    show ?thesis
    proof (cases "s_state g = STOPPED")
      case False
      then have busy: "s_state g = RUNNING \<or> s_state g = STARTING \<or> s_state g = STOPPING"
        by (cases "s_state g") simp_all
      then have eq: "start cfg env g = (g0, [])"
        using em st0 by (auto simp add: start_def start_enter_def)
      have "s_mutex g \<and> s_evt g \<longrightarrow> g0 = g"
        using ensure_mutex_present [of g "mutex_create_ok env" "evt_create_ok env"]
        by (simp add: g0_def)
      then show ?thesis using False lock eq by (simp add: g0_def [symmetric])
    next
      case True
      define g1 where "g1 = g0\<lparr>s_state := STARTING, s_task_exit := False, ready_bit := False\<rparr>"
      have se: "start_enter g0 = (True, g1)"
        using True st0 m0 by (simp add: start_enter_def lock_mutex_def g1_def)
      have eq: "start cfg env g = start_attempts cfg env 0 (pdMS_TO_TICKS env 50) g1"
        using em se by (simp add: start_def kInitialBackoff_def)
      have c: "attempts_contract env 0 (pdMS_TO_TICKS env 50) (start cfg env g)"
        and q: "(\<forall>a p g'. ready_bit (others env a p g') \<longrightarrow> ready_bit g') \<and> \<not> ready_bit g1 \<longrightarrow>
                  \<not> ended_ready env (start cfg env g)"
        using start_attempts_contract [of g1 0 env "pdMS_TO_TICKS env 50" cfg] m0
        by (simp_all add: g1_def eq)
      have n1: "\<not> ready_bit g1" by (simp add: g1_def)
      have d: "ended_ready env (start cfg env g) \<or> ended_exhausted 5 (start cfg env g)"
        using c by (simp add: attempts_contract_def kMaxAttempts_def)
      have x: "(\<forall>a p g'. ready_bit (others env a p g') \<longrightarrow> ready_bit g') \<longrightarrow>
                 ended_exhausted 5 (start cfg env g)"
        using d q n1 by blast
      have r: "attempts_shape (snd (start cfg env g))"
        "bring_ups (snd (start cfg env g)) \<le> 5"
        "length (delays (snd (start cfg env g))) \<le> bring_ups (snd (start cfg env g))"
        "bring_ups (snd (start cfg env g)) \<le> Suc (length (delays (snd (start cfg env g))))"
        "set (ready_waits (snd (start cfg env g))) \<subseteq> {pdMS_TO_TICKS env 500}"
        "delays (snd (start cfg env g)) =
           doubling (pdMS_TO_TICKS env 50) (length (delays (snd (start cfg env g))))"
        using c by (simp_all add: attempts_contract_def kMaxAttempts_def kWorkerReadyTimeout_def)
      have e: "start cfg env g =
           start_attempts cfg env 0 (pdMS_TO_TICKS env 50)
             ((snd (ensure_mutex (mutex_create_ok env) (evt_create_ok env) g))
                \<lparr>s_state := STARTING, s_task_exit := False, ready_bit := False\<rparr>)"
        using eq by (simp add: g1_def g0_def)
      have A: "fst (ensure_mutex (mutex_create_ok env) (evt_create_ok env) g) \<longrightarrow>
        (s_state g = RUNNING \<or> s_state g = STARTING \<or> s_state g = STOPPING \<longrightarrow>
           start cfg env g = (snd (ensure_mutex (mutex_create_ok env) (evt_create_ok env) g), []) \<and>
           (s_mutex g \<and> s_evt g \<longrightarrow> start cfg env g = (g, []))) \<and>
        (s_state g = STOPPED \<longrightarrow>
           start cfg env g =
             start_attempts cfg env 0 (pdMS_TO_TICKS env 50)
               ((snd (ensure_mutex (mutex_create_ok env) (evt_create_ok env) g))
                  \<lparr>s_state := STARTING, s_task_exit := False, ready_bit := False\<rparr>) \<and>
           (ended_ready env (start cfg env g) \<or> ended_exhausted 5 (start cfg env g)) \<and>
           ((\<forall>a p g'. ready_bit (others env a p g') \<longrightarrow> ready_bit g') \<longrightarrow>
              ended_exhausted 5 (start cfg env g)))"
        using True e d x by simp
      have B: "\<not> fst (ensure_mutex (mutex_create_ok env) (evt_create_ok env) g) \<longrightarrow>
        start cfg env g = (snd (ensure_mutex (mutex_create_ok env) (evt_create_ok env) g), []) \<and>
        s_state (fst (start cfg env g)) = s_state g \<and>
        s_server (fst (start cfg env g)) = s_server g \<and>
        s_task (fst (start cfg env g)) = s_task g \<and>
        s_task_exit (fst (start cfg env g)) = s_task_exit g \<and>
        s_fs_mounted (fst (start cfg env g)) = s_fs_mounted g \<and>
        (\<not> s_mutex g \<and> \<not> ready_bit g \<longrightarrow> fst (start cfg env g) = g)"
        using lock by simp
      from A B r show ?thesis by (intro conjI)
    qed
  qed
qed

text \<open>
  Three platforms, one tick per millisecond, no other task interfering unless said. On
  the first \<open>httpd_start\<close> fails every time: five bring-ups, the delays 50, 100, 200,
  400 and 800, and the state \<open>STOPPED\<close>. On the second the worker gets its first run
  during the ready wait: one attempt, ended ready. On the third there is no memory for
  the mutex. Last, a call in state \<open>RUNNING\<close>: nothing happens.
\<close>

theorem start_contract_witness:
  "fst (ensure_mutex (mutex_create_ok platform_no_server) (evt_create_ok platform_no_server) idle_globals) \<and>
   s_state idle_globals = STOPPED \<and>
   ended_exhausted 5 (start littlefs_config platform_no_server idle_globals) \<and>
   snd (start littlefs_config platform_no_server idle_globals) =
     [Ev_start_server ESP_FAIL, Ev_delay 50, Ev_start_server ESP_FAIL, Ev_delay 100,
      Ev_start_server ESP_FAIL, Ev_delay 200, Ev_start_server ESP_FAIL, Ev_delay 400,
      Ev_start_server ESP_FAIL, Ev_delay 800] \<and>
   s_state (fst (start littlefs_config platform_no_server idle_globals)) = STOPPED \<and>
   \<not> ready_bit (fst (start littlefs_config platform_no_server idle_globals)) \<and>
   fst (ensure_mutex (mutex_create_ok platform_prompt_worker) (evt_create_ok platform_prompt_worker) idle_globals) \<and>
   ended_ready platform_prompt_worker (start littlefs_config platform_prompt_worker idle_globals) \<and>
   snd (start littlefs_config platform_prompt_worker idle_globals) =
     [Ev_start_server ESP_OK, Ev_start_worker_task True, Ev_wait_ready 500 True] \<and>
   s_state (fst (start littlefs_config platform_prompt_worker idle_globals)) = RUNNING \<and>
   \<not> fst (ensure_mutex (mutex_create_ok platform_no_memory) (evt_create_ok platform_no_memory) boot_globals) \<and>
   start littlefs_config platform_no_memory boot_globals = (boot_globals, []) \<and>
   fst (ensure_mutex (mutex_create_ok platform_no_server) (evt_create_ok platform_no_server) running_globals) \<and>
   s_state running_globals = RUNNING \<and>
   start littlefs_config platform_no_server running_globals = (running_globals, [])"
proof -
  have h: "fst (ensure_mutex (mutex_create_ok platform_no_server) (evt_create_ok platform_no_server) idle_globals)"
    "fst (ensure_mutex (mutex_create_ok platform_prompt_worker) (evt_create_ok platform_prompt_worker) idle_globals)"
    "\<not> fst (ensure_mutex (mutex_create_ok platform_no_memory) (evt_create_ok platform_no_memory) boot_globals)"
    by code_simp+
  have s: "s_state idle_globals = STOPPED" by code_simp
  have q: "\<forall>a p g'. ready_bit (others platform_no_server a p g') \<longrightarrow> ready_bit g'"
    by (simp add: platform_no_server_def)
  have x: "ended_exhausted 5 (start littlefs_config platform_no_server idle_globals)"
    using start_contract [of platform_no_server idle_globals littlefs_config] h(1) s q by blast
  have t: "snd (start littlefs_config platform_no_server idle_globals) =
     [Ev_start_server ESP_FAIL, Ev_delay 50, Ev_start_server ESP_FAIL, Ev_delay 100,
      Ev_start_server ESP_FAIL, Ev_delay 200, Ev_start_server ESP_FAIL, Ev_delay 400,
      Ev_start_server ESP_FAIL, Ev_delay 800]"
    by code_simp
  have w: "snd (start littlefs_config platform_prompt_worker idle_globals) =
     [Ev_start_server ESP_OK, Ev_start_worker_task True, Ev_wait_ready 500 True]"
    "s_state (fst (start littlefs_config platform_prompt_worker idle_globals)) = RUNNING"
    by code_simp+
  have "\<not> ended_exhausted 5 (start littlefs_config platform_prompt_worker idle_globals)"
    using w(2) by (simp add: ended_exhausted_def)
  then have r: "ended_ready platform_prompt_worker (start littlefs_config platform_prompt_worker idle_globals)"
    using start_contract [of platform_prompt_worker idle_globals littlefs_config] h(2) s by blast
  have b: "\<not> s_mutex boot_globals" "\<not> ready_bit boot_globals" by (simp_all add: boot_globals_def)
  have m: "start littlefs_config platform_no_memory boot_globals =
          (snd (ensure_mutex (mutex_create_ok platform_no_memory) (evt_create_ok platform_no_memory) boot_globals), [])"
       "fst (start littlefs_config platform_no_memory boot_globals) = boot_globals"
    using start_contract [of platform_no_memory boot_globals littlefs_config] h(3) b by blast+
  have "snd (start littlefs_config platform_no_memory boot_globals) = []"
    by (subst m(1)) simp
  then have n: "start littlefs_config platform_no_memory boot_globals = (boot_globals, [])"
    using m(2) by (simp add: prod_eq_iff)
  have u: "fst (ensure_mutex (mutex_create_ok platform_no_server) (evt_create_ok platform_no_server) running_globals)"
    "s_state running_globals = RUNNING" "s_mutex running_globals" "s_evt running_globals"
    by code_simp+
  have v: "start littlefs_config platform_no_server running_globals = (running_globals, [])"
    using start_contract [of platform_no_server running_globals littlefs_config] u by blast
  show ?thesis using h s x t w r n u(1,2) v by (simp add: ended_exhausted_def)
qed

text \<open>
  Claim C1 as stated: from \<open>STOPPED\<close>, \<open>start()\<close> sets the state to \<open>STARTING\<close> and goes on
  to its attempts. When the mutex cannot be created, it returns from \<open>ensure_mutex\<close>
  with the statics untouched and without a single attempt.
\<close>

theorem start_without_lock_counterexample:
  "s_state boot_globals = STOPPED \<and>
   start littlefs_config platform_no_memory boot_globals = (boot_globals, [])"
  by code_simp

text \<open>
  Claim C6, as amended. Provided the lock and the event group exist or can be created,
  \<open>wait_until_running\<close> first takes the mutex, with \<open>portMAX_DELAY\<close>: a wait without a
  time limit for as long as another task holds it. Going by the state that it finds
  under the lock, it then returns \<open>ESP_OK\<close> with no further blocking call when the state
  is \<open>RUNNING\<close>, \<open>ESP_ERR_INVALID_STATE\<close> with no further blocking call when it is
  \<open>STOPPED\<close> or \<open>STOPPING\<close>, and otherwise makes one wait for the readiness bit with the
  caller's timeout, returning \<open>ESP_OK\<close> when the bit is seen and \<open>ESP_ERR_TIMEOUT\<close> when
  not. When \<open>RUNNING\<close>, the call with timeout 0 and \<open>is_running\<close> agree: the same one
  take of the mutex, \<open>ESP_OK\<close> and \<open>true\<close>, the same statics. When the objects cannot be
  created it returns \<open>ESP_FAIL\<close> without any blocking call. No call makes a blocking
  call other than the take of the mutex and the wait with the caller's timeout; the call
  changes no static itself.
\<close>

theorem wait_until_running_contract:
  "(fst (ensure_mutex mc ec g) \<longrightarrow>
      (s_state (statics_at_take meanwhile (snd (ensure_mutex mc ec g))) = RUNNING \<longrightarrow>
         fst (wait_until_running mc ec meanwhile bit_seen timeout_ticks g) = ESP_OK \<and>
         fst (snd (wait_until_running mc ec meanwhile bit_seen timeout_ticks g)) =
           [Take_mutex portMAX_DELAY]) \<and>
      (s_state (statics_at_take meanwhile (snd (ensure_mutex mc ec g))) = STOPPED \<or>
       s_state (statics_at_take meanwhile (snd (ensure_mutex mc ec g))) = STOPPING \<longrightarrow>
         fst (wait_until_running mc ec meanwhile bit_seen timeout_ticks g) = ESP_ERR_INVALID_STATE \<and>
         fst (snd (wait_until_running mc ec meanwhile bit_seen timeout_ticks g)) =
           [Take_mutex portMAX_DELAY]) \<and>
      (s_state (statics_at_take meanwhile (snd (ensure_mutex mc ec g))) = STARTING \<longrightarrow>
         fst (wait_until_running mc ec meanwhile bit_seen timeout_ticks g) =
           (if bit_seen then ESP_OK else ESP_ERR_TIMEOUT) \<and>
         fst (snd (wait_until_running mc ec meanwhile bit_seen timeout_ticks g)) =
           [Take_mutex portMAX_DELAY, Wait_ready_bit timeout_ticks]) \<and>
      (s_state (statics_at_take meanwhile (snd (ensure_mutex mc ec g))) = RUNNING \<longrightarrow>
         is_running mc ec meanwhile g =
           (True, [Take_mutex portMAX_DELAY], statics_at_take meanwhile (snd (ensure_mutex mc ec g))) \<and>
         wait_until_running mc ec meanwhile bit_seen 0 g =
           (ESP_OK, [Take_mutex portMAX_DELAY], statics_at_take meanwhile (snd (ensure_mutex mc ec g)))) \<and>
      snd (snd (wait_until_running mc ec meanwhile bit_seen timeout_ticks g)) =
        statics_at_take meanwhile (snd (ensure_mutex mc ec g))) \<and>
   (\<not> fst (ensure_mutex mc ec g) \<longrightarrow>
      wait_until_running mc ec meanwhile bit_seen timeout_ticks g =
        (ESP_FAIL, [], snd (ensure_mutex mc ec g))) \<and>
   set (fst (snd (wait_until_running mc ec meanwhile bit_seen timeout_ticks g))) \<subseteq>
     {Take_mutex portMAX_DELAY, Wait_ready_bit timeout_ticks}"
proof -
  obtain ok g0 where em: "ensure_mutex mc ec g = (ok, g0)" by (cases "ensure_mutex mc ec g")
  have lk: "ok \<Longrightarrow> lock_mutex g0" using em ensure_mutex_ok [of mc ec g] by (simp add: lock_mutex_def)
  show ?thesis
    using em lk
    by (cases "s_state (statics_at_take meanwhile g0)")
       (auto simp add: wait_until_running_def is_running_def Let_def)
qed

text \<open>
  From \<open>STOPPED\<close>, the poll with timeout 0; in \<open>STARTING\<close> with a worker that does not
  get ready within 2000 ticks; in \<open>RUNNING\<close>, the poll and \<open>is_running\<close>; at boot with no
  memory for the mutex.
\<close>

theorem wait_until_running_contract_witness:
  "fst (ensure_mutex True True idle_globals) \<and>
   s_state (statics_at_take id (snd (ensure_mutex True True idle_globals))) = STOPPED \<and>
   wait_until_running True True id False 0 idle_globals =
     (ESP_ERR_INVALID_STATE, [Take_mutex portMAX_DELAY], idle_globals) \<and>
   wait_until_running True True id False 2000 (idle_globals\<lparr>s_state := STARTING\<rparr>) =
     (ESP_ERR_TIMEOUT, [Take_mutex portMAX_DELAY, Wait_ready_bit 2000],
      idle_globals\<lparr>s_state := STARTING\<rparr>) \<and>
   wait_until_running True True id True 0 running_globals =
     (ESP_OK, [Take_mutex portMAX_DELAY], running_globals) \<and>
   is_running True True id running_globals =
     (True, [Take_mutex portMAX_DELAY], running_globals) \<and>
   \<not> fst (ensure_mutex False False boot_globals) \<and>
   wait_until_running False False id True 0 boot_globals = (ESP_FAIL, [], boot_globals)"
proof -
  have e: "ensure_mutex True True idle_globals = (True, idle_globals)"
     "ensure_mutex True True (idle_globals\<lparr>s_state := STARTING\<rparr>) = (True, idle_globals\<lparr>s_state := STARTING\<rparr>)"
     "ensure_mutex True True running_globals = (True, running_globals)"
     "ensure_mutex False False boot_globals = (False, boot_globals)"
    by (simp_all add: ensure_mutex_def running_globals_def idle_globals_def boot_globals_def)
  have t: "statics_at_take id idle_globals = idle_globals"
     "statics_at_take id (idle_globals\<lparr>s_state := STARTING\<rparr>) = idle_globals\<lparr>s_state := STARTING\<rparr>"
     "statics_at_take id running_globals = running_globals"
    by (simp_all add: statics_at_take_def)
  have s: "s_state idle_globals = STOPPED" "s_state running_globals = RUNNING"
    by (simp_all add: running_globals_def idle_globals_def boot_globals_def)
  show ?thesis
    using wait_until_running_contract [of True True idle_globals id False 0]
      wait_until_running_contract [of True True "idle_globals\<lparr>s_state := STARTING\<rparr>" id False 2000]
      wait_until_running_contract [of True True running_globals id True 0]
      wait_until_running_contract [of False False boot_globals id True 0] e t s
    by (simp add: prod_eq_iff)
qed

text \<open>
  Claim C6 as stated: the invalid-state signal whenever the state is \<open>STOPPED\<close>, and no
  blocking at all with timeout 0. Before the first \<open>start()\<close>, with no memory for the
  mutex, the answer in state \<open>STOPPED\<close> is \<open>ESP_FAIL\<close>. And in state \<open>RUNNING\<close> the call
  with timeout 0 does make a blocking call: the take of the mutex with \<open>portMAX_DELAY\<close>,
  which lasts as long as another task holds the mutex.
\<close>

theorem wait_until_running_stopped_counterexample:
  "s_state boot_globals = STOPPED \<and>
   fst (wait_until_running False False id True 0 boot_globals) = ESP_FAIL \<and>
   s_state running_globals = RUNNING \<and>
   fst (snd (wait_until_running True True id True 0 running_globals)) =
     [Take_mutex portMAX_DELAY] \<and>
   portMAX_DELAY = (4294967295 :: 32 word)"
  by code_simp

text \<open>
  Claim C7, as amended. \<open>register_uri\<close> (and \<open>unregister_uri\<close>, which has no handler
  argument) returns \<open>ESP_ERR_INVALID_ARG\<close> for a null URI or handler without asking the
  engine; otherwise, provided the lock and the event group exist or can be created, it
  returns \<open>ESP_ERR_INVALID_STATE\<close> without asking the engine when the state is not
  \<open>RUNNING\<close> or the server handle is null, and the engine's own result when the module is
  running, whatever that result is; when the objects cannot be created it returns
  \<open>ESP_FAIL\<close>.
\<close>

theorem register_uri_contract:
  "(uri_arg = None \<or> handler = None \<longrightarrow>
      fst (register_uri mc ec engine_rc uri_arg handler g) = ESP_ERR_INVALID_ARG \<and>
      \<not> fst (snd (register_uri mc ec engine_rc uri_arg handler g))) \<and>
   (uri_arg = None \<longrightarrow>
      fst (unregister_uri mc ec engine_rc uri_arg g) = ESP_ERR_INVALID_ARG \<and>
      \<not> fst (snd (unregister_uri mc ec engine_rc uri_arg g))) \<and>
   (uri_arg \<noteq> None \<and> fst (ensure_mutex mc ec g) \<longrightarrow>
      (s_state g \<noteq> RUNNING \<or> s_server g = None \<longrightarrow>
         (handler \<noteq> None \<longrightarrow>
            fst (register_uri mc ec engine_rc uri_arg handler g) = ESP_ERR_INVALID_STATE \<and>
            \<not> fst (snd (register_uri mc ec engine_rc uri_arg handler g))) \<and>
         fst (unregister_uri mc ec engine_rc uri_arg g) = ESP_ERR_INVALID_STATE \<and>
         \<not> fst (snd (unregister_uri mc ec engine_rc uri_arg g))) \<and>
      (s_state g = RUNNING \<and> s_server g \<noteq> None \<longrightarrow>
         (handler \<noteq> None \<longrightarrow>
            fst (register_uri mc ec engine_rc uri_arg handler g) = engine_rc \<and>
            fst (snd (register_uri mc ec engine_rc uri_arg handler g))) \<and>
         fst (unregister_uri mc ec engine_rc uri_arg g) = engine_rc \<and>
         fst (snd (unregister_uri mc ec engine_rc uri_arg g)))) \<and>
   (uri_arg \<noteq> None \<and> \<not> fst (ensure_mutex mc ec g) \<longrightarrow>
      (handler \<noteq> None \<longrightarrow> fst (register_uri mc ec engine_rc uri_arg handler g) = ESP_FAIL) \<and>
      fst (unregister_uri mc ec engine_rc uri_arg g) = ESP_FAIL)"
proof -
  obtain ok g0 where em: "ensure_mutex mc ec g = (ok, g0)" by (cases "ensure_mutex mc ec g")
  have st: "s_state g0 = s_state g" "s_server g0 = s_server g"
    using em ensure_mutex_keeps [of mc ec g] by simp_all
  have lk: "ok \<Longrightarrow> lock_mutex g0" using em ensure_mutex_ok [of mc ec g] by (simp add: lock_mutex_def)
  show ?thesis
    using em st lk by (auto simp add: register_uri_def unregister_uri_def)
qed

theorem register_uri_contract_witness:
  "fst (ensure_mutex True True running_globals) \<and> s_state running_globals = RUNNING \<and>
   s_server running_globals \<noteq> None \<and>
   fst (register_uri True True ESP_ERR_HTTPD_HANDLER_EXISTS (Some ''/api/ping'') (Some 1) running_globals) =
     ESP_ERR_HTTPD_HANDLER_EXISTS \<and>
   fst (register_uri True True ESP_OK None (Some 1) running_globals) = ESP_ERR_INVALID_ARG \<and>
   s_state idle_globals \<noteq> RUNNING \<and>
   fst (register_uri True True ESP_OK (Some ''/api/ping'') (Some 1) idle_globals) = ESP_ERR_INVALID_STATE \<and>
   fst (unregister_uri True True ESP_OK (Some ''/api/ping'') idle_globals) = ESP_ERR_INVALID_STATE \<and>
   \<not> fst (ensure_mutex False False boot_globals) \<and>
   fst (register_uri False False ESP_OK (Some ''/api/ping'') (Some 1) boot_globals) = ESP_FAIL"
proof -
  have a: "fst (ensure_mutex True True running_globals)" "s_state running_globals = RUNNING"
     "s_server running_globals \<noteq> None" "s_state idle_globals \<noteq> RUNNING"
     "fst (ensure_mutex True True idle_globals)"
     "\<not> fst (ensure_mutex False False boot_globals)"
    by (simp_all add: ensure_mutex_def running_globals_def idle_globals_def boot_globals_def)
  show ?thesis
    using register_uri_contract [of "Some ''/api/ping''" "Some 1" True True ESP_ERR_HTTPD_HANDLER_EXISTS running_globals]
      register_uri_contract [of None "Some 1" True True ESP_OK running_globals]
      register_uri_contract [of "Some ''/api/ping''" "Some 1" True True ESP_OK idle_globals]
      register_uri_contract [of "Some ''/api/ping''" "Some 1" False False ESP_OK boot_globals] a
    by simp
qed

text \<open>
  Claim C7 as stated: the invalid-state signal whenever the state is not \<open>RUNNING\<close>.
  Before the first \<open>start()\<close>, with no memory for the mutex, the answer is \<open>ESP_FAIL\<close>.
\<close>

theorem register_uri_not_running_counterexample:
  "s_state boot_globals \<noteq> RUNNING \<and>
   fst (register_uri False False ESP_OK (Some ''/api/ping'') (Some 1) boot_globals) \<noteq> ESP_ERR_INVALID_STATE"
  by code_simp

section \<open>Properties of the interleaved system\<close>

lemma entered_not_creating [simp]: "\<not> creating (entered c)"
  by (cases c) simp_all

lemma after_stop_server_not_creating [simp]: "\<not> creating (after_stop_server c)"
  by (cases c) simp_all

text \<open>
  A caller that runs through \<open>ensure_mutex\<close> with no step of another task in between
  does what the function \<open>ensure_mutex\<close> of the sequential model says: the same statics,
  and on to the first locked section exactly when the result is \<open>true\<close>.
\<close>

lemma ensure_steps_alone:
  assumes "i < length (callers s)" and "callers s ! i = E_MutexTest c"
  shows "\<exists>n s'. n \<le> 7 \<and> exec cfg m (replicate n (Run i rc ok ok2)) s = Some s' \<and>
           G s' = snd (ensure_mutex ok ok2 (G s)) \<and>
           callers s' = (callers s)[i := (if fst (ensure_mutex ok ok2 (G s)) then entered c else Idle)]"
proof -
  consider (a) "s_mutex (G s)" "s_evt (G s)"
    | (b) "s_mutex (G s)" "\<not> s_evt (G s)" "ok2"
    | (c) "s_mutex (G s)" "\<not> s_evt (G s)" "\<not> ok2"
    | (d) "\<not> s_mutex (G s)" "\<not> ok"
    | (e) "\<not> s_mutex (G s)" "ok" "s_evt (G s)"
    | (f) "\<not> s_mutex (G s)" "ok" "\<not> s_evt (G s)" "ok2"
    | (g) "\<not> s_mutex (G s)" "ok" "\<not> s_evt (G s)" "\<not> ok2"
    by blast
  then show ?thesis
  proof cases
    case a
    then show ?thesis using assms
      by (intro exI [of _ 2]) (simp add: eval_nat_numeral ensure_mutex_def Let_def)
  next
    case b
    then show ?thesis using assms
      by (intro exI [of _ 4]) (simp add: eval_nat_numeral ensure_mutex_def Let_def)
  next
    case c
    then show ?thesis using assms
      by (intro exI [of _ 5]) (simp add: eval_nat_numeral ensure_mutex_def Let_def)
  next
    case d
    then show ?thesis using assms
      by (intro exI [of _ 3]) (simp add: eval_nat_numeral ensure_mutex_def Let_def)
  next
    case e
    then show ?thesis using assms
      by (intro exI [of _ 4]) (simp add: eval_nat_numeral ensure_mutex_def Let_def)
  next
    case f
    then show ?thesis using assms
      by (intro exI [of _ 6]) (simp add: eval_nat_numeral ensure_mutex_def Let_def)
  next
    case g
    then show ?thesis using assms
      by (intro exI [of _ 7]) (simp add: eval_nat_numeral ensure_mutex_def Let_def)
  qed
qed









text \<open>
  The creation race of \<open>ensure_mutex\<close>: two first callers that both test \<open>s_mutex\<close> before
  either stores a mutex make two mutexes. The state reached is not settled, no later
  state is, and the first locked section of \<open>start()\<close> is beyond the model.
\<close>

lemma two_first_callers_make_two_mutexes:
  "map_option mutexes_made (exec littlefs_config 7 run_two_first_callers (boot_sys 2)) = Some 2 \<and>
   map_option settled (exec littlefs_config 7 run_two_first_callers (boot_sys 2)) = Some False \<and>
   map_option callers (exec littlefs_config 7 run_two_first_callers (boot_sys 2)) =
     Some [S_Enter, E_MutexRetest Api_start] \<and>
   map_option (step littlefs_config 7 (Run 0 ESP_OK True True))
     (exec littlefs_config 7 run_two_first_callers (boot_sys 2)) = Some Beyond"
  by code_simp

end
